(* ===== verification/Prelude.thy ===== *)
theory Prelude
  imports Main "HOL-Library.Word" "HOL-Library.Signed_Division"
begin

text \<open>
  Shared vocabulary of the development: machine integers as words, the C++ exceptions the
  library throws as values, the look-ups of \<open>std::map\<close> and \<open>std::array\<close>, and the lemmas on
  bit fields of registers, lists and options that the component theories use.
\<close>

unbundle bit_operations_syntax

named_theorems bitfield "reading a bit field back from a register word"

section \<open>Types of the source language\<close>

type_synonym u8 = "8 word"
type_synonym u16 = "16 word"
type_synonym u32 = "32 word"

text \<open>The exceptions the sources throw; a \<open>std::system_error\<close> carries its \<open>errno\<close> code.\<close>

datatype exn =
    Out_of_range
  | Invalid_argument
  | Domain_error
  | Runtime_error
  | System_error int

text \<open>A call that may throw returns \<open>Inl\<close> of the exception or \<open>Inr\<close> of its value.\<close>

type_synonym 'a res = "exn + 'a"

definition rbind :: "'a res \<Rightarrow> ('a \<Rightarrow> 'b res) \<Rightarrow> 'b res" where
  "rbind r f = (case r of Inl x \<Rightarrow> Inl x | Inr a \<Rightarrow> f a)"

lemma rbind_simps [simp]: "rbind (Inl x) f = Inl x" "rbind (Inr a) f = f a"
  by (simp_all add: rbind_def)

lemma rbind_Inr: "rbind r f = Inr b \<longleftrightarrow> (\<exists>a. r = Inr a \<and> f a = Inr b)"
  by (cases r) simp_all

text \<open>
  \<open>std::map::at\<close> on a map given as the list of its pairs, and \<open>std::array::at\<close>:
  both throw \<open>std::out_of_range\<close> on a missing key.
\<close>

definition map_at :: "('k \<times> 'v) list \<Rightarrow> 'k \<Rightarrow> 'v res" where
  "map_at m k = (case map_of m k of None \<Rightarrow> Inl Out_of_range | Some v \<Rightarrow> Inr v)"

definition array_at :: "'a list \<Rightarrow> int \<Rightarrow> 'a res" where
  "array_at xs i = (if 0 \<le> i \<and> i < int (length xs) then Inr (xs ! nat i) else Inl Out_of_range)"

lemma map_at_Inr: "map_at m k = Inr v \<longleftrightarrow> map_of m k = Some v"
  by (simp add: map_at_def split: option.splits)

lemma array_at_Inr: "array_at xs i = Inr x \<longleftrightarrow> 0 \<le> i \<and> i < int (length xs) \<and> x = xs ! nat i"
  by (auto simp: array_at_def)

section \<open>Bit fields of a register word\<close>

text \<open>
  The drivers write a field of a register with \<open>r &= ~(m << p); r |= v << p\<close> and read it with
  \<open>(r >> p) & m\<close>, where the mask \<open>m\<close> has the low bits of the field's width set.
\<close>

lemma field_read_back [bitfield]:
  fixes r v m :: "'a::len word"
  assumes "v AND m = v" and "drop_bit p (push_bit p m) = m"
  shows "drop_bit p ((r AND NOT (push_bit p m)) OR push_bit p v) AND m = v"
proof (rule bit_word_eqI)
  fix n assume n: "n < LENGTH('a)"
  have m: "bit m n \<Longrightarrow> p + n < LENGTH('a)" for n
    using arg_cong [OF assms(2), of "\<lambda>w. bit w n"] by (auto simp: bit_simps)
  have v: "bit v n \<Longrightarrow> bit m n" for n
    using arg_cong [OF assms(1), of "\<lambda>w. bit w n"] by (auto simp: bit_simps)
  show "bit (drop_bit p ((r AND NOT (push_bit p m)) OR push_bit p v) AND m) n = bit v n"
    using m [of n] v [of n] n by (auto simp: bit_simps)
qed

lemma field_read_other [bitfield]:
  fixes r v m :: "'a::len word"
  assumes "v AND m = v" and "push_bit p m AND push_bit q k = 0"
  shows "drop_bit q ((r AND NOT (push_bit p m)) OR push_bit p v) AND k = drop_bit q r AND k"
proof (rule bit_word_eqI)
  fix n assume n: "n < LENGTH('a)"
  have v: "bit v n \<Longrightarrow> bit m n" for n
    using arg_cong [OF assms(1), of "\<lambda>w. bit w n"] by (auto simp: bit_simps)
  have d: "bit k n \<Longrightarrow> q + n < LENGTH('a) \<Longrightarrow> p \<le> q + n \<Longrightarrow> \<not> bit m (q + n - p)"
    using arg_cong [OF assms(2), of "\<lambda>w. bit w (q + n)"] by (auto simp: bit_simps)
  show "bit (drop_bit q ((r AND NOT (push_bit p m)) OR push_bit p v) AND k) n
      = bit (drop_bit q r AND k) n"
    using d v n by (auto simp: bit_simps dest: bit_imp_le_length)
qed

text \<open>A single-bit flag is either wholly present in a word or absent.\<close>

lemma and_single_bit:
  fixes w :: "'a::len word"
  shows "w AND 2 ^ k = (if bit w k then 2 ^ k else 0)"
  by (rule bit_word_eqI) (auto simp: bit_simps)

section \<open>Truncating division and memory copies\<close>

text \<open>\<open>/\<close> and \<open>%\<close> of C truncate toward zero; on non-negative operands they are \<open>div\<close> and \<open>mod\<close>.\<close>

lemma smod_nonneg: "0 \<le> (a::int) \<Longrightarrow> 0 < b \<Longrightarrow> a smod b = a mod b"
  by (cases "a = 0") (auto simp: signed_modulo_int_def)

lemma sdiv_nonneg: "0 \<le> (a::int) \<Longrightarrow> 0 < b \<Longrightarrow> a sdiv b = a div b"
  by (cases "a = 0") (auto simp: signed_divide_int_def)

text \<open>\<open>memcpy\<close> of \<open>xs\<close> into a memory block at offset \<open>i\<close>; the caller checks that it fits.\<close>

definition memcpy :: "nat \<Rightarrow> 'a list \<Rightarrow> 'a list \<Rightarrow> 'a list" where
  "memcpy i xs mem = take i mem @ xs @ drop (i + length xs) mem"

lemma length_memcpy [simp]: "i + length xs \<le> length mem \<Longrightarrow> length (memcpy i xs mem) = length mem"
  by (simp add: memcpy_def)

lemma memcpy_append_window:
  "j \<le> i \<Longrightarrow> i + length xs \<le> length mem \<Longrightarrow>
    take (i + length xs - j) (drop j (memcpy i xs mem)) = take (i - j) (drop j mem) @ xs"
  by (simp add: memcpy_def drop_take)

lemma memcpy_one: "i < length mem \<Longrightarrow> memcpy i [x] mem = mem[i := x]"
  by (simp add: memcpy_def upd_conv_take_nth_drop)

end
