(* ===== verification/RingBuffer.thy ===== *)
theory RingBuffer
  imports Prelude
begin

text \<open>
  The STL-style circular buffer \<open>Piduino::RingBuffer\<close> of \<open>include/piduino/ringbuffer.h\<close>.

  The array of slots is a list of optional items: \<open>None\<close> is raw storage, \<open>Some x\<close> a constructed
  object. An operation that the language leaves undefined (an access outside the array, or to a
  slot that holds no object) has the value \<open>None\<close>; every other outcome is \<open>Some\<close>. The parameter
  \<open>td\<close> of the operations that destroy items says whether the element type is trivially
  destructible: then \<open>std::allocator::destroy\<close> has no effect. Sizes are natural numbers, as no
  capacity comes near the end of \<open>size_t\<close>.

  The abstraction \<open>contents\<close> reads the buffer as a list. The locale \<open>overwriting_queue\<close> states
  the contract of a queue that forgets its oldest item when full; the buffer interprets it.
\<close>

section \<open>The buffer and its private helpers\<close>

record 'a ring =
  m_capacity :: nat
  m_array :: "'a option list"
  m_head :: nat
  m_tail :: nat
  m_contents_size :: nat

definition ring_new :: "nat \<Rightarrow> 'a ring" where
  "ring_new capacity = \<lparr>m_capacity = capacity, m_array = replicate capacity None,
     m_head = 1, m_tail = 0, m_contents_size = 0\<rparr>"

definition normalise :: "'a ring \<Rightarrow> nat \<Rightarrow> nat" where
  "normalise r n = n mod m_capacity r"

definition index_to_subscript :: "'a ring \<Rightarrow> nat \<Rightarrow> nat" where
  "index_to_subscript r index = normalise r (index + m_head r)"

definition next_tail :: "'a ring \<Rightarrow> nat" where
  "next_tail r = (if m_tail r + 1 = m_capacity r then 0 else m_tail r + 1)"

definition previous_tail :: "'a ring \<Rightarrow> nat" where
  "previous_tail r = (if m_tail r = 0 then m_capacity r - 1 else m_tail r - 1)"

definition previous_head :: "'a ring \<Rightarrow> nat" where
  "previous_head r = (if m_head r = 0 then m_capacity r - 1 else m_head r - 1)"

definition increment_tail :: "'a ring \<Rightarrow> 'a ring" where
  "increment_tail r = (let r1 = r\<lparr>m_contents_size := m_contents_size r + 1\<rparr>
     in r1\<lparr>m_tail := next_tail r1\<rparr>)"

definition decrement_tail :: "'a ring \<Rightarrow> 'a ring" where
  "decrement_tail r = (let r1 = r\<lparr>m_contents_size := m_contents_size r - 1\<rparr>
     in r1\<lparr>m_tail := previous_tail r1\<rparr>)"

definition increment_head :: "'a ring \<Rightarrow> 'a ring" where
  "increment_head r = (let r1 = r\<lparr>m_head := m_head r + 1, m_contents_size := m_contents_size r - 1\<rparr>
     in if m_head r1 = m_capacity r1 then r1\<lparr>m_head := 0\<rparr> else r1)"

definition decrement_head :: "'a ring \<Rightarrow> 'a ring" where
  "decrement_head r = (let r1 = (if m_head r = 0 then r\<lparr>m_head := m_capacity r\<rparr> else r)
     in r1\<lparr>m_head := m_head r1 - 1, m_contents_size := m_contents_size r1 + 1\<rparr>)"

text \<open>
  Slot accesses: reading, assigning to an object, constructing one in raw storage
  (\<open>m_allocator.construct\<close>) and destroying one (\<open>m_allocator.destroy\<close>).
\<close>

definition slot_read :: "'a ring \<Rightarrow> nat \<Rightarrow> 'a option" where
  "slot_read r i = (if i < length (m_array r) then m_array r ! i else None)"

definition slot_assign :: "nat \<Rightarrow> 'a \<Rightarrow> 'a ring \<Rightarrow> 'a ring option" where
  "slot_assign i x r = (if slot_read r i = None then None
     else Some (r\<lparr>m_array := (m_array r)[i := Some x]\<rparr>))"

definition slot_construct :: "nat \<Rightarrow> 'a \<Rightarrow> 'a ring \<Rightarrow> 'a ring option" where
  "slot_construct i x r = (if i < length (m_array r)
     then Some (r\<lparr>m_array := (m_array r)[i := Some x]\<rparr>) else None)"

definition slot_destroy :: "bool \<Rightarrow> nat \<Rightarrow> 'a ring \<Rightarrow> 'a ring option" where
  "slot_destroy td i r = (if td then Some r
     else if slot_read r i = None then None
     else Some (r\<lparr>m_array := (m_array r)[i := None]\<rparr>))"

section \<open>The public operations\<close>

definition ring_empty :: "'a ring \<Rightarrow> bool" where
  "ring_empty r = (0 = m_contents_size r)"

definition ring_front :: "'a ring \<Rightarrow> 'a option" where
  "ring_front r = slot_read r (m_head r)"

definition ring_back :: "'a ring \<Rightarrow> 'a option" where
  "ring_back r = slot_read r (m_tail r)"

definition at_unchecked :: "'a ring \<Rightarrow> nat \<Rightarrow> 'a option" where
  "at_unchecked r index = (if m_capacity r = 0 then None else slot_read r (index_to_subscript r index))"

definition at_checked :: "'a ring \<Rightarrow> nat \<Rightarrow> 'a option res" where
  "at_checked r index = (if m_contents_size r \<le> index then Inl Out_of_range
     else Inr (at_unchecked r index))"

fun destroy_from :: "bool \<Rightarrow> nat \<Rightarrow> nat \<Rightarrow> 'a ring \<Rightarrow> 'a ring option" where
  "destroy_from td n 0 r = Some r"
| "destroy_from td n (Suc k) r = (if m_capacity r = 0 then None
     else Option.bind (slot_destroy td (index_to_subscript r n) r) (destroy_from td (Suc n) k))"

definition ring_clear :: "bool \<Rightarrow> 'a ring \<Rightarrow> 'a ring option" where
  "ring_clear td r = map_option (\<lambda>r1. r1\<lparr>m_head := 1, m_tail := 0, m_contents_size := 0\<rparr>)
     (destroy_from td 0 (m_contents_size r) r)"

definition push_back :: "'a \<Rightarrow> 'a ring \<Rightarrow> 'a ring option" where
  "push_back item r = (let nxt = next_tail r in
     if m_contents_size r = m_capacity r
     then map_option (\<lambda>r1. increment_tail (increment_head r1)) (slot_assign nxt item r)
     else map_option increment_tail (slot_construct nxt item r))"

definition push_front :: "'a \<Rightarrow> 'a ring \<Rightarrow> 'a ring option" where
  "push_front item r = (let previous = previous_head r in
     if m_contents_size r = m_capacity r
     then map_option decrement_head (slot_assign previous item r)
     else map_option decrement_head (slot_construct previous item r))"

definition pop_front :: "bool \<Rightarrow> 'a ring \<Rightarrow> 'a ring option" where
  "pop_front td r = (if m_contents_size r \<noteq> 0
     then (let destroy_pos = m_head r in slot_destroy td destroy_pos (increment_head r))
     else Some r)"

definition pop_back :: "bool \<Rightarrow> 'a ring \<Rightarrow> 'a ring option" where
  "pop_back td r = (if m_contents_size r \<noteq> 0
     then (let destroy_pos = previous_tail r in slot_destroy td destroy_pos (decrement_tail r))
     else Some r)"

fun pop_front_times :: "bool \<Rightarrow> nat \<Rightarrow> 'a ring \<Rightarrow> 'a ring option" where
  "pop_front_times td 0 r = Some r"
| "pop_front_times td (Suc len) r = Option.bind (pop_front td r) (pop_front_times td len)"

fun pop_back_times :: "bool \<Rightarrow> nat \<Rightarrow> 'a ring \<Rightarrow> 'a ring option" where
  "pop_back_times td 0 r = Some r"
| "pop_back_times td (Suc len) r = Option.bind (pop_back td r) (pop_back_times td len)"

definition ring_skip :: "bool \<Rightarrow> nat \<Rightarrow> 'a ring \<Rightarrow> 'a ring option" where
  "ring_skip td len r = (if m_contents_size r \<le> len then ring_clear td r else pop_front_times td len r)"

definition ring_chop :: "bool \<Rightarrow> nat \<Rightarrow> 'a ring \<Rightarrow> 'a ring option" where
  "ring_chop td len r = (if m_contents_size r \<le> len then ring_clear td r else pop_back_times td len r)"

text \<open>
  The loop of \<open>assign_into\<close> runs an iterator of \<open>src\<close> from position \<open>from\<close> until it differs no more
  from \<open>to\<close>; a run that never meets \<open>to\<close> has the value \<open>None\<close>.
\<close>

partial_function (option) assign_loop :: "'a ring \<Rightarrow> nat \<Rightarrow> nat \<Rightarrow> 'a ring \<Rightarrow> 'a ring option" where
  "assign_loop src from to r = (if from \<noteq> to
     then Option.bind (at_unchecked src from)
       (\<lambda>x. Option.bind (push_back x r) (\<lambda>r'. assign_loop src (Suc from) to r'))
     else Some r)"

definition assign_into :: "bool \<Rightarrow> 'a ring \<Rightarrow> nat \<Rightarrow> nat \<Rightarrow> 'a ring \<Rightarrow> 'a ring option" where
  "assign_into td src from to r =
     Option.bind (if 0 < m_contents_size r then ring_clear td r else Some r) (assign_loop src from to)"

text \<open>
  \<open>reserve\<close> fills a new buffer, swaps with it and lets the destructor of the temporary clear the
  old one.
\<close>

definition ring_reserve :: "bool \<Rightarrow> nat \<Rightarrow> 'a ring \<Rightarrow> 'a ring option" where
  "ring_reserve td new_size r = (if new_size \<noteq> m_capacity r
     then (let offset = (if new_size < m_contents_size r then m_contents_size r - new_size else 0)
       in Option.bind (assign_into td r (0 + offset) (m_contents_size r) (ring_new new_size))
         (\<lambda>tmp. map_option (\<lambda>_. tmp) (ring_clear td r)))
     else Some r)"

definition ring_copy :: "bool \<Rightarrow> 'a ring \<Rightarrow> 'a ring option" where
  "ring_copy td other = assign_into td other 0 (m_contents_size other)
     \<lparr>m_capacity = m_capacity other, m_array = replicate (m_capacity other) None,
      m_head = m_head other, m_tail = m_tail other, m_contents_size = m_contents_size other\<rparr>"

definition ring_eq :: "'a ring \<Rightarrow> 'a ring \<Rightarrow> bool" where
  "ring_eq lhs rhs \<longleftrightarrow> m_contents_size lhs = m_contents_size rhs \<and>
     list_all (\<lambda>n. at_unchecked lhs n = at_unchecked rhs n) [0..<m_contents_size lhs]"

section \<open>Abstraction, invariant and the contract\<close>

definition contents :: "'a ring \<Rightarrow> 'a list" where
  "contents r = map (\<lambda>n. the (at_unchecked r n)) [0..<m_contents_size r]"

definition ring_inv :: "'a ring \<Rightarrow> bool" where
  "ring_inv r \<longleftrightarrow> 1 < m_capacity r \<and> length (m_array r) = m_capacity r \<and> m_head r < m_capacity r \<and> m_tail r < m_capacity r \<and>
     m_contents_size r \<le> m_capacity r \<and>
     (m_head r + m_contents_size r) mod m_capacity r = (m_tail r + 1) mod m_capacity r \<and>
     (\<forall>n < m_contents_size r. at_unchecked r n \<noteq> None)"

lemma mod_add_inj:
  fixes i j h c :: nat
  assumes "i < c" and "j < c"
  shows "(i + h) mod c = (j + h) mod c \<longleftrightarrow> i = j"
proof -
  have "i' = j'" if "i' \<le> j'" "j' < c" "(i' + h) mod c = (j' + h) mod c" for i' j'
    using that mod_eq_dvd_iff_nat [of "i' + h" "j' + h" c] by (auto dest: dvd_imp_le)
  from this [of i j] this [of j i] show ?thesis
    using assms by (metis nat_le_linear)
qed

lemma length_contents [simp]: "length (contents r) = m_contents_size r"
  by (simp add: contents_def)

lemma nth_contents: "n < m_contents_size r \<Longrightarrow> contents r ! n = the (at_unchecked r n)"
  by (simp add: contents_def)

lemma next_tail_mod: "ring_inv r \<Longrightarrow> next_tail r = (m_head r + m_contents_size r) mod m_capacity r"
  by (auto simp: ring_inv_def next_tail_def)

lemma next_tail_less: "ring_inv r \<Longrightarrow> next_tail r < m_capacity r"
  by (auto simp: ring_inv_def next_tail_def)

lemmas ring_defs = ring_inv_def at_unchecked_def slot_read_def index_to_subscript_def normalise_def

text \<open>In terms of positions, the window of the buffer is \<open>head, head + 1, ...\<close> modulo the capacity.\<close>

lemma at_unchecked_mod:
  "ring_inv r \<Longrightarrow> at_unchecked r n = m_array r ! ((n + m_head r) mod m_capacity r)"
  by (auto simp: ring_defs)

lemma push_back_room:
  assumes inv: "ring_inv r" and room: "m_contents_size r < m_capacity r"
  shows "push_back x r = Some (increment_tail (r\<lparr>m_array := (m_array r)[next_tail r := Some x]\<rparr>))"
  using assms next_tail_less [OF inv]
  by (auto simp: push_back_def slot_construct_def Let_def ring_inv_def)

lemma next_tail_live:
  assumes inv: "ring_inv r" and full: "m_contents_size r = m_capacity r"
  shows "next_tail r = m_head r" and "slot_read r (m_head r) \<noteq> None"
proof -
  have h: "m_head r < m_capacity r" using inv by (simp add: ring_inv_def)
  show "next_tail r = m_head r"
    using h by (simp add: next_tail_mod [OF inv] full)
  have "at_unchecked r 0 \<noteq> None" using inv full by (simp add: ring_inv_def)
  then show "slot_read r (m_head r) \<noteq> None" using inv by (simp add: ring_defs)
qed

lemma push_back_full:
  assumes inv: "ring_inv r" and full: "m_contents_size r = m_capacity r"
  shows "push_back x r =
    Some (increment_tail (increment_head (r\<lparr>m_array := (m_array r)[m_head r := Some x]\<rparr>)))"
  using next_tail_live [OF assms] full by (auto simp: push_back_def slot_assign_def Let_def)

text \<open>
  Writing the slot after the tail leaves the other slots of the window alone, so the queue gains
  the new item at its end.
\<close>

lemma increment_tail_window:
  assumes inv: "ring_inv r" and room: "m_contents_size r < m_capacity r"
    and r': "r' = increment_tail (r\<lparr>m_array := (m_array r)[next_tail r := Some x]\<rparr>)"
  shows "ring_inv r' \<and> m_capacity r' = m_capacity r \<and> contents r' = contents r @ [x]"
proof -
  have f: "m_capacity r' = m_capacity r" "m_head r' = m_head r"
    "m_contents_size r' = Suc (m_contents_size r)" "m_tail r' = next_tail r"
    "m_array r' = (m_array r)[next_tail r := Some x]"
    by (auto simp: r' increment_tail_def Let_def next_tail_def)
  have at: "at_unchecked r' n = (if n = m_contents_size r then Some x else at_unchecked r n)"
    if "n \<le> m_contents_size r" for n
    using that inv room mod_add_inj [of n "m_capacity r" "m_contents_size r" "m_head r"]
      next_tail_less [OF inv]
    by (auto simp: ring_defs f next_tail_mod [OF inv] add.commute nth_list_update)
  have "(m_tail r' + 1) mod m_capacity r = (m_head r + m_contents_size r + 1) mod m_capacity r"
    using next_tail_mod [OF inv] by (simp add: f mod_Suc_eq)
  then have "ring_inv r'"
    using inv room next_tail_less [OF inv] at unfolding ring_inv_def by (auto simp: f less_Suc_eq)
  moreover have "contents r' = contents r @ [x]"
    by (rule nth_equalityI) (auto simp: f nth_contents nth_append at less_Suc_eq)
  ultimately show ?thesis by (simp add: f)
qed

lemma increment_head_fields:
  assumes "ring_inv r"
  shows "m_capacity (increment_head r) = m_capacity r" "m_array (increment_head r) = m_array r"
    "m_tail (increment_head r) = m_tail r" "m_contents_size (increment_head r) = m_contents_size r - 1"
    "m_head (increment_head r) = (m_head r + 1) mod m_capacity r"
  using assms by (auto simp: increment_head_def Let_def ring_inv_def)

text \<open>Advancing the head drops the oldest item and nothing else.\<close>

lemma increment_head_window:
  assumes inv: "ring_inv r" and ne: "0 < m_contents_size r"
  shows "ring_inv (increment_head r) \<and> contents (increment_head r) = tl (contents r)"
proof -
  note f = increment_head_fields [OF inv]
  have at: "at_unchecked (increment_head r) n = at_unchecked r (Suc n)" for n
    using inv by (simp add: ring_defs f mod_simps)
  have "((m_head r + 1) mod m_capacity r + (m_contents_size r - 1)) mod m_capacity r
      = (m_head r + 1 + (m_contents_size r - 1)) mod m_capacity r"
    by (simp only: mod_add_left_eq)
  then have "ring_inv (increment_head r)"
    using inv ne at unfolding ring_inv_def by (auto simp: f)
  moreover have "contents (increment_head r) = tl (contents r)"
    using ne by (intro nth_equalityI) (auto simp: f nth_contents nth_tl at)
  ultimately show ?thesis by simp
qed

lemma slot_destroy_other:
  assumes inv: "ring_inv r" and pos: "p < m_capacity r" and live: "slot_read r p \<noteq> None"
    and out: "\<And>n. n < m_contents_size r \<Longrightarrow> (n + m_head r) mod m_capacity r \<noteq> p"
  shows "\<exists>r'. slot_destroy td p r = Some r' \<and> ring_inv r' \<and> m_capacity r' = m_capacity r \<and>
    contents r' = contents r"
proof (cases td)
  case True
  then show ?thesis using inv by (simp add: slot_destroy_def)
next
  case False
  define r' where "r' = r\<lparr>m_array := (m_array r)[p := None]\<rparr>"
  have f: "m_capacity r' = m_capacity r" "m_head r' = m_head r" "m_tail r' = m_tail r"
    "m_contents_size r' = m_contents_size r" "m_array r' = (m_array r)[p := None]"
    by (auto simp: r'_def)
  have at: "at_unchecked r' n = at_unchecked r n" if "n < m_contents_size r" for n
    using inv out [OF that] by (auto simp: ring_defs f)
  have "ring_inv r'" using inv at unfolding ring_inv_def by (auto simp: f)
  moreover have "contents r' = contents r"
    by (rule nth_equalityI) (auto simp: f nth_contents at)
  moreover have "slot_destroy td p r = Some r'"
    using False live by (auto simp: slot_destroy_def r'_def)
  ultimately show ?thesis by (auto simp: f)
qed

lemma push_back_spec:
  assumes inv: "ring_inv r"
  shows "\<exists>r'. push_back x r = Some r' \<and> ring_inv r' \<and> m_capacity r' = m_capacity r \<and>
    contents r' = drop (Suc (m_contents_size r) - m_capacity r) (contents r @ [x])"
proof (cases "m_contents_size r = m_capacity r")
  case True
  let ?r1 = "increment_head r"
  have ne: "0 < m_contents_size r" using inv True by (simp add: ring_inv_def)
  note f = increment_head_fields [OF inv] and w = increment_head_window [OF inv ne]
  have nt: "next_tail ?r1 = m_head r"
    using next_tail_live(1) [OF inv True] by (simp only: next_tail_def f)
  have eq: "increment_head (r\<lparr>m_array := a\<rparr>) = ?r1\<lparr>m_array := a\<rparr>" for a
    by (simp add: increment_head_def Let_def)
  have p: "push_back x r = Some (increment_tail (?r1\<lparr>m_array := (m_array ?r1)[next_tail ?r1 := Some x]\<rparr>))"
    using push_back_full [OF inv True] by (simp add: eq nt f)
  have "m_contents_size ?r1 < m_capacity ?r1" using ne True by (simp add: f)
  from increment_tail_window [OF conjunct1 [OF w] this refl, of x]
  have "contents (increment_tail (?r1\<lparr>m_array := (m_array ?r1)[next_tail ?r1 := Some x]\<rparr>))
      = drop 1 (contents r @ [x])" and "Suc (m_contents_size r) - m_capacity r = 1"
    using w ne True by (auto simp: drop_Suc simp flip: length_greater_0_conv length_contents)
  then show ?thesis
    using p increment_tail_window [OF conjunct1 [OF w] _ refl, of x] ne True by (simp add: f)
next
  case False
  then have room: "m_contents_size r < m_capacity r" using inv by (simp add: ring_inv_def)
  then show ?thesis
    using push_back_room [OF inv room, of x] increment_tail_window [OF inv room refl, of x] by simp
qed

lemma pop_front_spec:
  assumes inv: "ring_inv r"
  shows "\<exists>r'. pop_front td r = Some r' \<and> ring_inv r' \<and> m_capacity r' = m_capacity r \<and>
    contents r' = tl (contents r)"
proof (cases "m_contents_size r = 0")
  case True
  then show ?thesis using inv by (simp add: pop_front_def contents_def)
next
  case False
  let ?r1 = "increment_head r"
  note f = increment_head_fields [OF inv]
  have w: "ring_inv ?r1 \<and> contents ?r1 = tl (contents r)"
    using increment_head_window [OF inv] False by simp
  have c: "0 < m_capacity r" "m_head r < m_capacity r" "m_contents_size r \<le> m_capacity r"
    using inv by (auto simp: ring_inv_def)
  have out: "(n + m_head ?r1) mod m_capacity r \<noteq> m_head r" if "n < m_contents_size r - 1" for n
    using mod_add_inj [of "Suc n" "m_capacity r" 0 "m_head r"] that c
    by (simp add: f mod_add_right_eq)
  have "at_unchecked r 0 \<noteq> None" using inv False by (simp add: ring_inv_def)
  then have live: "slot_read ?r1 (m_head r) \<noteq> None"
    using c by (auto simp: slot_read_def at_unchecked_def index_to_subscript_def normalise_def f
        split: if_splits)
  show ?thesis
    using slot_destroy_other [OF conjunct1 [OF w] _ live, of td] out w c False
    by (simp add: pop_front_def f)
qed

lemma ring_new_capacity [simp]: "m_capacity (ring_new c) = c"
  by (simp add: ring_new_def)

lemma contents_ring_new [simp]: "contents (ring_new c) = []"
  by (simp add: contents_def ring_new_def)

lemma ring_new_inv:
  "1 < capacity \<Longrightarrow> ring_inv (ring_new capacity) \<and> m_capacity (ring_new capacity) = capacity \<and>
    contents (ring_new capacity) = []"
  by (simp add: ring_new_def ring_inv_def contents_def)

lemma destroy_from_live:
  assumes "length (m_array r) = m_capacity r" and "n + k \<le> m_capacity r"
    and "\<forall>i. n \<le> i \<and> i < n + k \<longrightarrow> m_array r ! ((i + m_head r) mod m_capacity r) \<noteq> None"
  shows "\<exists>a. destroy_from td n k r = Some (r\<lparr>m_array := a\<rparr>) \<and> length a = m_capacity r"
  using assms
proof (induction td n k r rule: destroy_from.induct)
  case (1 td n r)
  then show ?case by (auto intro!: exI [of _ "m_array r"])
next
  case (2 td n k r)
  let ?p = "(n + m_head r) mod m_capacity r"
  define r1 where "r1 = (if td then r else r\<lparr>m_array := (m_array r)[?p := None]\<rparr>)"
  have c: "0 < m_capacity r" "?p < m_capacity r" using "2.prems"(2) by auto
  have d: "slot_destroy td (index_to_subscript r n) r = Some r1"
    using "2.prems" c by (auto simp: slot_destroy_def slot_read_def r1_def index_to_subscript_def normalise_def)
  have "m_array r1 ! ((i + m_head r) mod m_capacity r) \<noteq> None" if "Suc n \<le> i \<and> i < Suc n + k" for i
    using that "2.prems" c mod_add_inj [of n "m_capacity r" i "m_head r"]
    by (auto simp: r1_def nth_list_update)
  then show ?case
    using "2.IH" [of r1] "2.prems" c d by (auto simp: r1_def split: if_splits)
qed

lemma ring_clear_spec:
  assumes inv: "ring_inv r"
  shows "\<exists>r'. ring_clear td r = Some r' \<and> ring_inv r' \<and> m_capacity r' = m_capacity r \<and> contents r' = []"
  using destroy_from_live [of r 0 "m_contents_size r" td] inv
  by (auto simp: ring_clear_def ring_inv_def contents_def at_unchecked_mod [OF inv])

lemma pop_front_times_spec:
  assumes "ring_inv r"
  shows "\<exists>r'. pop_front_times td n r = Some r' \<and> ring_inv r' \<and> m_capacity r' = m_capacity r \<and>
    contents r' = drop n (contents r)"
  using assms
proof (induction n arbitrary: r)
  case (Suc n)
  obtain r1 where "pop_front td r = Some r1" "ring_inv r1" "m_capacity r1 = m_capacity r"
    "contents r1 = tl (contents r)"
    using pop_front_spec [OF Suc.prems, of td] by auto
  then show ?case using Suc.IH [of r1] by (simp add: drop_Suc)
qed simp

lemma ring_skip_spec:
  assumes "ring_inv r"
  shows "\<exists>r'. ring_skip td n r = Some r' \<and> ring_inv r' \<and> m_capacity r' = m_capacity r \<and>
    contents r' = drop n (contents r)"
  using ring_clear_spec [OF assms, of td] pop_front_times_spec [OF assms, of td n]
  by (auto simp: ring_skip_def)

text \<open>\<open>keep_last c xs\<close> is what a queue of capacity \<open>c\<close> remembers of the history \<open>xs\<close>.\<close>

definition keep_last :: "nat \<Rightarrow> 'a list \<Rightarrow> 'a list" where
  "keep_last c xs = drop (length xs - c) xs"

lemma keep_last_append: "keep_last c (keep_last c xs @ ys) = keep_last c (xs @ ys)"
proof (cases "length xs \<le> c")
  case False
  then have "length xs + length ys - c = length ys + (length xs - c)" by simp
  with False show ?thesis by (simp add: keep_last_def drop_append)
qed (simp add: keep_last_def)

lemma keep_last_small [simp]: "length xs \<le> c \<Longrightarrow> keep_last c xs = xs"
  by (simp add: keep_last_def)

lemma push_back_keeps:
  "ring_inv r \<Longrightarrow> \<exists>r'. push_back x r = Some r' \<and> ring_inv r' \<and> m_capacity r' = m_capacity r \<and>
    contents r' = keep_last (m_capacity r) (contents r @ [x])"
  using push_back_spec [of r x] by (simp add: keep_last_def)

lemma assign_loop_spec:
  assumes src: "ring_inv src"
  shows "ring_inv r \<Longrightarrow> from \<le> m_contents_size src \<Longrightarrow>
    \<exists>r'. assign_loop src from (m_contents_size src) r = Some r' \<and> ring_inv r' \<and>
      m_capacity r' = m_capacity r \<and>
      contents r' = keep_last (m_capacity r) (contents r @ drop from (contents src))"
proof (induction "m_contents_size src - from" arbitrary: "from" r)
  case 0
  then show ?case
    by (subst assign_loop.simps) (auto simp: ring_inv_def)
next
  case (Suc d)
  then have lt: "from < m_contents_size src" by simp
  then obtain x where x: "at_unchecked src from = Some x" using src by (auto simp: ring_inv_def)
  obtain r1 where r1: "push_back x r = Some r1" "ring_inv r1" "m_capacity r1 = m_capacity r"
    "contents r1 = keep_last (m_capacity r) (contents r @ [x])"
    using push_back_keeps [OF Suc.prems(1), of x] by auto
  have "drop from (contents src) = x # drop (Suc from) (contents src)"
    using lt x by (simp add: Cons_nth_drop_Suc [symmetric] nth_contents)
  then show ?case
    using Suc.hyps(1) [of "Suc from" r1] Suc.hyps(2) lt x r1
    by (subst assign_loop.simps) (simp add: keep_last_append)
qed

lemma assign_into_spec:
  assumes "ring_inv src" "ring_inv r" "from \<le> m_contents_size src"
  shows "\<exists>r'. assign_into td src from (m_contents_size src) r = Some r' \<and> ring_inv r' \<and>
      m_capacity r' = m_capacity r \<and>
      contents r' = keep_last (m_capacity r) (drop from (contents src))"
proof -
  obtain r1 where "(if 0 < m_contents_size r then ring_clear td r else Some r) = Some r1"
    "ring_inv r1" "m_capacity r1 = m_capacity r" "contents r1 = []"
    using ring_clear_spec [OF assms(2), of td] assms(2)
    by (cases "m_contents_size r = 0") (auto simp: contents_def)
  then show ?thesis
    using assign_loop_spec [OF assms(1) _ assms(3), of r1] by (simp add: assign_into_def)
qed

lemma ring_reserve_spec:
  assumes inv: "ring_inv r" and n: "1 < new_size"
  shows "\<exists>r'. ring_reserve td new_size r = Some r' \<and> ring_inv r' \<and> m_capacity r' = new_size \<and>
    contents r' = keep_last new_size (contents r)"
proof (cases "new_size = m_capacity r")
  case True
  then show ?thesis using inv by (simp add: ring_reserve_def ring_inv_def)
next
  case False
  then show ?thesis
    using assign_into_spec [OF inv conjunct1 [OF ring_new_inv [OF n]],
        of "if new_size < m_contents_size r then m_contents_size r - new_size else 0" td]
      ring_new_inv [OF n, where 'a = 'a] ring_clear_spec [OF inv, of td]
    by (auto simp: ring_reserve_def keep_last_def)
qed

text \<open>
  The copy constructor takes over the size of its source before any item exists, and so clears raw
  storage first: harmless for trivial destructors, undefined for the others.
\<close>

lemma destroy_from_trivial: "0 < m_capacity r \<or> k = 0 \<Longrightarrow> destroy_from True n k r = Some r"
  by (induction k arbitrary: n) (auto simp: slot_destroy_def)

lemma ring_copy_trivial:
  fixes other :: "'a ring"
  assumes inv: "ring_inv other"
  shows "\<exists>r'. ring_copy True other = Some r' \<and> ring_inv r' \<and> m_capacity r' = m_capacity other \<and>
    contents r' = contents other"
proof -
  let ?r0 = "\<lparr>m_capacity = m_capacity other, m_array = replicate (m_capacity other) (None :: 'a option),
      m_head = m_head other, m_tail = m_tail other, m_contents_size = m_contents_size other\<rparr>"
  define r1 where "r1 = (if 0 < m_contents_size other
    then ?r0\<lparr>m_head := 1, m_tail := 0, m_contents_size := 0\<rparr> else ?r0)"
  have r1: "(if 0 < m_contents_size other then ring_clear True ?r0 else Some ?r0) = Some r1"
    "ring_inv r1" "m_capacity r1 = m_capacity other" "contents r1 = []"
    using inv destroy_from_trivial [of ?r0 "m_contents_size other" 0]
    by (auto simp: r1_def ring_clear_def ring_inv_def contents_def)
  have "m_contents_size other \<le> m_capacity other" using inv by (simp add: ring_inv_def)
  then show ?thesis
    using assign_loop_spec [OF inv r1(2), of 0] r1 by (simp add: ring_copy_def assign_into_def)
qed

lemma ring_copy_nontrivial:
  assumes inv: "ring_inv other" and ne: "0 < m_contents_size other"
  shows "ring_copy False other = None"
proof -
  obtain k where k: "m_contents_size other = Suc k" using ne by (cases "m_contents_size other") auto
  show ?thesis
    using inv by (simp add: ring_copy_def assign_into_def k ring_clear_def slot_destroy_def slot_read_def)
qed

lemma at_checked_spec:
  assumes "ring_inv r"
  shows "at_checked r n = (if n < length (contents r) then Inr (Some (contents r ! n)) else Inl Out_of_range)"
  using assms by (auto simp: at_checked_def nth_contents ring_inv_def)

lemma ring_front_spec:
  assumes inv: "ring_inv r" and "contents r \<noteq> []"
  shows "ring_front r = Some (hd (contents r))"
proof -
  have "0 < m_contents_size r" using assms(2) by (simp flip: length_contents)
  then have "at_unchecked r 0 = Some (hd (contents r))"
    using inv assms(2) nth_contents [of 0 r] by (auto simp: ring_inv_def hd_conv_nth)
  moreover have "at_unchecked r 0 = ring_front r"
    using inv by (simp add: ring_front_def ring_defs)
  ultimately show ?thesis by simp
qed

lemma tail_position:
  assumes inv: "ring_inv r" and "0 < m_contents_size r"
  shows "m_tail r = (m_contents_size r - 1 + m_head r) mod m_capacity r"
proof -
  let ?a = "(m_contents_size r - 1 + m_head r) mod m_capacity r"
  have "(m_head r + m_contents_size r) mod m_capacity r = (m_tail r + 1) mod m_capacity r"
    "0 < m_capacity r" "m_tail r < m_capacity r"
    using inv by (auto simp: ring_inv_def)
  moreover have "(?a + 1) mod m_capacity r = (m_contents_size r - 1 + m_head r + 1) mod m_capacity r"
    by (rule mod_add_left_eq)
  ultimately show ?thesis
    using mod_add_inj [of ?a "m_capacity r" "m_tail r" 1] assms(2) by (simp add: add.commute)
qed

lemma ring_back_spec:
  assumes inv: "ring_inv r" and "contents r \<noteq> []"
  shows "ring_back r = Some (last (contents r))"
proof -
  have ne: "0 < m_contents_size r" using assms(2) by (simp flip: length_contents)
  have "at_unchecked r (m_contents_size r - 1) = Some (last (contents r))"
    using inv ne assms(2) nth_contents [of "m_contents_size r - 1" r]
    by (auto simp: ring_inv_def last_conv_nth)
  moreover have "at_unchecked r (m_contents_size r - 1) = ring_back r"
    using inv tail_position [OF inv ne] by (auto simp: ring_back_def ring_defs)
  ultimately show ?thesis by simp
qed

lemma decrement_tail_fields [simp]:
  "m_capacity (decrement_tail r) = m_capacity r" "m_array (decrement_tail r) = m_array r"
  "m_head (decrement_tail r) = m_head r" "m_contents_size (decrement_tail r) = m_contents_size r - 1"
  "m_tail (decrement_tail r) = previous_tail r"
  by (auto simp: decrement_tail_def Let_def previous_tail_def)

lemma decrement_tail_window:
  assumes inv: "ring_inv r" and ne: "0 < m_contents_size r"
  shows "ring_inv (decrement_tail r) \<and> contents (decrement_tail r) = butlast (contents r)"
proof -
  have at: "at_unchecked (decrement_tail r) n = at_unchecked r n" for n
    using inv by (simp add: ring_defs)
  have "(m_head r + (m_contents_size r - 1)) mod m_capacity r = m_tail r"
    using tail_position [OF inv ne] by (simp add: add.commute)
  moreover have "(previous_tail r + 1) mod m_capacity r = m_tail r" "previous_tail r < m_capacity r"
    using inv by (auto simp: previous_tail_def ring_inv_def)
  ultimately have "ring_inv (decrement_tail r)"
    using inv at unfolding ring_inv_def by auto
  moreover have "contents (decrement_tail r) = butlast (contents r)"
    by (rule nth_equalityI) (auto simp: nth_contents nth_butlast at)
  ultimately show ?thesis by simp
qed

lemma pop_back_trivial:
  assumes inv: "ring_inv r"
  shows "\<exists>r'. pop_back True r = Some r' \<and> ring_inv r' \<and> m_capacity r' = m_capacity r \<and>
    contents r' = butlast (contents r)"
  using decrement_tail_window [OF inv] inv
  by (cases "m_contents_size r = 0") (auto simp: pop_back_def slot_destroy_def contents_def)

lemma pop_back_times_trivial:
  assumes "ring_inv r"
  shows "\<exists>r'. pop_back_times True n r = Some r' \<and> ring_inv r' \<and> m_capacity r' = m_capacity r \<and>
    contents r' = take (m_contents_size r - n) (contents r)"
  using assms
proof (induction n arbitrary: r)
  case 0
  then show ?case by simp
next
  case (Suc n)
  obtain r1 where r1: "pop_back True r = Some r1" "ring_inv r1" "m_capacity r1 = m_capacity r"
    "contents r1 = butlast (contents r)"
    using pop_back_trivial [OF Suc.prems] by auto
  have "m_contents_size r1 = m_contents_size r - 1" by (metis length_contents length_butlast r1(4))
  moreover have "m_contents_size r - Suc n \<le> m_contents_size r - 1" by simp
  ultimately show ?case using Suc.IH [of r1] r1 by (simp add: butlast_conv_take min_absorb1)
qed

lemma ring_chop_trivial:
  assumes "ring_inv r"
  shows "\<exists>r'. ring_chop True n r = Some r' \<and> ring_inv r' \<and> m_capacity r' = m_capacity r \<and>
    contents r' = take (m_contents_size r - n) (contents r)"
  using ring_clear_spec [OF assms, of True] pop_back_times_trivial [OF assms, of n]
  by (auto simp: ring_chop_def)

lemma push_front_room:
  assumes inv: "ring_inv r" and room: "m_contents_size r < m_capacity r"
  shows "\<exists>r'. push_front x r = Some r' \<and> ring_inv r' \<and> m_capacity r' = m_capacity r \<and>
    contents r' = x # contents r"
proof -
  define r' where "r' = decrement_head (r\<lparr>m_array := (m_array r)[previous_head r := Some x]\<rparr>)"
  have ph: "previous_head r < m_capacity r" "(previous_head r + 1) mod m_capacity r = m_head r"
    using inv by (auto simp: previous_head_def ring_inv_def)
  have f: "m_capacity r' = m_capacity r" "m_head r' = previous_head r" "m_tail r' = m_tail r"
    "m_contents_size r' = Suc (m_contents_size r)" "m_array r' = (m_array r)[previous_head r := Some x]"
    by (auto simp: r'_def decrement_head_def Let_def previous_head_def)
  have shift: "(Suc n + previous_head r) mod m_capacity r = (n + m_head r) mod m_capacity r" for n
    using mod_add_right_eq [of n "previous_head r + 1" "m_capacity r"] ph by simp
  have at0: "at_unchecked r' 0 = Some x"
    using inv ph by (simp add: ring_defs f)
  have at: "at_unchecked r' (Suc n) = at_unchecked r n" if "n < m_contents_size r" for n
    using that inv room ph shift [of n] mod_add_inj [of "Suc n" "m_capacity r" 0 "previous_head r"]
    by (auto simp: ring_defs f nth_list_update)
  have "(Suc (m_contents_size r) + previous_head r) mod m_capacity r = (m_tail r + 1) mod m_capacity r"
    unfolding shift using inv by (simp add: ring_inv_def add.commute)
  then have "ring_inv r'"
    using inv room ph at at0 unfolding ring_inv_def
    by (auto simp: f less_Suc_eq_0_disj add.commute)
  moreover have "contents r' = x # contents r"
    by (rule nth_equalityI) (auto simp: f nth_contents nth_Cons' at0 at less_Suc_eq_0_disj)
  moreover have "push_front x r = Some r'"
    using inv room ph by (auto simp: push_front_def slot_construct_def Let_def r'_def ring_inv_def)
  ultimately show ?thesis by (simp add: f)
qed

section \<open>The contract of an overwriting queue\<close>

text \<open>
  A client pushes and pops in any order. \<open>spec_ops\<close> is the list it may think of, \<open>run_ops\<close> the same
  sequence on an implementation, stopping at the first undefined operation.
\<close>

datatype 'a qop = Push 'a | Pop

fun spec_ops :: "nat \<Rightarrow> 'a qop list \<Rightarrow> 'a list \<Rightarrow> 'a list" where
  "spec_ops c [] xs = xs"
| "spec_ops c (Push x # ops) xs = spec_ops c ops (keep_last c (xs @ [x]))"
| "spec_ops c (Pop # ops) xs = spec_ops c ops (tl xs)"

fun run_ops :: "('a \<Rightarrow> 's \<Rightarrow> 's option) \<Rightarrow> ('s \<Rightarrow> 's option) \<Rightarrow> 'a qop list \<Rightarrow> 's \<Rightarrow> 's option" where
  "run_ops push pop [] s = Some s"
| "run_ops push pop (Push x # ops) s = Option.bind (push x s) (run_ops push pop ops)"
| "run_ops push pop (Pop # ops) s = Option.bind (pop s) (run_ops push pop ops)"

locale overwriting_queue =
  fixes cap :: "'s \<Rightarrow> nat" and inv :: "'s \<Rightarrow> bool" and abs :: "'s \<Rightarrow> 'a list"
    and push :: "'a \<Rightarrow> 's \<Rightarrow> 's option" and pop :: "'s \<Rightarrow> 's option"
  assumes push_law: "inv s \<Longrightarrow>
      \<exists>s'. push x s = Some s' \<and> inv s' \<and> cap s' = cap s \<and> abs s' = keep_last (cap s) (abs s @ [x])"
    and pop_law: "inv s \<Longrightarrow> \<exists>s'. pop s = Some s' \<and> inv s' \<and> cap s' = cap s \<and> abs s' = tl (abs s)"
    and bounded: "inv s \<Longrightarrow> length (abs s) \<le> cap s"
begin

lemma run_refines:
  "inv s \<Longrightarrow> \<exists>s'. run_ops push pop ops s = Some s' \<and> inv s' \<and> cap s' = cap s \<and>
    abs s' = spec_ops (cap s) ops (abs s)"
proof (induction ops arbitrary: s)
  case (Cons oper ops)
  show ?case
  proof (cases oper)
    case (Push x)
    then show ?thesis using push_law [OF Cons.prems, of x] Cons.IH by fastforce
  next
    case Pop
    then show ?thesis using pop_law [OF Cons.prems] Cons.IH by fastforce
  qed
qed simp

lemma push_all_refines:
  "inv s \<Longrightarrow> \<exists>s'. run_ops push pop (map Push xs) s = Some s' \<and> inv s' \<and> cap s' = cap s \<and>
    abs s' = keep_last (cap s) (abs s @ xs)"
proof (induction xs arbitrary: s)
  case Nil
  then show ?case using bounded by simp
next
  case (Cons x xs)
  obtain s1 where "push x s = Some s1" "inv s1" "cap s1 = cap s" "abs s1 = keep_last (cap s) (abs s @ [x])"
    using push_law [OF Cons.prems, of x] by auto
  then show ?case using Cons.IH [of s1] by (simp add: keep_last_append)
qed

end

interpretation rq: overwriting_queue m_capacity ring_inv contents push_back "pop_front td" for td
  by unfold_locales (auto simp: push_back_keeps pop_front_spec, simp add: ring_inv_def)

section \<open>Properties\<close>

text \<open>C1. A buffer of capacity at least two behaves as a queue that forgets its oldest items: any sequence
  of \<open>push_back\<close> and \<open>pop_front\<close> on a new buffer is free of undefined behaviour, keeps the invariant,
  and leaves exactly the items the same sequence leaves in a list that keeps its last \<open>capacity\<close>
  items, whether or not the items have a destructor.\<close>

theorem ring_run_refines:
  assumes "1 < capacity"
  shows "\<exists>r. run_ops push_back (pop_front td) ops (ring_new capacity) = Some r \<and> ring_inv r \<and>
    m_capacity r = capacity \<and> contents r = spec_ops capacity ops []"
  using rq.run_refines [OF conjunct1 [OF ring_new_inv [OF assms]], of td ops] ring_new_inv [OF assms]
  by auto

theorem ring_run_refines_witness:
  "\<exists>r. run_ops push_back (pop_front False) [Push 1, Push 2, Push 3, Pop, Push (4::nat)] (ring_new 2) = Some r \<and>
    contents r = [3, 4]"
  using ring_run_refines [of 2 False "[Push 1, Push 2, Push 3, Pop, Push (4::nat)]"]
  by (auto simp: keep_last_def)

text \<open>\<open>reserve\<close> resizes without loss of order: the buffer gets the new capacity and holds the most
  recent items that fit, and its copy loop ends.\<close>

lemma ring_reserve_keeps:
  assumes "ring_inv r" and "1 < new_size"
  shows "\<exists>r'. ring_reserve td new_size r = Some r' \<and> ring_inv r' \<and> m_capacity r' = new_size \<and>
    contents r' = keep_last new_size (contents r)"
  using assms by (rule ring_reserve_spec)

definition ring_123 :: "nat ring" where
  "ring_123 = \<lparr>m_capacity = 3, m_array = [Some 3, Some 1, Some 2], m_head = 1, m_tail = 0, m_contents_size = 3\<rparr>"

lemma ring_123_at: "at_unchecked ring_123 0 = Some 1" "at_unchecked ring_123 1 = Some 2"
  "at_unchecked ring_123 2 = Some 3"
  by (simp_all add: ring_123_def at_unchecked_def slot_read_def index_to_subscript_def normalise_def)

lemma ring_123_inv: "ring_inv ring_123"
proof -
  have "at_unchecked ring_123 n \<noteq> None" if "n < 3" for n
  proof -
    from that have "n = 0 \<or> n = 1 \<or> n = 2" by linarith
    then show ?thesis using ring_123_at by auto
  qed
  then show ?thesis by (simp add: ring_inv_def, simp add: ring_123_def)
qed

lemma ring_123_contents: "contents ring_123 = [1, 2, 3]"
proof -
  have "[0..<m_contents_size ring_123] = [0, 1, 2]" by (simp add: ring_123_def upt_rec)
  then show ?thesis using ring_123_at by (simp add: contents_def)
qed

lemma ring_reserve_keeps_witness:
  "\<exists>r'. ring_reserve False 2 ring_123 = Some r' \<and> contents r' = [2, 3]"
  using ring_reserve_keeps [OF ring_123_inv, of 2 False] by (auto simp: ring_123_contents keep_last_def)

text \<open>The observers agree with the list view: \<open>at\<close> raises \<open>std::out_of_range\<close> exactly outside the
  list and returns its element inside, \<open>front\<close> and \<open>back\<close> are its first and last item.\<close>

lemma ring_observers:
  assumes "ring_inv r"
  shows "at_checked r n = (if n < length (contents r) then Inr (Some (contents r ! n)) else Inl Out_of_range) \<and>
    ring_empty r = (contents r = []) \<and>
    (contents r \<noteq> [] \<longrightarrow> ring_front r = Some (hd (contents r)) \<and> ring_back r = Some (last (contents r)))"
  using at_checked_spec [OF assms] ring_front_spec [OF assms] ring_back_spec [OF assms]
  by (simp_all add: ring_empty_def contents_def)

lemma ring_observers_witness:
  "at_checked ring_123 2 = Inr (Some 3) \<and> ring_front ring_123 = Some 1 \<and> ring_back ring_123 = Some 3"
  using ring_observers [OF ring_123_inv, of 2] by (simp add: ring_123_contents)

text \<open>On items with a destructor \<open>pop_back\<close> destroys the wrong object: it shrinks the buffer and
  then destroys the item that has become the last one, so that \<open>back\<close> reads a destroyed object.\<close>

lemma pop_back_destroys_new_last:
  assumes inv: "ring_inv r" and two: "2 \<le> m_contents_size r"
  shows "\<exists>r'. pop_back False r = Some r' \<and> m_contents_size r' = m_contents_size r - 1 \<and> ring_back r' = None"
proof -
  have d: "ring_inv (decrement_tail r)" "contents (decrement_tail r) \<noteq> []"
    using decrement_tail_window [OF inv] two by (auto simp flip: length_greater_0_conv)
  from ring_back_spec [OF this] have "slot_read (decrement_tail r) (previous_tail r) \<noteq> None"
    by (simp add: ring_back_def)
  then show ?thesis
    using two by (auto simp: pop_back_def slot_destroy_def ring_back_def slot_read_def split: if_splits)
qed

lemma pop_back_destroys_new_last_witness:
  "\<exists>r'. pop_back False ring_123 = Some r' \<and> ring_back r' = None"
  using pop_back_destroys_new_last [OF ring_123_inv] by (auto simp: ring_123_def)

text \<open>Copying a buffer of trivially destructible items gives an equal buffer; copying a non-empty
  buffer of items with a destructor destroys objects that were never constructed.\<close>

lemma ring_copy_equal_or_undefined:
  assumes "ring_inv r"
  shows "(\<exists>r'. ring_copy True r = Some r' \<and> ring_inv r' \<and> m_capacity r' = m_capacity r \<and> contents r' = contents r) \<and>
    (ring_copy False r = None \<or> contents r = [])"
  using ring_copy_trivial [OF assms] ring_copy_nontrivial [OF assms]
  by (auto simp: contents_def)

lemma ring_copy_equal_or_undefined_witness:
  "(\<exists>r'. ring_copy True ring_123 = Some r' \<and> contents r' = [1, 2, 3]) \<and> ring_copy False ring_123 = None"
  using ring_copy_equal_or_undefined [OF ring_123_inv] by (auto simp: ring_123_contents)

text \<open>\<open>push_front\<close> prepends while there is room, but on a full buffer it moves the head without the
  tail: the size then exceeds the capacity.\<close>

lemma push_front_prepends_or_overflows:
  assumes inv: "ring_inv r"
  shows "if m_contents_size r < m_capacity r
    then \<exists>r'. push_front x r = Some r' \<and> ring_inv r' \<and> contents r' = x # contents r
    else \<exists>r'. push_front x r = Some r' \<and> m_contents_size r' = m_capacity r' + 1 \<and> m_tail r' = m_tail r"
proof (cases "m_contents_size r < m_capacity r")
  case True
  then show ?thesis using push_front_room [OF inv] by auto
next
  case False
  then have full: "m_contents_size r = m_capacity r" using inv by (simp add: ring_inv_def)
  have c: "1 < m_capacity r" "m_head r < m_capacity r" using inv by (auto simp: ring_inv_def)
  have "m_tail r = (m_capacity r - 1 + m_head r) mod m_capacity r"
    using tail_position [OF inv] full c by simp
  moreover have "(m_capacity r - 1 + m_head r) mod m_capacity r = previous_head r"
  proof (cases "m_head r")
    case 0
    then show ?thesis using c by (simp add: previous_head_def)
  next
    case (Suc h)
    then have "m_capacity r - 1 + m_head r = h + m_capacity r" using c by simp
    then show ?thesis using Suc c by (simp add: previous_head_def)
  qed
  ultimately have "previous_head r = m_tail r" by simp
  moreover have "contents r \<noteq> []"
    using full c length_contents [of r] by (metis less_zeroE list.size(3))
  ultimately have "slot_read r (previous_head r) \<noteq> None"
    using ring_back_spec [OF inv] by (simp add: ring_back_def)
  then show ?thesis
    using full by (auto simp: push_front_def slot_assign_def decrement_head_def Let_def)
qed

lemma push_front_prepends_or_overflows_witness:
  "\<exists>r'. push_front 0 ring_123 = Some r' \<and> m_contents_size r' = m_capacity r' + 1"
  using push_front_prepends_or_overflows [OF ring_123_inv, of 0] by (auto simp: ring_123_def)

end
