(* ===== verification/Strl.thy ===== *)
theory Strl
  imports Prelude
begin

text \<open>
  The replacements \<open>strlcpy\<close> and \<open>strlcat\<close> of \<open>src/arduino/compat/strlcat_strlcpy.c\<close>, on memory blocks
  given as byte lists. A call whose reads or writes leave a block is undefined and has the value
  \<open>None\<close>. The parameter \<open>size\<close> is a 64-bit \<open>size_t\<close>: its decrement wraps around.
\<close>

section \<open>C strings in memory blocks\<close>

fun strlen :: "u8 list \<Rightarrow> nat option" where
  "strlen [] = None"
| "strlen (c # cs) = (if c = 0 then Some 0 else map_option Suc (strlen cs))"

definition cstring :: "u8 list \<Rightarrow> u8 list" where
  "cstring mem = takeWhile (\<lambda>c. c \<noteq> 0) mem"

definition size_sub :: "nat \<Rightarrow> nat \<Rightarrow> nat" where
  "size_sub a b = nat ((int a - int b) mod 2 ^ 64)"

definition strlcpy :: "u8 list \<Rightarrow> u8 list \<Rightarrow> nat \<Rightarrow> (nat \<times> u8 list) option" where
  "strlcpy dst src sz = (
     let sz = size_sub sz 1 in
     Option.bind (strlen src) (\<lambda>srclen.
       let srclen = (if sz < srclen then sz else srclen) in
       if srclen + 1 \<le> length dst
       then Some (srclen, (memcpy 0 (take srclen src) dst)[srclen := 0]) else None))"

definition strlcat :: "u8 list \<Rightarrow> u8 list \<Rightarrow> nat \<Rightarrow> (nat \<times> u8 list) option" where
  "strlcat dst src sz = Option.bind (strlen dst) (\<lambda>dstlen.
     let sz = size_sub sz (dstlen + 1) in
     if sz = 0 then Some (dstlen, dst)
     else Option.bind (strlen src) (\<lambda>srclen.
       let srclen = (if sz < srclen then sz else srclen) in
       if dstlen + srclen + 1 \<le> length dst
       then Some (dstlen + srclen, (memcpy dstlen (take srclen src) dst)[dstlen + srclen := 0]) else None))"

section \<open>Properties of the copies\<close>

lemma strlen_cstring: "strlen mem = Some n \<Longrightarrow> cstring mem = take n mem \<and> length (cstring mem) = n \<and> n < length mem"
  by (induction mem arbitrary: n) (auto simp: cstring_def split: if_splits)

lemma cstring_terminated:
  assumes "n < length mem" and "0 \<notin> set (take n mem)"
  shows "cstring (mem[n := 0]) = take n mem"
  using assms
proof (induction mem arbitrary: n)
  case (Cons c cs)
  then show ?case by (cases n) (auto simp: cstring_def)
qed simp

lemma cstring_no_zero: "0 \<notin> set (cstring mem)"
  by (auto simp: cstring_def dest: set_takeWhileD)

lemma size_sub_le: "b \<le> a \<Longrightarrow> a < 2 ^ 64 \<Longrightarrow> size_sub a b = a - b"
  unfolding size_sub_def by (subst mod_pos_pos_trivial) simp_all

text \<open>C40. \<open>strlcpy\<close> with a size between one and that of the block never leaves the block, terminates the
  copy, truncates it to \<open>size - 1\<close> characters and returns the length of the copy.\<close>

theorem strlcpy_truncates:
  assumes size: "0 < sz" "sz \<le> length dst" "sz < 2 ^ 64" and src: "strlen src = Some l"
  shows "\<exists>dst'. strlcpy dst src sz = Some (min l (sz - 1), dst') \<and> length dst' = length dst \<and>
    cstring dst' = take (sz - 1) (cstring src)"
proof -
  let ?n = "min l (sz - 1)"
  let ?m = "memcpy 0 (take ?n src) dst"
  have l: "cstring src = take l src" "l < length src" using strlen_cstring [OF src] by auto
  have n: "?n + 1 \<le> length dst" using size by linarith
  have len: "length ?m = length dst" using n l(2) by simp
  have t: "take ?n ?m = take ?n src" using l(2) by (simp add: memcpy_def)
  have "take ?n src = take (sz - 1) (cstring src)" by (simp add: l(1) min.commute)
  moreover have "0 \<notin> set (take (sz - 1) (cstring src))"
    using cstring_no_zero [of src] by (auto dest: in_set_takeD)
  ultimately have "cstring (?m[?n := 0]) = take (sz - 1) (cstring src)"
    using cstring_terminated [of ?n ?m] n len t by simp
  moreover have "strlcpy dst src sz = Some (?n, ?m[?n := 0])"
    using size n by (auto simp: strlcpy_def src size_sub_le min_def Let_def)
  ultimately show ?thesis using len by simp
qed

theorem strlcpy_truncates_witness:
  "\<exists>dst'. strlcpy [9, 9, 9, 9] [65, 66, 67, 68, 0] 3 = Some (2, dst') \<and> cstring dst' = [65, 66 :: u8]"
  using strlcpy_truncates [of 3 "[9, 9, 9, 9]" "[65, 66, 67, 68, 0]" 4] by (auto simp: cstring_def)

text \<open>\<open>strlcat\<close> with a size above the length of the destination string and at most that of the block
  never leaves the block, appends what fits and keeps the result terminated.\<close>

lemma strlcat_appends:
  assumes dst: "strlen dst = Some k" and src: "strlen src = Some l"
    and size: "k < sz" "sz \<le> length dst" "sz < 2 ^ 64"
  shows "\<exists>dst'. strlcat dst src sz = Some (k + min l (sz - (k + 1)), dst') \<and> length dst' = length dst \<and>
    cstring dst' = cstring dst @ take (sz - (k + 1)) (cstring src)"
proof -
  let ?s = "sz - (k + 1)"
  let ?n = "min l ?s"
  let ?m = "memcpy k (take ?n src) dst"
  have l: "cstring src = take l src" "l < length src" using strlen_cstring [OF src] by auto
  have k: "cstring dst = take k dst" "k < length dst" using strlen_cstring [OF dst] by auto
  have n: "k + ?n + 1 \<le> length dst" "k + ?n < length dst" using size by linarith+
  have len: "length ?m = length dst" using n l(2) by simp
  have t: "take (k + ?n) ?m = take k dst @ take ?n src" using l(2) k(2) by (simp add: memcpy_def)
  have e: "take ?n src = take ?s (cstring src)" by (simp add: l(1) min.commute)
  have "0 \<notin> set (take k dst @ take ?n src)"
    using cstring_no_zero [of src] cstring_no_zero [of dst] unfolding e k(1) [symmetric]
    by (auto dest: in_set_takeD)
  then have c: "cstring (?m[k + ?n := 0]) = cstring dst @ take ?s (cstring src)"
    using cstring_terminated [of "k + ?n" ?m] n len t e k(1) by simp
  show ?thesis
  proof (cases "?s = 0")
    case True
    then show ?thesis using size by (simp add: strlcat_def dst size_sub_le)
  next
    case False
    then have "strlcat dst src sz = Some (k + ?n, ?m[k + ?n := 0])"
      using size n by (auto simp: strlcat_def dst src size_sub_le min_def Let_def)
    then show ?thesis using len c by simp
  qed
qed

lemma strlcat_appends_witness:
  "\<exists>dst'. strlcat [65, 0, 9, 9, 9] [66, 67, 68, 0] 4 = Some (3, dst') \<and> cstring dst' = [65, 66, 67 :: u8]"
  using strlcat_appends [of "[65, 0, 9, 9, 9]" 1 "[66, 67, 68, 0]" 3 4] by (auto simp: cstring_def)

text \<open>With a size of zero the decrement of \<open>strlcpy\<close> wraps and no bound is left: a source that does
  not fit is copied past the end of the destination.\<close>

lemma strlcpy_zero_size_unbounded:
  assumes "strlen src = Some l" and "l < 2 ^ 64"
  shows "strlcpy dst src 0 = None \<longleftrightarrow> length dst \<le> l"
proof -
  have "size_sub 0 1 = 2 ^ 64 - 1" by (simp add: size_sub_def)
  then show ?thesis using assms by (simp add: strlcpy_def Let_def)
qed

lemma strlcpy_zero_size_unbounded_witness:
  "strlcpy [9, 9] [65, 66, 67, 0 :: u8] 0 = None"
  using strlcpy_zero_size_unbounded [of "[65, 66, 67, 0]" 3 "[9, 9]"] by simp

end
