(* ===== verification/IoDevice.thy ===== *)
theory IoDevice
  imports Prelude
begin

text \<open>
  The base class of every device, \<open>Piduino::IoDevice\<close> and its private part
  (\<open>include/piduino/iodevice.h\<close>, \<open>src/iodevice_p.h\<close>, \<open>src/iodevice.cpp\<close>). The record is extensible:
  a derived class extends it by its own members and inherits these operations.

  The open mode is the flag word of \<open>std::ios_base\<close> with the values of libstdc++, the POSIX flags
  are those of Linux. \<open>strerror\<close> and the value of \<open>errno\<close> are parameters.
\<close>

section \<open>Flags\<close>

abbreviation (input) Append :: u32 where "Append \<equiv> 1"
abbreviation (input) AtEnd :: u32 where "AtEnd \<equiv> 2"
abbreviation (input) Binary :: u32 where "Binary \<equiv> 4"
abbreviation (input) ReadOnly :: u32 where "ReadOnly \<equiv> 8"
abbreviation (input) WriteOnly :: u32 where "WriteOnly \<equiv> 16"
abbreviation (input) ReadWrite :: u32 where "ReadWrite \<equiv> ReadOnly OR WriteOnly"
abbreviation (input) Truncate :: u32 where "Truncate \<equiv> 32"
abbreviation (input) Unbuffered :: u32 where "Unbuffered \<equiv> push_bit 1 Truncate"
abbreviation (input) NotOpen :: u32 where "NotOpen \<equiv> 0"

definition O_WRONLY :: u32 where "O_WRONLY = 1"
definition O_RDWR :: u32 where "O_RDWR = 2"
definition O_RDONLY :: u32 where "O_RDONLY = 0"
definition O_APPEND :: u32 where "O_APPEND = 0x400"
definition O_TRUNC :: u32 where "O_TRUNC = 0x200"

lemmas posix_flags = O_WRONLY_def O_RDWR_def O_RDONLY_def O_APPEND_def O_TRUNC_def

text \<open>The error code of Linux for a missing device.\<close>

definition ENODEV :: int where "ENODEV = 19"

section \<open>The device\<close>

record iodevice =
  openMode :: u32
  isSequential :: bool
  io_error :: int
  errorString :: string
  isDebug :: bool

definition iodevice_new :: iodevice where
  "iodevice_new = \<lparr>openMode = NotOpen, isSequential = False, io_error = 0, errorString = [], isDebug = False\<rparr>"

definition IoDevice_Private_isOpen :: "'a iodevice_scheme \<Rightarrow> bool" where
  "IoDevice_Private_isOpen d \<longleftrightarrow> openMode d \<noteq> NotOpen"

definition IoDevice_isOpen :: "'a iodevice_scheme \<Rightarrow> bool" where
  "IoDevice_isOpen d = IoDevice_Private_isOpen d"

definition IoDevice_clearError :: "'a iodevice_scheme \<Rightarrow> 'a iodevice_scheme" where
  "IoDevice_clearError d = d\<lparr>io_error := 0, errorString := []\<rparr>"

text \<open>
  In the first two overloads the parameter \<open>error\<close> hides the member of the same name: the
  assignment \<open>error = error\<close> changes nothing, only the message is stored.
\<close>

definition IoDevice_setError_code :: "(int \<Rightarrow> string) \<Rightarrow> int \<Rightarrow> 'a iodevice_scheme \<Rightarrow> 'a iodevice_scheme" where
  "IoDevice_setError_code strerror error d = d\<lparr>errorString := strerror error\<rparr>"

definition IoDevice_setError_message :: "int \<Rightarrow> string \<Rightarrow> 'a iodevice_scheme \<Rightarrow> 'a iodevice_scheme" where
  "IoDevice_setError_message error str d = d\<lparr>errorString := str\<rparr>"

definition IoDevice_setError :: "(int \<Rightarrow> string) \<Rightarrow> int \<Rightarrow> 'a iodevice_scheme \<Rightarrow> 'a iodevice_scheme" where
  "IoDevice_setError strerror errno d = (if errno \<noteq> 0
     then d\<lparr>io_error := errno, errorString := strerror errno\<rparr> else d)"

definition IoDevice_Private_open :: "u32 \<Rightarrow> 'a iodevice_scheme \<Rightarrow> bool \<times> 'a iodevice_scheme" where
  "IoDevice_Private_open m d = (True, IoDevice_clearError (d\<lparr>openMode := m\<rparr>))"

definition IoDevice_Private_close :: "'a iodevice_scheme \<Rightarrow> 'a iodevice_scheme" where
  "IoDevice_Private_close d = d\<lparr>openMode := NotOpen\<rparr>"

definition IoDevice_open :: "u32 \<Rightarrow> 'a iodevice_scheme \<Rightarrow> bool \<times> 'a iodevice_scheme" where
  "IoDevice_open m d = (True, if \<not> IoDevice_isOpen d then snd (IoDevice_Private_open m d) else d)"

definition IoDevice_close :: "'a iodevice_scheme \<Rightarrow> 'a iodevice_scheme" where
  "IoDevice_close d = (if IoDevice_isOpen d then IoDevice_Private_close d else d)"

definition IoDevice_isReadable :: "'a iodevice_scheme \<Rightarrow> bool" where
  "IoDevice_isReadable d \<longleftrightarrow> openMode d AND ReadOnly \<noteq> 0"

definition IoDevice_isBuffered :: "'a iodevice_scheme \<Rightarrow> bool" where
  "IoDevice_isBuffered d \<longleftrightarrow> \<not> openMode d AND Unbuffered \<noteq> 0"

definition IoDevice_isWritable :: "'a iodevice_scheme \<Rightarrow> bool" where
  "IoDevice_isWritable d \<longleftrightarrow> openMode d AND WriteOnly \<noteq> 0"

definition IoDevice_setTextModeEnabled :: "bool \<Rightarrow> 'a iodevice_scheme \<Rightarrow> 'a iodevice_scheme" where
  "IoDevice_setTextModeEnabled enabled d = (if enabled
     then d\<lparr>openMode := openMode d AND NOT Binary\<rparr> else d\<lparr>openMode := openMode d OR Binary\<rparr>)"

definition IoDevice_isTextModeEnabled :: "'a iodevice_scheme \<Rightarrow> bool" where
  "IoDevice_isTextModeEnabled d \<longleftrightarrow> \<not> openMode d AND Binary \<noteq> 0"

definition IoDevice_setDebug :: "bool \<Rightarrow> 'a iodevice_scheme \<Rightarrow> 'a iodevice_scheme" where
  "IoDevice_setDebug enabled d = d\<lparr>isDebug := enabled\<rparr>"

definition modeToPosixFlags :: "u32 \<Rightarrow> u32" where
  "modeToPosixFlags mode = (
     let flags = (if mode AND ReadWrite = WriteOnly then O_WRONLY
       else if mode AND ReadWrite = ReadWrite then O_RDWR else O_RDONLY);
       flags = (if mode AND Append \<noteq> 0 then flags OR O_APPEND else flags)
     in if mode AND Truncate \<noteq> 0 then flags OR O_TRUNC else flags)"

section \<open>Properties\<close>

text \<open>Facts on the inherited members that the derived classes use.\<close>

lemma IoDevice_isOpen_simp [simp]: "IoDevice_isOpen d \<longleftrightarrow> openMode d \<noteq> NotOpen"
  by (simp add: IoDevice_isOpen_def IoDevice_Private_isOpen_def)

lemma IoDevice_clearError_simps [simp]:
  "openMode (IoDevice_clearError d) = openMode d" "io_error (IoDevice_clearError d) = 0"
  "iodevice.more (IoDevice_clearError d) = iodevice.more d"
  by (simp_all add: IoDevice_clearError_def)

lemma IoDevice_setError_simps [simp]:
  "openMode (IoDevice_setError se e d) = openMode d"
  "iodevice.more (IoDevice_setError se e d) = iodevice.more d"
  "io_error (IoDevice_setError se e d) = (if e = 0 then io_error d else e)"
  by (simp_all add: IoDevice_setError_def)

lemma IoDevice_setError_code_simps [simp]:
  "openMode (IoDevice_setError_code se e d) = openMode d"
  "iodevice.more (IoDevice_setError_code se e d) = iodevice.more d"
  "io_error (IoDevice_setError_code se e d) = io_error d"
  by (simp_all add: IoDevice_setError_code_def)

text \<open>Opening a closed device with a mode other than \<open>NotOpen\<close> makes it open in that mode with a clear
  error, opening an open device changes nothing, and closing makes it closed in every case; the
  members of a derived class are left alone.\<close>

lemma iodevice_open_close:
  "(let d' = snd (IoDevice_open m d) in
      if IoDevice_isOpen d then d' = d
      else openMode d' = m \<and> io_error d' = 0 \<and> errorString d' = [] \<and> iodevice.more d' = iodevice.more d) \<and>
   \<not> IoDevice_isOpen (IoDevice_close d) \<and> iodevice.more (IoDevice_close d) = iodevice.more d"
  by (simp add: IoDevice_open_def IoDevice_close_def IoDevice_Private_open_def IoDevice_Private_close_def
      IoDevice_clearError_def Let_def)

text \<open>The POSIX flags of an open mode: the access mode (the two low bits) is that of the read and write
  bits, with neither of them read-only, and \<open>O_APPEND\<close> and \<open>O_TRUNC\<close> are set exactly when asked for.\<close>

lemma modeToPosixFlags_access:
  "modeToPosixFlags m AND 3 = (if m AND WriteOnly = 0 then O_RDONLY
      else if m AND ReadOnly = 0 then O_WRONLY else O_RDWR) \<and>
   (modeToPosixFlags m AND O_APPEND \<noteq> 0 \<longleftrightarrow> m AND Append \<noteq> 0) \<and>
   (modeToPosixFlags m AND O_TRUNC \<noteq> 0 \<longleftrightarrow> m AND Truncate \<noteq> 0)"
proof -
  have rw: "m AND ReadWrite = (m AND ReadOnly) OR (m AND WriteOnly)"
    by (simp only: bit.conj_disj_distrib)
  have single: "m AND ReadOnly = 0 \<or> m AND ReadOnly = ReadOnly" "m AND WriteOnly = 0 \<or> m AND WriteOnly = WriteOnly"
    using and_single_bit [of m 3] and_single_bit [of m 4] by (auto split: if_splits)
  have base: "(if m AND ReadWrite = WriteOnly then O_WRONLY
       else if m AND ReadWrite = ReadWrite then O_RDWR else O_RDONLY)
     = (if m AND WriteOnly = 0 then O_RDONLY else if m AND ReadOnly = 0 then O_WRONLY else O_RDWR)"
    using single unfolding rw by (elim disjE) (simp_all)
  show ?thesis
    unfolding modeToPosixFlags_def base Let_def
    by (cases "m AND WriteOnly = 0"; cases "m AND ReadOnly = 0"; cases "m AND Append = 0"; cases "m AND Truncate = 0")
      (simp_all add: posix_flags)
qed

text \<open>The overloads of \<open>setError\<close> that take a code store the message but never the code: the device
  goes on reporting its previous error code.\<close>

lemma setError_code_is_lost:
  "io_error (IoDevice_setError_code strerror e d) = io_error d \<and>
   io_error (IoDevice_setError_message e str d) = io_error d \<and>
   errorString (IoDevice_setError_code strerror e d) = strerror e"
  by (simp add: IoDevice_setError_code_def IoDevice_setError_message_def)

end
