(* ===== verification/Fifo.thy ===== *)
theory Fifo
  imports Prelude
begin

text \<open>
  The byte FIFO \<open>Piduino::Fifo\<close> of \<open>include/piduino/fifo.h\<close>, the transmit and receive buffer of the
  I2C bus. The pointers \<open>_in\<close> and \<open>_out\<close> are offsets from \<open>_data\<close>; the 16-bit results of \<open>length\<close>
  and \<open>free\<close> are reduced modulo \<open>2 ^ 16\<close> and the remainder is the truncating one of C. An operation
  with undefined behaviour (a division by a zero size, a copy that leaves the array) is \<open>None\<close>.

  The pointers are never wrapped: the object is a linear buffer that is filled, drained and
  cleared. The locale \<open>byte_fifo\<close> is the contract its clients use; \<open>fifo\<close> interprets it as long as
  the write pointer stays inside the array.
\<close>

section \<open>The buffer\<close>

record fifo =
  f_data :: "u8 list"
  f_size :: nat
  f_in :: nat
  f_out :: nat

definition fifo_new :: "u8 list \<Rightarrow> fifo" where
  "fifo_new mem = \<lparr>f_data = mem, f_size = length mem, f_in = 0, f_out = 0\<rparr>"

definition fifo_clear :: "fifo \<Rightarrow> fifo" where
  "fifo_clear f = f\<lparr>f_in := 0, f_out := 0\<rparr>"

definition fifo_length :: "fifo \<Rightarrow> nat" where
  "fifo_length f = nat (((int (f_in f) - int (f_out f)) smod int (f_size f)) mod 65536)"

definition fifo_free :: "fifo \<Rightarrow> nat" where
  "fifo_free f = nat ((int (f_size f) - int (fifo_length f)) mod 65536)"

definition fifo_pull :: "nat \<Rightarrow> fifo \<Rightarrow> (u8 list \<times> fifo) option" where
  "fifo_pull max_len f = (if f_size f = 0 then None else
     let n = min max_len (fifo_length f) in
     if f_out f + n \<le> length (f_data f)
     then Some (take n (drop (f_out f) (f_data f)), f\<lparr>f_out := f_out f + n\<rparr>) else None)"

definition fifo_pull1 :: "fifo \<Rightarrow> (int \<times> fifo) option" where
  "fifo_pull1 f = (if f_size f = 0 then None
     else if fifo_length f \<noteq> 0
     then (if f_out f < length (f_data f)
       then Some (uint (f_data f ! f_out f), f\<lparr>f_out := f_out f + 1\<rparr>) else None)
     else Some (- 1, f))"

definition fifo_push :: "u8 list \<Rightarrow> fifo \<Rightarrow> (nat \<times> fifo) option" where
  "fifo_push buf f = (if f_size f = 0 then None else
     let n = min (length buf) (fifo_free f) in
     if f_in f + n \<le> length (f_data f)
     then Some (n, f\<lparr>f_data := memcpy (f_in f) (take n buf) (f_data f), f_in := f_in f + n\<rparr>) else None)"

definition fifo_push1 :: "u8 \<Rightarrow> fifo \<Rightarrow> (int \<times> fifo) option" where
  "fifo_push1 b f = (if f_size f = 0 then None
     else if fifo_free f \<noteq> 0
     then (if f_in f < length (f_data f)
       then Some (0, f\<lparr>f_data := (f_data f)[f_in f := b], f_in := f_in f + 1\<rparr>) else None)
     else Some (- 1, f))"

definition fifo_seek :: "nat \<Rightarrow> fifo \<Rightarrow> fifo option" where
  "fifo_seek len f = (
     let n = min len (nat ((int (f_size f) - int (f_out f) mod 65536) mod 65536)) in
     if f_in f + n \<le> length (f_data f) then Some (f\<lparr>f_in := f_in f + n\<rparr>) else None)"

section \<open>The list view\<close>

definition fifo_bytes :: "fifo \<Rightarrow> u8 list" where
  "fifo_bytes f = take (f_in f - f_out f) (drop (f_out f) (f_data f))"

definition fifo_room :: "fifo \<Rightarrow> nat" where
  "fifo_room f = f_size f - 1 - f_in f"

definition fifo_inv :: "fifo \<Rightarrow> bool" where
  "fifo_inv f \<longleftrightarrow> f_size f < 65536 \<and> length (f_data f) = f_size f \<and> f_out f \<le> f_in f \<and> f_in f < f_size f"

lemma fifo_length_inv [simp]:
  assumes "fifo_inv f"
  shows "fifo_length f = f_in f - f_out f"
proof -
  have "(int (f_in f) - int (f_out f)) smod int (f_size f) = int (f_in f - f_out f)"
    using assms by (subst smod_nonneg) (auto simp: fifo_inv_def)
  then show ?thesis using assms by (simp add: fifo_length_def fifo_inv_def)
qed

lemma fifo_free_inv [simp]:
  assumes "fifo_inv f"
  shows "fifo_free f = f_size f - (f_in f - f_out f)"
proof -
  have "f_in f - f_out f \<le> f_size f" "f_size f < 65536" using assms by (auto simp: fifo_inv_def)
  then show ?thesis
    unfolding fifo_free_def fifo_length_inv [OF assms] by (subst mod_pos_pos_trivial) linarith+
qed

lemma fifo_new_inv: "0 < length mem \<Longrightarrow> length mem < 65536 \<Longrightarrow>
    fifo_inv (fifo_new mem) \<and> fifo_bytes (fifo_new mem) = [] \<and> fifo_room (fifo_new mem) = length mem - 1"
  by (simp add: fifo_new_def fifo_inv_def fifo_bytes_def fifo_room_def)

lemma fifo_clear_inv: "fifo_inv f \<Longrightarrow>
    fifo_inv (fifo_clear f) \<and> fifo_bytes (fifo_clear f) = [] \<and> fifo_room (fifo_clear f) = f_size f - 1 \<and>
    f_size (fifo_clear f) = f_size f"
  by (auto simp: fifo_clear_def fifo_inv_def fifo_bytes_def fifo_room_def)

lemma fifo_push_spec:
  assumes inv: "fifo_inv f" and room: "length xs \<le> fifo_room f"
  shows "\<exists>f'. fifo_push xs f = Some (length xs, f') \<and> fifo_inv f' \<and> fifo_bytes f' = fifo_bytes f @ xs \<and>
    fifo_room f' = fifo_room f - length xs \<and> f_size f' = f_size f"
proof -
  have fit: "f_in f + length xs < f_size f" "length xs \<le> fifo_free f" "f_size f \<noteq> 0"
    using inv room by (auto simp: fifo_inv_def fifo_room_def)
  let ?f' = "f\<lparr>f_data := memcpy (f_in f) xs (f_data f), f_in := f_in f + length xs\<rparr>"
  have "fifo_push xs f = Some (length xs, ?f')"
    using inv fit by (simp add: fifo_push_def min_absorb1 fifo_inv_def Let_def)
  moreover have "fifo_inv ?f'" "fifo_bytes ?f' = fifo_bytes f @ xs"
    using inv fit memcpy_append_window [of "f_out f" "f_in f" xs "f_data f"]
    by (auto simp: fifo_inv_def fifo_bytes_def)
  moreover have "fifo_room ?f' = fifo_room f - length xs" by (simp add: fifo_room_def)
  ultimately show ?thesis by auto
qed

lemma fifo_push1_push:
  assumes "fifo_inv f" and "0 < fifo_room f"
  shows "fifo_push1 b f = map_option (\<lambda>(n, f'). (0, f')) (fifo_push [b] f)"
  using assms by (auto simp: fifo_push1_def fifo_push_def fifo_inv_def fifo_room_def memcpy_one Let_def min_def)

lemma fifo_pull_spec:
  assumes inv: "fifo_inv f"
  shows "\<exists>f'. fifo_pull n f = Some (take n (fifo_bytes f), f') \<and> fifo_inv f' \<and>
    fifo_bytes f' = drop n (fifo_bytes f) \<and> fifo_room f' = fifo_room f \<and> f_size f' = f_size f"
proof -
  let ?k = "min n (f_in f - f_out f)"
  let ?f' = "f\<lparr>f_out := f_out f + ?k\<rparr>"
  have "fifo_pull n f = Some (take n (fifo_bytes f), ?f')"
    using inv by (auto simp: fifo_pull_def fifo_bytes_def fifo_inv_def Let_def)
  moreover have "fifo_inv ?f'" "fifo_bytes ?f' = drop n (fifo_bytes f)"
    using inv by (auto simp: fifo_inv_def fifo_bytes_def min_def drop_take add.commute)
  ultimately show ?thesis by (auto simp: fifo_room_def)
qed

lemma fifo_pull1_spec:
  assumes inv: "fifo_inv f"
  shows "case fifo_bytes f of [] \<Rightarrow> fifo_pull1 f = Some (- 1, f)
    | b # bs \<Rightarrow> \<exists>f'. fifo_pull1 f = Some (uint b, f') \<and> fifo_inv f' \<and> fifo_bytes f' = bs \<and> f_size f' = f_size f"
proof (cases "f_in f = f_out f")
  case True
  then show ?thesis using inv by (auto simp: fifo_bytes_def fifo_pull1_def fifo_inv_def)
next
  case False
  then have lt: "f_out f < f_in f" using inv by (simp add: fifo_inv_def)
  have "fifo_bytes f = f_data f ! f_out f # fifo_bytes (f\<lparr>f_out := f_out f + 1\<rparr>)"
    using inv lt by (simp add: fifo_bytes_def fifo_inv_def Cons_nth_drop_Suc [symmetric] take_Cons')
  moreover have "fifo_pull1 f = Some (uint (f_data f ! f_out f), f\<lparr>f_out := f_out f + 1\<rparr>)"
    using inv lt by (auto simp: fifo_pull1_def fifo_inv_def)
  moreover have "fifo_inv (f\<lparr>f_out := f_out f + 1\<rparr>)" using inv lt by (simp add: fifo_inv_def)
  ultimately show ?thesis by (simp split: list.split)
qed

lemma fifo_seek_spec:
  assumes inv: "fifo_inv f" and "f_out f = 0" "f_in f = 0" and "n < f_size f"
  shows "\<exists>f'. fifo_seek n f = Some f' \<and> fifo_inv f' \<and> fifo_bytes f' = take n (f_data f) \<and>
    f_size f' = f_size f \<and> f_data f' = f_data f"
  using assms by (auto simp: fifo_seek_def fifo_inv_def fifo_bytes_def min_def)

section \<open>The contract of a byte FIFO\<close>

fun push_chunks :: "('b list \<Rightarrow> 's \<Rightarrow> (nat \<times> 's) option) \<Rightarrow> 'b list list \<Rightarrow> 's \<Rightarrow> 's option" where
  "push_chunks push [] s = Some s"
| "push_chunks push (xs # xss) s = Option.bind (push xs s) (\<lambda>(n, s'). push_chunks push xss s')"

locale byte_fifo =
  fixes inv :: "'s \<Rightarrow> bool" and room :: "'s \<Rightarrow> nat" and bytes :: "'s \<Rightarrow> 'b list"
    and push :: "'b list \<Rightarrow> 's \<Rightarrow> (nat \<times> 's) option" and pull :: "nat \<Rightarrow> 's \<Rightarrow> ('b list \<times> 's) option"
  assumes push_law: "inv s \<Longrightarrow> length xs \<le> room s \<Longrightarrow> \<exists>s'. push xs s = Some (length xs, s') \<and> inv s' \<and>
      bytes s' = bytes s @ xs \<and> room s' = room s - length xs"
    and pull_law: "inv s \<Longrightarrow> \<exists>s'. pull n s = Some (take n (bytes s), s') \<and> inv s' \<and>
      bytes s' = drop n (bytes s) \<and> room s' = room s"
begin

lemma push_chunks_law:
  "inv s \<Longrightarrow> length (concat xss) \<le> room s \<Longrightarrow>
    \<exists>s'. push_chunks push xss s = Some s' \<and> inv s' \<and> bytes s' = bytes s @ concat xss"
proof (induction xss arbitrary: s)
  case (Cons xs xss)
  obtain s1 where "push xs s = Some (length xs, s1)" "inv s1" "bytes s1 = bytes s @ xs"
    "room s1 = room s - length xs"
    using push_law [OF Cons.prems(1), of xs] Cons.prems(2) by auto
  then show ?case using Cons.IH [of s1] Cons.prems(2) by auto
qed simp

lemma stream_law:
  assumes "inv s" and "length (concat xss) \<le> room s"
  shows "\<exists>s' s''. push_chunks push xss s = Some s' \<and> pull n s' = Some (take n (bytes s @ concat xss), s'') \<and>
    inv s'' \<and> bytes s'' = drop n (bytes s @ concat xss)"
  using push_chunks_law [OF assms] pull_law by metis

end

interpretation bf: byte_fifo fifo_inv fifo_room fifo_bytes fifo_push fifo_pull
  by unfold_locales (use fifo_push_spec fifo_pull_spec in blast)+

section \<open>Properties\<close>

text \<open>C32. Bytes come out of a FIFO in the order they went in: any chunks of fewer bytes than the size,
  pushed into a new FIFO, are returned as one stream by \<open>pull\<close>, which leaves the rest for later.\<close>

theorem fifo_stream:
  assumes "length (concat chunks) < length mem" and "length mem < 65536"
  shows "\<exists>f' f''. push_chunks fifo_push chunks (fifo_new mem) = Some f' \<and>
    fifo_pull n f' = Some (take n (concat chunks), f'') \<and>
    fifo_length f'' = length (concat chunks) - n \<and> fifo_bytes f'' = drop n (concat chunks)"
proof -
  have n: "fifo_inv (fifo_new mem)" "fifo_bytes (fifo_new mem) = []" "fifo_room (fifo_new mem) = length mem - 1"
    using fifo_new_inv [OF le_less_trans [OF le0 assms(1)] assms(2)] by auto
  have "length (concat chunks) \<le> fifo_room (fifo_new mem)" using assms(1) n(3) by linarith
  from bf.stream_law [OF n(1) this, of n] obtain f' f''
    where f: "push_chunks fifo_push chunks (fifo_new mem) = Some f'"
      "fifo_pull n f' = Some (take n (concat chunks), f'')" "fifo_inv f''"
      "fifo_bytes f'' = drop n (concat chunks)"
    by (auto simp: n(2))
  have "length (fifo_bytes f'') = fifo_length f''"
    using f(3) by (simp add: fifo_bytes_def) (auto simp: fifo_inv_def min_def)
  then show ?thesis using f by auto
qed

theorem fifo_stream_witness:
  "\<exists>f' f''. push_chunks fifo_push [[1, 2], [3 :: u8]] (fifo_new [0, 0, 0, 0]) = Some f' \<and>
    fifo_pull 2 f' = Some ([1, 2], f'') \<and> fifo_bytes f'' = [3]"
  using fifo_stream [of "[[1, 2], [3 :: u8]]" "[0, 0, 0, 0]" 2] by auto

text \<open>A FIFO that is filled exactly looks empty: \<open>length\<close> is zero and \<open>free\<close> the whole size, \<open>pull\<close>
  returns nothing, and the next non-empty \<open>push\<close> copies past the end of the array.\<close>

lemma fifo_full_looks_empty:
  assumes "length xs = length mem" and "0 < length mem" and "length mem < 65536"
  shows "\<exists>f. fifo_push xs (fifo_new mem) = Some (length mem, f) \<and> fifo_length f = 0 \<and>
    fifo_free f = length mem \<and> fifo_pull n f = Some ([], f) \<and> (ys \<noteq> [] \<longrightarrow> fifo_push ys f = None)"
proof -
  let ?f = "\<lparr>f_data = xs, f_size = length mem, f_in = length mem, f_out = 0\<rparr>"
  have "fifo_push xs (fifo_new mem) = Some (length mem, ?f)"
    using assms fifo_new_inv [of mem] by (simp add: fifo_push_def Let_def) (simp add: fifo_new_def memcpy_def)
  moreover have l: "fifo_length ?f = 0"
    using assms by (simp add: fifo_length_def smod_nonneg)
  moreover have "fifo_free ?f = length mem"
    using assms l by (simp add: fifo_free_def)
  ultimately show ?thesis
    using assms by (auto simp: fifo_pull_def fifo_push_def Let_def min_def)
qed

lemma fifo_full_looks_empty_witness:
  "\<exists>f. fifo_push [7, 8 :: u8] (fifo_new [0, 0]) = Some (2, f) \<and> fifo_length f = 0 \<and> fifo_push [9] f = None"
  using fifo_full_looks_empty [of "[7, 8 :: u8]" "[0, 0]" 1 "[9]"] by auto

end
