(* ===== verification/I2cDev.thy ===== *)
theory I2cDev
  imports IoDevice Fifo
begin

text \<open>
  The I2C bus \<open>Piduino::I2cDev\<close> (\<open>src/i2c/i2cdev.cpp\<close>, \<open>src/i2c/i2cdev_p.h\<close>): transactions are queued as
  messages over a transmit and a receive FIFO and sent to the kernel by one \<open>I2C_RDWR\<close> request.

  The kernel is the parameter \<open>os\<close>, a record of system calls that act on an environment. A message
  buffer is the start of one of the two FIFOs. Undefined behaviour (\<open>back\<close> of an empty message
  vector, a FIFO overrun) is \<open>None\<close>. What the drivers rely on of the kernel is
  \<open>rdwr_law\<close>: a request that succeeds fills each read message with as many bytes as it asks for.
\<close>

section \<open>The kernel interface\<close>

datatype i2c_buf = TxBuf | RxBuf

record i2c_msg =
  msg_addr :: u16
  msg_flags :: u16
  msg_len :: nat
  msg_buf :: i2c_buf

definition I2C_M_RD :: u16 where "I2C_M_RD = 1"
definition I2C_FUNC_I2C :: u32 where "I2C_FUNC_I2C = 1"
definition I2C_BLOCK_MAX :: nat where "I2C_BLOCK_MAX = 32"
definition EOPNOTSUPP :: int where "EOPNOTSUPP = 95"

text \<open>A message as the kernel sees it: an address with the bytes to write or the number to read.\<close>

datatype xfer = XWrite u16 "u8 list" | XRead u16 nat

record 'e i2c_os =
  sys_open :: "string \<Rightarrow> u32 \<Rightarrow> 'e \<Rightarrow> int \<times> int \<times> 'e"
  sys_close :: "int \<Rightarrow> 'e \<Rightarrow> int \<times> int \<times> 'e"
  sys_i2c_funcs :: "int \<Rightarrow> 'e \<Rightarrow> int \<times> u32 \<times> int \<times> 'e"
  sys_i2c_rdwr :: "int \<Rightarrow> xfer list \<Rightarrow> 'e \<Rightarrow> int \<times> int \<times> u8 list list \<times> 'e"
  sys_strerror :: "int \<Rightarrow> string"

fun read_lengths :: "xfer list \<Rightarrow> nat list" where
  "read_lengths [] = []"
| "read_lengths (XWrite _ _ # xs) = read_lengths xs"
| "read_lengths (XRead _ n # xs) = n # read_lengths xs"

definition rdwr_law :: "'e i2c_os \<Rightarrow> bool" where
  "rdwr_law os \<longleftrightarrow> (\<forall>fd xs e ret err ins e'. sys_i2c_rdwr os fd xs e = (ret, err, ins, e') \<longrightarrow>
     (0 \<le> ret \<longrightarrow> map length ins = read_lengths xs) \<and> (ret < 0 \<longrightarrow> err \<noteq> 0))"

section \<open>The bus\<close>

text \<open>
  \<open>Info\<close> names a bus by number and path. The path of a bus comes from a format of the board database,
  here the parameter \<open>busPath\<close>.
\<close>

record i2c_info =
  info_id :: int
  info_path :: string

abbreviation (input) MaxBuses :: nat where "MaxBuses \<equiv> 32"

definition Info_setId :: "(int \<Rightarrow> string) \<Rightarrow> int \<Rightarrow> i2c_info \<Rightarrow> i2c_info" where
  "Info_setId busPath i info = info\<lparr>info_id := i, info_path := busPath i\<rparr>"

definition Info_setPath :: "(int \<Rightarrow> string) \<Rightarrow> string \<Rightarrow> i2c_info \<Rightarrow> bool \<times> i2c_info" where
  "Info_setPath busPath p info = (case find (\<lambda>i. busPath (int i) = p) [0..<MaxBuses] of
     Some i \<Rightarrow> (True, Info_setId busPath (int i) info) | None \<Rightarrow> (False, info))"

datatype i2c_state = Idle | Write | Read

record i2cdev = iodevice +
  fd :: int
  i2c_state :: i2c_state
  i2c_msgs :: "i2c_msg list"
  txbuf :: fifo
  rxbuf :: fifo
  bus :: i2c_info

definition i2cdev_new :: "i2c_info \<Rightarrow> u8 list \<Rightarrow> u8 list \<Rightarrow> i2cdev" where
  "i2cdev_new info tx rx = iodevice.extend (iodevice_new\<lparr>isSequential := True\<rparr>)
     \<lparr>fd = - 1, i2c_state = Idle, i2c_msgs = [], txbuf = fifo_new tx, rxbuf = fifo_new rx, bus = info\<rparr>"

definition I2cDev_Private_flush :: "i2cdev \<Rightarrow> i2cdev" where
  "I2cDev_Private_flush d = d\<lparr>i2c_msgs := [], txbuf := fifo_clear (txbuf d)\<rparr>"

definition xfer_of :: "i2cdev \<Rightarrow> i2c_msg \<Rightarrow> xfer" where
  "xfer_of d m = (if msg_flags m AND I2C_M_RD \<noteq> 0 then XRead (msg_addr m) (msg_len m)
     else XWrite (msg_addr m)
       (take (msg_len m) (case msg_buf m of TxBuf \<Rightarrow> f_data (txbuf d) | RxBuf \<Rightarrow> f_data (rxbuf d))))"

text \<open>The bytes of each read message are copied to the start of the receive buffer, in order.\<close>

definition store_reads :: "u8 list list \<Rightarrow> i2cdev \<Rightarrow> i2cdev" where
  "store_reads ins d = d\<lparr>rxbuf := (rxbuf d)\<lparr>f_data := fold (memcpy 0) ins (f_data (rxbuf d))\<rparr>\<rparr>"

definition I2cDev_Private_transfer :: "'e i2c_os \<Rightarrow> i2cdev \<times> 'e \<Rightarrow> bool \<times> i2cdev \<times> 'e" where
  "I2cDev_Private_transfer os = (\<lambda>(d, e).
     if IoDevice_isOpen d \<and> i2c_msgs d \<noteq> [] then
       let d = IoDevice_clearError d;
         (ret, errno, ins, e) = sys_i2c_rdwr os (fd d) (map (xfer_of d) (i2c_msgs d)) e;
         d = (if ret < 0 then IoDevice_setError (sys_strerror os) errno d else store_reads ins d)
       in (io_error d = 0, d, e)
     else (False, d, e))"

definition I2cDev_close :: "'e i2c_os \<Rightarrow> i2cdev \<times> 'e \<Rightarrow> i2cdev \<times> 'e" where
  "I2cDev_close os = (\<lambda>(d, e).
     if IoDevice_isOpen d then
       let (ret, errno, e) = sys_close os (fd d) e;
         d = (if ret \<noteq> 0 then IoDevice_setError (sys_strerror os) errno d else d)
       in (IoDevice_close (d\<lparr>fd := - 1, i2c_state := Idle\<rparr>), e)
     else (d, e))"

definition I2cDev_open :: "'e i2c_os \<Rightarrow> u32 \<Rightarrow> i2cdev \<times> 'e \<Rightarrow> bool \<times> i2cdev \<times> 'e" where
  "I2cDev_open os mode = (\<lambda>(d, e).
     if \<not> IoDevice_isOpen d then
       let d = I2cDev_Private_flush d;
         d = d\<lparr>rxbuf := fifo_clear (rxbuf d)\<rparr>;
         (f, errno, e) = sys_open os (info_path (bus d)) (modeToPosixFlags mode) e;
         d = d\<lparr>fd := f\<rparr>
       in if f < 0 then (False, IoDevice_setError (sys_strerror os) errno d, e)
       else let d = snd (IoDevice_open mode d);
         (ret, funcs, errno, e) = sys_i2c_funcs os (fd d) e;
         (d, e) = (if ret < 0 then I2cDev_close os (IoDevice_setError (sys_strerror os) errno d, e)
           else if \<not> funcs AND I2C_FUNC_I2C \<noteq> 0
           then I2cDev_close os (IoDevice_setError_code (sys_strerror os) EOPNOTSUPP d, e)
           else (d, e))
       in (IoDevice_isOpen d, d, e)
     else (True, d, e))"

text \<open>\<open>msgs.back()\<close> is undefined on an empty vector; \<open>update_back\<close> assigns through the reference.\<close>

definition update_back :: "(i2c_msg \<Rightarrow> i2c_msg) \<Rightarrow> i2cdev \<Rightarrow> i2cdev option" where
  "update_back g d = (if i2c_msgs d = [] then None
     else Some (d\<lparr>i2c_msgs := butlast (i2c_msgs d) @ [g (last (i2c_msgs d))]\<rparr>))"

definition I2cDev_beginTransmission :: "u16 \<Rightarrow> i2cdev \<Rightarrow> i2cdev option" where
  "I2cDev_beginTransmission slave d = (if IoDevice_isOpen d then
     (if i2c_state d = Idle
      then Some (d\<lparr>i2c_msgs := i2c_msgs d @ [\<lparr>msg_addr = slave, msg_flags = 0, msg_len = 0, msg_buf = TxBuf\<rparr>],
        i2c_state := Write\<rparr>)
      else update_back (\<lambda>m. m\<lparr>msg_addr := slave\<rparr>) d)
     else Some d)"

definition I2cDev_write :: "u8 list \<Rightarrow> i2cdev \<Rightarrow> (int \<times> i2cdev) option" where
  "I2cDev_write buffer d = (if i2c_state d = Write then
     Option.bind (fifo_push buffer (txbuf d)) (\<lambda>(ret, tx).
       map_option (Pair (int ret)) (update_back (\<lambda>m. m\<lparr>msg_len := fifo_length tx\<rparr>) (d\<lparr>txbuf := tx\<rparr>)))
     else Some (- 1, d))"

definition I2cDev_write1 :: "u8 \<Rightarrow> i2cdev \<Rightarrow> (int \<times> i2cdev) option" where
  "I2cDev_write1 data d = (if i2c_state d = Write then
     Option.bind (fifo_push1 data (txbuf d)) (\<lambda>(ret, tx).
       map_option (Pair ret) (update_back (\<lambda>m. m\<lparr>msg_len := fifo_length tx\<rparr>) (d\<lparr>txbuf := tx\<rparr>)))
     else Some (- 1, d))"

definition I2cDev_endTransmission :: "'e i2c_os \<Rightarrow> bool \<Rightarrow> i2cdev \<times> 'e \<Rightarrow> bool \<times> i2cdev \<times> 'e" where
  "I2cDev_endTransmission os stop = (\<lambda>(d, e).
     if i2c_state d = Write then
       let d = d\<lparr>i2c_state := Idle\<rparr> in
       if stop then let (success, d, e) = I2cDev_Private_transfer os (d, e) in (success, I2cDev_Private_flush d, e)
       else (True, d, e)
     else (False, d, e))"

definition I2cDev_available :: "i2cdev \<Rightarrow> nat" where
  "I2cDev_available d = fifo_length (rxbuf d)"

definition I2cDev_requestFrom :: "'e i2c_os \<Rightarrow> u16 \<Rightarrow> nat \<Rightarrow> bool \<Rightarrow> i2cdev \<times> 'e \<Rightarrow> (int \<times> i2cdev \<times> 'e) option" where
  "I2cDev_requestFrom os slave max_len stop = (\<lambda>(d, e).
     if IoDevice_isOpen d \<and> i2c_state d = Idle then
       let n = min max_len I2C_BLOCK_MAX;
         d = d\<lparr>i2c_msgs := i2c_msgs d @ [\<lparr>msg_addr = slave, msg_flags = I2C_M_RD, msg_len = n, msg_buf = RxBuf\<rparr>]\<rparr>
       in if stop then
         let (success, d, e) = I2cDev_Private_transfer os (d\<lparr>rxbuf := fifo_clear (rxbuf d)\<rparr>, e)
         in if \<not> success then Some (- 1, d, e)
         else map_option (\<lambda>rx. let d = I2cDev_Private_flush (d\<lparr>rxbuf := rx\<rparr>) in (int (I2cDev_available d), d, e))
           (fifo_seek n (rxbuf d))
       else Some (0, d, e)
     else Some (- 1, d, e))"

definition I2cDev_read :: "nat \<Rightarrow> i2cdev \<Rightarrow> (u8 list \<times> i2cdev) option" where
  "I2cDev_read max_len d = map_option (\<lambda>(bs, rx). (bs, d\<lparr>rxbuf := rx\<rparr>))
     (fifo_pull (min (I2cDev_available d) max_len) (rxbuf d))"

definition I2cDev_read1 :: "i2cdev \<Rightarrow> (int \<times> i2cdev) option" where
  "I2cDev_read1 d = map_option (\<lambda>(b, rx). (b, d\<lparr>rxbuf := rx\<rparr>)) (fifo_pull1 (rxbuf d))"

definition I2cDev_peek :: "i2cdev \<Rightarrow> int option" where
  "I2cDev_peek d = (if I2cDev_available d \<noteq> 0
     then (if f_out (rxbuf d) < length (f_data (rxbuf d)) then Some (uint (f_data (rxbuf d) ! f_out (rxbuf d))) else None)
     else Some (- 1))"

definition I2cDev_flush :: "'e i2c_os \<Rightarrow> i2cdev \<times> 'e \<Rightarrow> i2cdev \<times> 'e" where
  "I2cDev_flush os = (\<lambda>(d, e). if i2c_state d = Write
     then snd (I2cDev_endTransmission os True (d, e)) else (I2cDev_Private_flush d, e))"

definition I2cDev_reopen :: "'e i2c_os \<Rightarrow> i2cdev \<times> 'e \<Rightarrow> i2cdev \<times> 'e" where
  "I2cDev_reopen os = (\<lambda>(d, e). if IoDevice_isOpen d
     then let m = openMode d in snd (I2cDev_open os m (I2cDev_close os (d, e))) else (d, e))"

definition I2cDev_setBus :: "'e i2c_os \<Rightarrow> i2c_info \<Rightarrow> i2cdev \<times> 'e \<Rightarrow> i2cdev \<times> 'e" where
  "I2cDev_setBus os info = (\<lambda>(d, e). if info_path (bus d) \<noteq> info_path info
     then I2cDev_reopen os (d\<lparr>bus := info\<rparr>, e) else (d, e))"

definition I2cDev_setBusId :: "'e i2c_os \<Rightarrow> (int \<Rightarrow> string) \<Rightarrow> int \<Rightarrow> i2cdev \<times> 'e \<Rightarrow> i2cdev \<times> 'e" where
  "I2cDev_setBusId os busPath i = (\<lambda>(d, e). if info_id (bus d) \<noteq> i
     then I2cDev_reopen os (d\<lparr>bus := Info_setId busPath i (bus d)\<rparr>, e) else (d, e))"

definition I2cDev_setBusPath :: "'e i2c_os \<Rightarrow> (int \<Rightarrow> string) \<Rightarrow> string \<Rightarrow> i2cdev \<times> 'e \<Rightarrow> i2cdev \<times> 'e" where
  "I2cDev_setBusPath os busPath path = (\<lambda>(d, e). if info_path (bus d) \<noteq> path
     then I2cDev_reopen os (d\<lparr>bus := snd (Info_setPath busPath path (bus d))\<rparr>, e) else (d, e))"

section \<open>Transactions\<close>

text \<open>
  The phases of a transaction with one slave: \<open>i2c_ready\<close> (nothing queued), \<open>i2c_writing a xs\<close> (between
  \<open>beginTransmission\<close> and \<open>endTransmission\<close>, \<open>xs\<close> written so far) and \<open>i2c_queued a xs\<close> (after
  \<open>endTransmission (false)\<close>). \<open>same_bus\<close> is the frame: the open descriptor does not change.
\<close>

definition i2c_storage :: "i2cdev \<Rightarrow> bool" where
  "i2c_storage d \<longleftrightarrow> f_size (txbuf d) = I2C_BLOCK_MAX \<and> length (f_data (txbuf d)) = I2C_BLOCK_MAX \<and>
     f_size (rxbuf d) = I2C_BLOCK_MAX \<and> length (f_data (rxbuf d)) = I2C_BLOCK_MAX"

definition same_bus :: "i2cdev \<Rightarrow> i2cdev \<Rightarrow> bool" where
  "same_bus d d' \<longleftrightarrow> fd d' = fd d \<and> openMode d' = openMode d \<and> bus d' = bus d"

definition i2c_ready :: "i2cdev \<Rightarrow> bool" where
  "i2c_ready d \<longleftrightarrow> i2c_storage d \<and> openMode d \<noteq> NotOpen \<and> i2c_state d = Idle \<and> i2c_msgs d = [] \<and>
     f_in (txbuf d) = 0 \<and> f_out (txbuf d) = 0"

definition i2c_tx_holds :: "u16 \<Rightarrow> u8 list \<Rightarrow> i2cdev \<Rightarrow> bool" where
  "i2c_tx_holds a xs d \<longleftrightarrow> i2c_storage d \<and> openMode d \<noteq> NotOpen \<and>
     i2c_msgs d = [\<lparr>msg_addr = a, msg_flags = 0, msg_len = length xs, msg_buf = TxBuf\<rparr>] \<and>
     f_out (txbuf d) = 0 \<and> f_in (txbuf d) = length xs \<and> fifo_bytes (txbuf d) = xs \<and> length xs < I2C_BLOCK_MAX"

definition i2c_writing :: "u16 \<Rightarrow> u8 list \<Rightarrow> i2cdev \<Rightarrow> bool" where
  "i2c_writing a xs d \<longleftrightarrow> i2c_tx_holds a xs d \<and> i2c_state d = Write"

definition i2c_queued :: "u16 \<Rightarrow> u8 list \<Rightarrow> i2cdev \<Rightarrow> bool" where
  "i2c_queued a xs d \<longleftrightarrow> i2c_tx_holds a xs d \<and> i2c_state d = Idle"

lemmas i2c_phases = i2c_ready_def i2c_writing_def i2c_queued_def i2c_tx_holds_def i2c_storage_def

lemma begin_ready:
  assumes "i2c_ready d"
  shows "\<exists>d'. I2cDev_beginTransmission a d = Some d' \<and> i2c_writing a [] d' \<and> same_bus d d'"
  using assms by (auto simp: I2cDev_beginTransmission_def i2c_phases same_bus_def fifo_bytes_def I2C_BLOCK_MAX_def)

lemma tx_holds_fifo: "i2c_tx_holds a xs d \<Longrightarrow> fifo_inv (txbuf d) \<and> fifo_room (txbuf d) = I2C_BLOCK_MAX - 1 - length xs"
  by (auto simp: i2c_phases fifo_inv_def fifo_room_def I2C_BLOCK_MAX_def)

lemma fifo_push_fields:
  "fifo_push xs f = Some (n, f') \<Longrightarrow> f_out f' = f_out f \<and> f_in f' = f_in f + n"
  by (auto simp: fifo_push_def Let_def split: if_splits)

lemma write_writing:
  assumes w: "i2c_writing a xs d" and len: "length xs + length ys < I2C_BLOCK_MAX"
  shows "\<exists>d'. I2cDev_write ys d = Some (int (length ys), d') \<and> i2c_writing a (xs @ ys) d' \<and> same_bus d d'"
proof -
  have inv: "fifo_inv (txbuf d)" and room: "length ys \<le> fifo_room (txbuf d)"
    using w tx_holds_fifo [of a xs d] len by (auto simp: i2c_writing_def)
  obtain f where f: "fifo_push ys (txbuf d) = Some (length ys, f)" "fifo_inv f"
    "fifo_bytes f = fifo_bytes (txbuf d) @ ys" "f_size f = f_size (txbuf d)"
    using fifo_push_spec [OF inv room] by auto
  have "length (f_data f) = f_size f" using f(2) by (simp add: fifo_inv_def)
  then show ?thesis
    using w len f fifo_push_fields [OF f(1)]
    by (auto simp: I2cDev_write_def update_back_def i2c_phases same_bus_def)
qed

lemma write1_writing:
  assumes w: "i2c_writing a xs d" and len: "length xs + 1 < I2C_BLOCK_MAX"
  shows "\<exists>d'. I2cDev_write1 y d = Some (0, d') \<and> i2c_writing a (xs @ [y]) d' \<and> same_bus d d'"
proof -
  have "I2cDev_write1 y d = map_option (\<lambda>(n, d'). (0, d')) (I2cDev_write [y] d)"
    using w len fifo_push1_push [of "txbuf d" y] tx_holds_fifo [of a xs d]
    by (auto simp: I2cDev_write1_def I2cDev_write_def i2c_writing_def option.map_comp comp_def
        split: Option.bind_splits)
  then show ?thesis using write_writing [OF w, of "[y]"] len by auto
qed

lemma end_queue:
  assumes "i2c_writing a xs d"
  shows "\<exists>d'. I2cDev_endTransmission os False (d, e) = (True, d', e) \<and> i2c_queued a xs d' \<and> same_bus d d'"
  using assms by (auto simp: I2cDev_endTransmission_def i2c_phases same_bus_def)

lemma tx_holds_data: "i2c_tx_holds a xs d \<Longrightarrow> take (length xs) (f_data (txbuf d)) = xs"
  by (auto simp: i2c_tx_holds_def fifo_bytes_def)

lemma xfer_of_clearError [simp]: "xfer_of (IoDevice_clearError d) = xfer_of d"
  by (simp add: fun_eq_iff xfer_of_def IoDevice_clearError_def split: i2c_buf.split)

lemma xfer_of_tx:
  "i2c_tx_holds a xs d \<Longrightarrow> map (xfer_of d) (i2c_msgs d) = [XWrite a xs]"
  using tx_holds_data [of a xs d] by (simp add: i2c_tx_holds_def xfer_of_def)

lemma read_lengths_append [simp]: "read_lengths (xs @ ys) = read_lengths xs @ read_lengths ys"
  by (induction xs rule: read_lengths.induct) auto

lemma clearError_i2c [simp]:
  "fd (IoDevice_clearError d) = fd d"
  "i2c_state (IoDevice_clearError d) = i2c_state d"
  "i2c_msgs (IoDevice_clearError d) = i2c_msgs d"
  "txbuf (IoDevice_clearError d) = txbuf d"
  "rxbuf (IoDevice_clearError d) = rxbuf d"
  "bus (IoDevice_clearError d) = bus d"
  by (simp_all add: IoDevice_clearError_def)

lemma setError_i2c [simp]:
  "fd (IoDevice_setError se err d) = fd d"
  "i2c_state (IoDevice_setError se err d) = i2c_state d"
  "i2c_msgs (IoDevice_setError se err d) = i2c_msgs d"
  "txbuf (IoDevice_setError se err d) = txbuf d"
  "rxbuf (IoDevice_setError se err d) = rxbuf d"
  "bus (IoDevice_setError se err d) = bus d"
  by (simp_all add: IoDevice_setError_def)

lemma store_reads_i2c [simp]:
  "fd (store_reads ins d) = fd d" "i2c_state (store_reads ins d) = i2c_state d"
  "i2c_msgs (store_reads ins d) = i2c_msgs d" "txbuf (store_reads ins d) = txbuf d"
  "bus (store_reads ins d) = bus d" "openMode (store_reads ins d) = openMode d"
  "io_error (store_reads ins d) = io_error d"
  "rxbuf (store_reads ins d) = (rxbuf d)\<lparr>f_data := fold (memcpy 0) ins (f_data (rxbuf d))\<rparr>"
  by (simp_all add: store_reads_def)

text \<open>One kernel request, as the phases see it.\<close>

lemma transfer_request:
  assumes law: "rdwr_law os" and "openMode d \<noteq> NotOpen" "i2c_msgs d \<noteq> []"
    and sys: "sys_i2c_rdwr os (fd d) (map (xfer_of d) (i2c_msgs d)) e = (ret, err, ins, e')"
  shows "I2cDev_Private_transfer os (d, e) = (0 \<le> ret,
    (if ret < 0 then IoDevice_setError (sys_strerror os) err (IoDevice_clearError d)
     else store_reads ins (IoDevice_clearError d)), e')"
  using assms(2-) law [unfolded rdwr_law_def, rule_format, OF sys]
  by (auto simp: I2cDev_Private_transfer_def Let_def)

lemma end_stop:
  assumes w: "i2c_writing a xs d" and law: "rdwr_law os"
    and sys: "sys_i2c_rdwr os (fd d) [XWrite a xs] e = (ret, err, ins, e')"
  shows "\<exists>d'. I2cDev_endTransmission os True (d, e) = (0 \<le> ret, d', e') \<and> i2c_ready d' \<and> same_bus d d'"
proof -
  let ?d = "d\<lparr>i2c_state := Idle\<rparr>"
  have t: "i2c_tx_holds a xs ?d" using w by (simp add: i2c_writing_def i2c_tx_holds_def i2c_storage_def)
  have "0 \<le> ret \<Longrightarrow> ins = []" using law [unfolded rdwr_law_def, rule_format, OF sys] by auto
  moreover have "I2cDev_endTransmission os True (d, e)
      = (let (success, d, e) = I2cDev_Private_transfer os (?d, e) in (success, I2cDev_Private_flush d, e))"
    using w by (simp add: I2cDev_endTransmission_def i2c_writing_def)
  moreover note transfer_request [OF law, of ?d e ret err ins e']
  ultimately show ?thesis
    using t xfer_of_tx [OF t] sys
    by (auto simp: I2cDev_Private_flush_def i2c_phases same_bus_def fifo_clear_def)
qed

definition i2c_pending :: "xfer list \<Rightarrow> i2cdev \<Rightarrow> bool" where
  "i2c_pending pre d \<longleftrightarrow> i2c_ready d \<and> pre = [] \<or> (\<exists>a xs. i2c_queued a xs d \<and> pre = [XWrite a xs])"

lemma pending_fields:
  assumes "i2c_pending pre d"
  shows "i2c_storage d" "openMode d \<noteq> NotOpen" "i2c_state d = Idle" "map (xfer_of d) (i2c_msgs d) = pre"
    "read_lengths pre = []"
  using assms xfer_of_tx [of _ _ d]
  by (auto simp: i2c_pending_def i2c_ready_def i2c_queued_def i2c_tx_holds_def)

lemma xfer_of_request [simp]:
  "xfer_of (d\<lparr>i2c_msgs := ms, rxbuf := fifo_clear (rxbuf d)\<rparr>) = xfer_of d"
  by (simp add: fun_eq_iff xfer_of_def fifo_clear_def split: i2c_buf.split)

lemma request_transfer:
  assumes p: "i2c_pending pre d" and law: "rdwr_law os" and n: "n \<le> I2C_BLOCK_MAX"
    and sys: "sys_i2c_rdwr os (fd d) (pre @ [XRead b n]) e = (ret, err, ins, e')"
    and d1: "d1 = d\<lparr>i2c_msgs := i2c_msgs d @ [\<lparr>msg_addr = b, msg_flags = I2C_M_RD, msg_len = n, msg_buf = RxBuf\<rparr>],
      rxbuf := fifo_clear (rxbuf d)\<rparr>"
  shows "I2cDev_Private_transfer os (d1, e) = (0 \<le> ret,
    (if ret < 0 then IoDevice_setError (sys_strerror os) err (IoDevice_clearError d1)
     else store_reads ins (IoDevice_clearError d1)), e')"
  and "0 \<le> ret \<Longrightarrow> \<exists>bs. ins = [bs] \<and> length bs = n"
proof -
  note f = pending_fields [OF p]
  have "map (xfer_of d1) (i2c_msgs d1) = pre @ [XRead b n]"
    unfolding d1 by (simp add: f(4)) (simp add: xfer_of_def I2C_M_RD_def)
  then show "I2cDev_Private_transfer os (d1, e) = (0 \<le> ret,
    (if ret < 0 then IoDevice_setError (sys_strerror os) err (IoDevice_clearError d1)
     else store_reads ins (IoDevice_clearError d1)), e')"
    using sys f(2) by (intro transfer_request [OF law]) (auto simp: d1)
  show "\<exists>bs. ins = [bs] \<and> length bs = n" if "0 \<le> ret"
    using law [unfolded rdwr_law_def, rule_format, OF sys] that f(5) by auto
qed

lemma request_ok:
  assumes p: "i2c_pending pre d" and law: "rdwr_law os" and n: "n < I2C_BLOCK_MAX"
    and sys: "sys_i2c_rdwr os (fd d) (pre @ [XRead b n]) e = (ret, err, ins, e')" and ok: "0 \<le> ret"
  shows "\<exists>d' bs. ins = [bs] \<and> length bs = n \<and> I2cDev_requestFrom os b n True (d, e) = Some (int n, d', e') \<and>
    i2c_ready d' \<and> same_bus d d' \<and> fifo_inv (rxbuf d') \<and> fifo_bytes (rxbuf d') = bs"
proof -
  note f = pending_fields [OF p]
  define d1 where d1: "d1 = d\<lparr>i2c_msgs := i2c_msgs d @ [\<lparr>msg_addr = b, msg_flags = I2C_M_RD, msg_len = n, msg_buf = RxBuf\<rparr>],
      rxbuf := fifo_clear (rxbuf d)\<rparr>"
  obtain bs where bs: "ins = [bs]" "length bs = n"
    using request_transfer(2) [OF p law _ sys d1 ok] n by auto
  define d2 where d2: "d2 = store_reads ins (IoDevice_clearError d1)"
  have tr: "I2cDev_Private_transfer os (d1, e) = (True, d2, e')"
    using request_transfer(1) [OF p law _ sys d1] n ok by (simp add: d2)
  have rx: "f_data (rxbuf d2) = bs @ drop n (f_data (rxbuf d))" "f_in (rxbuf d2) = 0" "f_out (rxbuf d2) = 0"
    "f_size (rxbuf d2) = I2C_BLOCK_MAX"
    using f(1) bs by (simp_all add: d2 d1 fifo_clear_def memcpy_def i2c_storage_def)
  then have "fifo_inv (rxbuf d2)" using f(1) bs n by (simp add: fifo_inv_def i2c_storage_def I2C_BLOCK_MAX_def)
  then obtain r where r: "fifo_seek n (rxbuf d2) = Some r" "fifo_inv r" "fifo_bytes r = bs" "f_size r = I2C_BLOCK_MAX"
    using fifo_seek_spec [of "rxbuf d2" n] rx n bs by auto
  let ?d' = "I2cDev_Private_flush (d2\<lparr>rxbuf := r\<rparr>)"
  have "fifo_length r = n" using r(2,3) bs by (auto simp: fifo_bytes_def fifo_inv_def)
  then have "I2cDev_requestFrom os b n True (d, e) = Some (int n, ?d', e')"
    using f(2,3) n tr r(1) unfolding d1 I2cDev_requestFrom_def
    by (simp add: Let_def min_absorb1 I2cDev_available_def I2cDev_Private_flush_def)
  moreover have "i2c_ready ?d'" "same_bus d ?d'"
    using f r by (auto simp: i2c_ready_def i2c_storage_def I2cDev_Private_flush_def fifo_clear_def d2 d1
        same_bus_def fifo_inv_def)
  ultimately show ?thesis using bs r by (auto simp: I2cDev_Private_flush_def)
qed

lemma request_fail:
  assumes p: "i2c_pending pre d" and law: "rdwr_law os" and n: "n \<le> I2C_BLOCK_MAX"
    and sys: "sys_i2c_rdwr os (fd d) (pre @ [XRead b n]) e = (ret, err, ins, e')" and fail: "ret < 0"
  shows "\<exists>d'. I2cDev_requestFrom os b n True (d, e) = Some (- 1, d', e') \<and> same_bus d d' \<and>
    i2c_state d' = Idle \<and> map (xfer_of d') (i2c_msgs d') = pre @ [XRead b n]"
proof -
  note f = pending_fields [OF p]
  define d1 where d1: "d1 = d\<lparr>i2c_msgs := i2c_msgs d @ [\<lparr>msg_addr = b, msg_flags = I2C_M_RD, msg_len = n, msg_buf = RxBuf\<rparr>],
      rxbuf := fifo_clear (rxbuf d)\<rparr>"
  let ?d' = "IoDevice_setError (sys_strerror os) err (IoDevice_clearError d1)"
  have "I2cDev_requestFrom os b n True (d, e) = Some (- 1, ?d', e')"
    using f(2,3) n request_transfer(1) [OF p law n sys d1] fail unfolding d1 I2cDev_requestFrom_def
    by (simp add: Let_def min_absorb1)
  moreover have "xfer_of ?d' = xfer_of d"
    by (simp add: fun_eq_iff xfer_of_def d1 fifo_clear_def split: i2c_buf.split)
  moreover have "xfer_of d \<lparr>msg_addr = b, msg_flags = I2C_M_RD, msg_len = n, msg_buf = RxBuf\<rparr> = XRead b n"
    by (simp add: xfer_of_def I2C_M_RD_def)
  ultimately show ?thesis
    using f by (intro exI [of _ ?d']) (simp add: d1 same_bus_def)
qed

lemma read_all:
  assumes "fifo_inv (rxbuf d)" and "fifo_bytes (rxbuf d) = bs"
  shows "\<exists>d'. I2cDev_read (length bs) d = Some (bs, d') \<and> same_bus d d' \<and> I2cDev_available d' = 0 \<and>
    i2c_ready d' = i2c_ready d"
proof -
  have len: "fifo_length (rxbuf d) = length bs"
    using assms by (auto simp: fifo_bytes_def fifo_inv_def)
  obtain f where f: "fifo_pull (length bs) (rxbuf d) = Some (bs, f)" "fifo_inv f" "fifo_bytes f = []" "f_size f = f_size (rxbuf d)"
    using fifo_pull_spec [OF assms(1), of "length bs"] assms(2) by auto
  have "fifo_length f = 0" using f(2,3) by (auto simp: fifo_bytes_def fifo_inv_def)
  then show ?thesis
    using f assms(1) len
    by (auto simp: I2cDev_read_def I2cDev_available_def same_bus_def i2c_ready_def i2c_storage_def fifo_inv_def)
qed

section \<open>Properties\<close>

text \<open>
  A loop-back kernel for concrete runs: it logs every request and answers each read with bytes
  \<open>0x5A\<close>; the variant \<open>deaf_os\<close> fails every request with \<open>EREMOTEIO\<close>.
\<close>

definition loop_os :: "xfer list list i2c_os" where
  "loop_os = \<lparr>sys_open = (\<lambda>p fl e. (3, 0, e)), sys_close = (\<lambda>f e. (0, 0, e)),
     sys_i2c_funcs = (\<lambda>f e. (0, I2C_FUNC_I2C, 0, e)),
     sys_i2c_rdwr = (\<lambda>f xs e. (int (length xs), 0, map (\<lambda>n. replicate n 0x5A) (read_lengths xs), e @ [xs])),
     sys_strerror = (\<lambda>n. ''error'')\<rparr>"

definition deaf_os :: "xfer list list i2c_os" where
  "deaf_os = loop_os\<lparr>sys_i2c_rdwr := (\<lambda>f xs e. (- 1, 121, [], e @ [xs]))\<rparr>"

lemma loop_os_law: "rdwr_law loop_os" and deaf_os_law: "rdwr_law deaf_os"
  by (auto simp: rdwr_law_def loop_os_def deaf_os_def comp_def)

definition demo_bus :: i2cdev where
  "demo_bus = (i2cdev_new \<lparr>info_id = 1, info_path = ''/dev/i2c-1''\<rparr> (replicate 32 0) (replicate 32 0))
     \<lparr>openMode := ReadWrite, fd := 3\<rparr>"

lemma demo_bus_ready: "i2c_ready demo_bus" and demo_bus_fd: "fd demo_bus = 3"
  by (simp_all add: demo_bus_def i2cdev_new_def i2c_ready_def i2c_storage_def fifo_new_def I2C_BLOCK_MAX_def
      iodevice.defs iodevice_new_def)





text \<open>When the kernel refuses a request, \<open>requestFrom\<close> returns \<open>-1\<close> but leaves the messages of the
  failed transaction queued: the next transaction sends them again.\<close>

lemma i2c_failed_request_stays_queued:
  assumes ready: "i2c_ready d" and law: "rdwr_law os" and len: "n \<le> I2C_BLOCK_MAX"
    and sys: "sys_i2c_rdwr os (fd d) [XRead a n] e = (ret, err, ins, e')" and fail: "ret < 0"
  shows "\<exists>d'. I2cDev_requestFrom os a n True (d, e) = Some (- 1, d', e') \<and> i2c_state d' = Idle \<and>
    map (xfer_of d') (i2c_msgs d') = [XRead a n] \<and> \<not> i2c_ready d'"
proof -
  have "i2c_pending [] d" using ready by (simp add: i2c_pending_def)
  from request_fail [OF this law len _ fail] sys show ?thesis by (fastforce simp: i2c_ready_def)
qed

lemma i2c_failed_request_stays_queued_witness:
  "\<exists>d'. I2cDev_requestFrom deaf_os 0x48 2 True (demo_bus, []) = Some (- 1, d', [[XRead 0x48 2]]) \<and>
    map (xfer_of d') (i2c_msgs d') = [XRead 0x48 2]"
  using i2c_failed_request_stays_queued [OF demo_bus_ready deaf_os_law, where n = 2 and a = "0x48" and e = "[]" and
      ret = "- 1" and err = 121 and ins = "[]" and e' = "[[XRead 0x48 2]]"]
  by (auto simp: deaf_os_def loop_os_def I2C_BLOCK_MAX_def)

text \<open>A request for a whole block of 32 bytes reports zero bytes available although the kernel delivered
  them all, and \<open>read\<close> returns none of them.\<close>

lemma i2c_full_block_lost:
  assumes ready: "i2c_ready d" and law: "rdwr_law os"
    and sys: "sys_i2c_rdwr os (fd d) [XRead a I2C_BLOCK_MAX] e = (ret, err, ins, e')" and ok: "0 \<le> ret"
  shows "\<exists>d'. I2cDev_requestFrom os a I2C_BLOCK_MAX True (d, e) = Some (0, d', e') \<and>
    length (concat ins) = I2C_BLOCK_MAX \<and> I2cDev_read k d' = Some ([], d')"
proof -
  have p: "i2c_pending [] d" using ready by (simp add: i2c_pending_def)
  note f = pending_fields [OF p]
  define d1 where d1: "d1 = d\<lparr>i2c_msgs := i2c_msgs d @ [\<lparr>msg_addr = a, msg_flags = I2C_M_RD,
      msg_len = I2C_BLOCK_MAX, msg_buf = RxBuf\<rparr>], rxbuf := fifo_clear (rxbuf d)\<rparr>"
  have sys': "sys_i2c_rdwr os (fd d) ([] @ [XRead a I2C_BLOCK_MAX]) e = (ret, err, ins, e')" using sys by simp
  obtain bs where bs: "ins = [bs]" "length bs = I2C_BLOCK_MAX"
    using request_transfer(2) [OF p law order_refl sys' d1 ok] by auto
  define d2 where d2: "d2 = store_reads ins (IoDevice_clearError d1)"
  have tr: "I2cDev_Private_transfer os (d1, e) = (True, d2, e')"
    using request_transfer(1) [OF p law order_refl sys' d1] ok by (simp add: d2)
  let ?r = "\<lparr>f_data = bs, f_size = I2C_BLOCK_MAX, f_in = I2C_BLOCK_MAX, f_out = 0\<rparr>"
  have rx: "rxbuf d2 = \<lparr>f_data = bs, f_size = I2C_BLOCK_MAX, f_in = 0, f_out = 0\<rparr>"
    using f(1) bs by (simp add: d2 d1 fifo_clear_def memcpy_def i2c_storage_def)
  have seek: "fifo_seek I2C_BLOCK_MAX (rxbuf d2) = Some ?r"
    using bs by (simp add: rx fifo_seek_def I2C_BLOCK_MAX_def)
  have len: "fifo_length ?r = 0" by (simp add: fifo_length_def I2C_BLOCK_MAX_def smod_nonneg)
  let ?d' = "I2cDev_Private_flush (d2\<lparr>rxbuf := ?r\<rparr>)"
  have "I2cDev_requestFrom os a I2C_BLOCK_MAX True (d, e) = Some (0, ?d', e')"
    using f(2,3) tr seek len unfolding d1 I2cDev_requestFrom_def
    by (simp add: Let_def I2cDev_available_def I2cDev_Private_flush_def)
  moreover have "I2cDev_read k ?d' = Some ([], ?d')"
    using len by (simp add: I2cDev_read_def I2cDev_available_def I2cDev_Private_flush_def fifo_pull_def I2C_BLOCK_MAX_def)
  ultimately show ?thesis using bs by auto
qed

lemma i2c_full_block_lost_witness:
  "\<exists>d'. I2cDev_requestFrom loop_os 0x48 32 True (demo_bus, []) = Some (0, d', [[XRead 0x48 32]]) \<and>
    I2cDev_read 4 d' = Some ([], d')"
  using i2c_full_block_lost [OF demo_bus_ready loop_os_law, where a = "0x48" and e = "[]" and k = 4 and
      ret = 1 and err = 0 and ins = "[replicate 32 0x5A]" and e' = "[[XRead 0x48 32]]"]
  by (auto simp: loop_os_def I2C_BLOCK_MAX_def)

text \<open>Opening a closed bus either fails and leaves it closed, or gives an open bus in the requested mode
  with nothing queued, whatever was left in its buffers before.\<close>

lemma i2c_open_ready_or_closed:
  assumes st: "i2c_storage d" and closed: "\<not> IoDevice_isOpen d" "i2c_state d = Idle" and mode: "mode \<noteq> NotOpen"
  shows "case I2cDev_open os mode (d, e) of (ok, d', e') \<Rightarrow>
    if ok then i2c_ready d' \<and> openMode d' = mode \<and> I2cDev_available d' = 0 else \<not> IoDevice_isOpen d'"
proof -
  have ready: "i2c_ready (snd (IoDevice_open mode ((I2cDev_Private_flush d)\<lparr>rxbuf := fifo_clear (rxbuf d), fd := f\<rparr>)))"
    for f
    using assms by (simp add: IoDevice_open_def IoDevice_Private_open_def I2cDev_Private_flush_def i2c_ready_def
        i2c_storage_def fifo_clear_def)
  have "fifo_length (fifo_clear (rxbuf d)) = 0"
    using st by (simp add: fifo_length_def fifo_clear_def i2c_storage_def I2C_BLOCK_MAX_def smod_nonneg)
  then show ?thesis
    using ready mode closed
    by (auto simp: I2cDev_open_def I2cDev_close_def IoDevice_open_def IoDevice_Private_open_def IoDevice_close_def
        IoDevice_Private_close_def I2cDev_Private_flush_def I2cDev_available_def Let_def split: prod.splits if_splits)
qed

lemma i2c_open_ready_or_closed_witness:
  "case I2cDev_open loop_os ReadWrite (i2cdev_new \<lparr>info_id = 1, info_path = ''/dev/i2c-1''\<rparr> (replicate 32 7) (replicate 32 7), [])
    of (ok, d', e') \<Rightarrow> if ok then i2c_ready d' \<and> openMode d' = ReadWrite \<and> I2cDev_available d' = 0 else \<not> IoDevice_isOpen d'"
  by (rule i2c_open_ready_or_closed)
    (simp_all add: i2cdev_new_def i2c_storage_def fifo_new_def I2C_BLOCK_MAX_def iodevice.defs iodevice_new_def)

end
