(* ===== verification/Converter.thy ===== *)
theory Converter
  imports IoDevice
begin

text \<open>
  The abstract class \<open>Piduino::Converter\<close> (\<open>include/piduino/converter.h\<close>, \<open>src/converter_p.h\<close>,
  \<open>src/converter.cpp\<close>), the interface of the analog converters and GPIO expanders.

  The virtual methods of \<open>Converter::Private\<close> are the fields of the record \<open>conv_vtable\<close>, over a state
  \<open>'s\<close> that holds the object and the world it acts on; the drivers provide one such record each. A
  method with undefined behaviour returns \<open>None\<close>. The public methods are functions of the table, as in
  the source they dispatch to it. The locale \<open>converter\<close> states what a table must satisfy.

  \<open>long\<close> values are integers, and the mode flags a 64-bit word. The conversions to and from
  physical values (\<open>digitalToValue\<close>, \<open>valueToDigital\<close>, \<open>readAverage\<close>) are floating point and not modelled.
\<close>

section \<open>Enumerations\<close>

datatype conv_type = AnalogToDigital | DigitalToAnalog | Sensor | GpioExpander | UnknownType

type_synonym conv_mode = "64 word"

abbreviation (input) NoMode :: conv_mode where "NoMode \<equiv> 0"
abbreviation (input) DigitalInput :: conv_mode where "DigitalInput \<equiv> 0x1"
abbreviation (input) DigitalOutput :: conv_mode where "DigitalOutput \<equiv> 0x2"
abbreviation (input) AnalogInput :: conv_mode where "AnalogInput \<equiv> 0x4"
abbreviation (input) AnalogOutput :: conv_mode where "AnalogOutput \<equiv> 0x8"
abbreviation (input) PullUp :: conv_mode where "PullUp \<equiv> 0x10"
abbreviation (input) PullDown :: conv_mode where "PullDown \<equiv> 0x20"
abbreviation (input) ActiveLow :: conv_mode where "ActiveLow \<equiv> 0x40"
abbreviation (input) EdgeRising :: conv_mode where "EdgeRising \<equiv> 0x80"
abbreviation (input) EdgeFalling :: conv_mode where "EdgeFalling \<equiv> 0x100"
abbreviation (input) Interrupt :: conv_mode where "Interrupt \<equiv> 0x200"
abbreviation (input) Continuous :: conv_mode where "Continuous \<equiv> 0x400"
abbreviation (input) SingleShot :: conv_mode where "SingleShot \<equiv> 0x800"
abbreviation (input) FastMode :: conv_mode where "FastMode \<equiv> 0x1000"
abbreviation (input) SaveToEEPROM :: conv_mode where "SaveToEEPROM \<equiv> 0x2000"
abbreviation (input) PwrDwn0 :: conv_mode where "PwrDwn0 \<equiv> 0x4000"
abbreviation (input) PwrDwn1 :: conv_mode where "PwrDwn1 \<equiv> 0x8000"
abbreviation (input) PwrDwnEn :: conv_mode where "PwrDwnEn \<equiv> 0x10000"
abbreviation (input) PwrDwnMask :: conv_mode where "PwrDwnMask \<equiv> PwrDwnEn OR PwrDwn1 OR PwrDwn0"
abbreviation (input) GainEn :: conv_mode where "GainEn \<equiv> 0x100000"
abbreviation (input) Gain2 :: conv_mode where "Gain2 \<equiv> GainEn OR 0x20000"

abbreviation hasReferencePerChannel :: u32 where "hasReferencePerChannel \<equiv> 0x4000"

abbreviation (input) InvalidValue :: int where "InvalidValue \<equiv> - (2 ^ 63)"

definition modeFlagToStringMap :: "(conv_mode \<times> string) list" where
  "modeFlagToStringMap = [(DigitalInput, ''in''), (DigitalOutput, ''out''), (AnalogInput, ''ain''),
     (AnalogOutput, ''aout''), (ActiveLow, ''activelow''), (PullUp, ''up''), (PullDown, ''down''),
     (NoMode, ''off''), (EdgeRising, ''rising''), (EdgeFalling, ''falling''), (Interrupt, ''int''),
     (Continuous, ''continuous''), (SingleShot, ''single''), (FastMode, ''fast''), (SaveToEEPROM, ''eeprom''),
     (PwrDwnEn, ''pden''), (PwrDwn0, ''pd0''), (PwrDwn1, ''pd1'')]"

definition stringToModeFlagMap :: "(string \<times> conv_mode) list" where
  "stringToModeFlagMap = [(''in'', DigitalInput), (''out'', DigitalOutput), (''ain'', AnalogInput),
     (''aout'', AnalogOutput), (''off'', NoMode), (''activelow'', ActiveLow), (''up'', PullUp),
     (''down'', PullDown), (''rising'', EdgeRising), (''falling'', EdgeFalling), (''int'', Interrupt),
     (''continuous'', Continuous), (''single'', SingleShot), (''fast'', FastMode), (''eeprom'', SaveToEEPROM),
     (''pden'', PwrDwnEn), (''pd0'', PwrDwn0), (''pd1'', PwrDwn1)]"

section \<open>The virtual methods and their defaults\<close>

record 's conv_vtable =
  v_openMode :: "'s \<Rightarrow> u32"
  v_type :: conv_type
  v_flags :: u32
  v_open :: "u32 \<Rightarrow> 's \<Rightarrow> (bool \<times> 's) option"
  v_close :: "'s \<Rightarrow> 's option"
  v_read :: "'s \<Rightarrow> (int \<times> 's) option"
  v_write :: "int \<Rightarrow> 's \<Rightarrow> (bool \<times> 's) option"
  v_toggle :: "int \<Rightarrow> 's \<Rightarrow> (bool \<times> 's) option"
  v_readChannel :: "int \<Rightarrow> bool \<Rightarrow> 's \<Rightarrow> (int \<times> 's) option"
  v_writeChannel :: "int \<Rightarrow> int \<Rightarrow> bool \<Rightarrow> 's \<Rightarrow> (bool \<times> 's) option"
  v_numberOfChannels :: "'s \<Rightarrow> int"
  v_max :: "bool \<Rightarrow> 's \<Rightarrow> int"
  v_min :: "bool \<Rightarrow> 's \<Rightarrow> int"
  v_mode :: "int \<Rightarrow> 's \<Rightarrow> (conv_mode \<times> 's) option"
  v_setMode :: "conv_mode \<Rightarrow> int \<Rightarrow> 's \<Rightarrow> (bool \<times> 's) option"

definition Private_max :: "int \<Rightarrow> bool \<Rightarrow> bool \<Rightarrow> int" where
  "Private_max rng isBipolar differential = (if isBipolar \<and> differential then rng sdiv 2 - 1 else rng - 1)"

definition Private_min :: "int \<Rightarrow> bool \<Rightarrow> bool \<Rightarrow> int" where
  "Private_min rng isBipolar differential = (if isBipolar \<and> differential then (- rng) sdiv 2 else 0)"

text \<open>The default \<open>read\<close>, \<open>write\<close>, \<open>toggle\<close> and \<open>setMode\<close> do nothing and report failure.\<close>

definition default_read :: "'s \<Rightarrow> (int \<times> 's) option" where
  "default_read s = Some (InvalidValue, s)"

definition default_write :: "int \<Rightarrow> 's \<Rightarrow> (bool \<times> 's) option" where
  "default_write v s = Some (False, s)"

definition default_toggle :: "int \<Rightarrow> 's \<Rightarrow> (bool \<times> 's) option" where
  "default_toggle c s = Some (False, s)"

definition clampValue :: "'s conv_vtable \<Rightarrow> int \<Rightarrow> bool \<Rightarrow> 's \<Rightarrow> int" where
  "clampValue vt value differential s = (
     let value = (if value < v_min vt differential s then v_min vt differential s else value)
     in if v_max vt differential s < value then v_max vt differential s else value)"

fun modeFlags_loop :: "'s conv_vtable \<Rightarrow> (conv_mode \<Rightarrow> conv_mode) \<Rightarrow> nat \<Rightarrow> nat \<Rightarrow> 's \<Rightarrow> (bool \<times> 's) option" where
  "modeFlags_loop vt g i 0 s = Some (False, s)"
| "modeFlags_loop vt g i (Suc k) s = Option.bind (v_mode vt (int i) s) (\<lambda>(m, s).
     Option.bind (v_setMode vt (g m) (int i) s)
       (\<lambda>(ok, s). if \<not> ok then Some (False, s) else modeFlags_loop vt g (Suc i) k s))"

definition modeFlags_with :: "'s conv_vtable \<Rightarrow> (conv_mode \<Rightarrow> conv_mode) \<Rightarrow> int \<Rightarrow> 's \<Rightarrow> (bool \<times> 's) option" where
  "modeFlags_with vt g channel s = (
     if channel = - 1 then modeFlags_loop vt g 0 (nat (v_numberOfChannels vt s)) s
     else if 0 \<le> channel \<and> channel < v_numberOfChannels vt s
     then Option.bind (v_mode vt channel s) (\<lambda>(m, s). v_setMode vt (g m) channel s)
     else Some (False, s))"

definition setModeFlags :: "'s conv_vtable \<Rightarrow> conv_mode \<Rightarrow> conv_mode \<Rightarrow> int \<Rightarrow> 's \<Rightarrow> (bool \<times> 's) option" where
  "setModeFlags vt flags msk = modeFlags_with vt (\<lambda>m. (m AND NOT msk) OR (flags AND msk))"

definition clearModeFlags :: "'s conv_vtable \<Rightarrow> conv_mode \<Rightarrow> conv_mode \<Rightarrow> int \<Rightarrow> 's \<Rightarrow> (bool \<times> 's) option" where
  "clearModeFlags vt flags msk = modeFlags_with vt (\<lambda>m. (m AND NOT msk) AND (NOT flags AND msk))"

section \<open>The public methods\<close>

definition Converter_open :: "'s conv_vtable \<Rightarrow> u32 \<Rightarrow> 's \<Rightarrow> (bool \<times> 's) option" where
  "Converter_open vt mode s = (if v_openMode vt s = NotOpen then v_open vt mode s else Some (True, s))"

definition Converter_close :: "'s conv_vtable \<Rightarrow> 's \<Rightarrow> 's option" where
  "Converter_close vt s = (if v_openMode vt s \<noteq> NotOpen then v_close vt s else Some s)"

definition Converter_read :: "'s conv_vtable \<Rightarrow> 's \<Rightarrow> (int \<times> 's) option" where
  "Converter_read vt s = (if v_openMode vt s AND ReadOnly \<noteq> 0 then v_read vt s else Some (InvalidValue, s))"

definition Converter_write :: "'s conv_vtable \<Rightarrow> int \<Rightarrow> 's \<Rightarrow> (bool \<times> 's) option" where
  "Converter_write vt value s = (if v_openMode vt s AND WriteOnly \<noteq> 0
     then v_write vt (clampValue vt value False s) s else Some (False, s))"

definition Converter_toggle :: "'s conv_vtable \<Rightarrow> int \<Rightarrow> 's \<Rightarrow> (bool \<times> 's) option" where
  "Converter_toggle vt channel s = (if v_openMode vt s AND WriteOnly \<noteq> 0 \<and> v_type vt = GpioExpander
     then v_toggle vt channel s else Some (False, s))"

definition Converter_readChannel :: "'s conv_vtable \<Rightarrow> int \<Rightarrow> bool \<Rightarrow> 's \<Rightarrow> (int \<times> 's) option" where
  "Converter_readChannel vt channel differential s = (if v_openMode vt s AND ReadOnly \<noteq> 0
     then v_readChannel vt channel differential s else Some (InvalidValue, s))"

definition Converter_writeChannel :: "'s conv_vtable \<Rightarrow> int \<Rightarrow> int \<Rightarrow> bool \<Rightarrow> 's \<Rightarrow> (bool \<times> 's) option" where
  "Converter_writeChannel vt value channel differential s = (if v_openMode vt s AND WriteOnly \<noteq> 0
     then v_writeChannel vt (clampValue vt value differential s) channel differential s else Some (False, s))"

definition Converter_mode :: "'s conv_vtable \<Rightarrow> int \<Rightarrow> 's \<Rightarrow> (conv_mode \<times> 's) option" where
  "Converter_mode vt channel s = v_mode vt channel s"

definition Converter_setMode :: "'s conv_vtable \<Rightarrow> conv_mode \<Rightarrow> int \<Rightarrow> 's \<Rightarrow> (bool \<times> 's) option" where
  "Converter_setMode vt m channel s = v_setMode vt m channel s"

section \<open>Parameter strings and the registry\<close>

function split_str :: "string \<Rightarrow> char \<Rightarrow> bool \<Rightarrow> string list" where
  "split_str str delimiter skipEmpty = (
     let token = takeWhile (\<lambda>c. c \<noteq> delimiter) str;
       tok = (if \<not> skipEmpty \<or> token \<noteq> [] then [token] else [])
     in if delimiter \<in> set str
     then tok @ split_str (tl (dropWhile (\<lambda>c. c \<noteq> delimiter) str)) delimiter skipEmpty
     else tok)"
  by pat_completeness auto

lemma length_after_delimiter:
  "d \<in> set s \<Longrightarrow> length (tl (dropWhile (\<lambda>c. c \<noteq> d) s)) < length s"
  by (induction s) (auto intro: less_SucI)

termination split_str
  by (relation "measure (\<lambda>(s, d, k). length s)") (auto simp: length_after_delimiter simp del: length_tl)

declare split_str.simps [simp del]

fun parse_loop :: "string list \<Rightarrow> (string \<times> string) list \<Rightarrow> string list \<Rightarrow> (string \<times> string) list \<times> string list" where
  "parse_loop [] result kept = (result, kept)"
| "parse_loop (p # ps) result kept = (if CHR ''='' \<in> set p
     then parse_loop ps ((takeWhile (\<lambda>c. c \<noteq> CHR ''='') p, tl (dropWhile (\<lambda>c. c \<noteq> CHR ''='') p)) # result) kept
     else parse_loop ps result (kept @ [p]))"

definition parseParameters :: "string list \<Rightarrow> (string \<times> string) list \<times> string list" where
  "parseParameters parameters = parse_loop parameters [] []"

definition Converter_factory :: "(string \<times> (string \<Rightarrow> 'c)) list \<Rightarrow> string \<Rightarrow> string \<Rightarrow> 'c option" where
  "Converter_factory registry deviceName parameters = (
     let (name, params) = (if CHR '':'' \<in> set deviceName
       then (takeWhile (\<lambda>c. c \<noteq> CHR '':'') deviceName, tl (dropWhile (\<lambda>c. c \<noteq> CHR '':'') deviceName))
       else (deviceName, parameters))
     in map_option (\<lambda>creator. creator params) (map_of registry name))"

definition registerConverter :: "string \<Rightarrow> (string \<Rightarrow> 'c) \<Rightarrow> (string \<times> (string \<Rightarrow> 'c)) list \<Rightarrow> (string \<times> (string \<Rightarrow> 'c)) list" where
  "registerConverter deviceName creator registry = (deviceName, creator) # filter (\<lambda>(n, c). n \<noteq> deviceName) registry"

section \<open>The contract of a converter\<close>

text \<open>
  A table is a converter when its bounds are ordered and its methods keep them as they are. Every
  driver interprets the locale, so that what is proved of the public methods here holds for all.
\<close>

locale converter =
  fixes vt :: "'s conv_vtable" and inv :: "'s \<Rightarrow> bool"
  assumes bounds: "inv s \<Longrightarrow> v_min vt differential s \<le> v_max vt differential s"
begin

lemma clamp_in_range:
  "inv s \<Longrightarrow> v_min vt d s \<le> clampValue vt v d s \<and> clampValue vt v d s \<le> v_max vt d s"
  using bounds [of s d] by (simp add: clampValue_def Let_def)

lemma clamp_id: "v_min vt d s \<le> v \<Longrightarrow> v \<le> v_max vt d s \<Longrightarrow> clampValue vt v d s = v"
  by (simp add: clampValue_def Let_def)

lemma clamp_nearest:
  "inv s \<Longrightarrow> v_min vt d s \<le> w \<Longrightarrow> w \<le> v_max vt d s \<Longrightarrow> \<bar>v - clampValue vt v d s\<bar> \<le> \<bar>v - w\<bar>"
  using bounds [of s d] by (auto simp: clampValue_def Let_def)

lemma clamp_idem: "inv s \<Longrightarrow> clampValue vt (clampValue vt v d s) d s = clampValue vt v d s"
  using clamp_in_range [of s d v] by (simp add: clamp_id)

text \<open>The driver is only ever called with a value inside its bounds, and only on a writable device.\<close>

lemma writeChannel_dispatch:
  assumes "inv s"
  shows "Converter_writeChannel vt v c d s = Some (False, s) \<or>
    (v_openMode vt s AND WriteOnly \<noteq> 0 \<and> (\<exists>w. v_min vt d s \<le> w \<and> w \<le> v_max vt d s \<and>
      Converter_writeChannel vt v c d s = v_writeChannel vt w c d s))"
  using clamp_in_range [OF assms, of d v] by (auto simp: Converter_writeChannel_def)

end

section \<open>Properties\<close>

fun join :: "char \<Rightarrow> string list \<Rightarrow> string" where
  "join d [] = []"
| "join d [t] = t"
| "join d (t # ts) = t @ d # join d ts"

lemma join_Cons: "ts \<noteq> [] \<Longrightarrow> join d (t # ts) = t @ d # join d ts"
  by (cases ts) auto

lemma split_str_nonempty: "split_str s d False \<noteq> []"
  by (subst split_str.simps) (simp add: Let_def)

lemma split_str_tokens: "t \<in> set (split_str s d k) \<Longrightarrow> d \<notin> set t"
proof (induction s d k rule: split_str.induct)
  case (1 s d k)
  then show ?case
    by (subst (asm) (2) split_str.simps) (auto simp: Let_def dest: set_takeWhileD split: if_splits)
qed

lemma takeWhile_delimiter: "d \<in> set s \<Longrightarrow> takeWhile (\<lambda>c. c \<noteq> d) s @ d # tl (dropWhile (\<lambda>c. c \<noteq> d) s) = s"
  by (induction s) auto

lemma split_str_delimiter:
  "d \<in> set s \<Longrightarrow> split_str s d False = takeWhile (\<lambda>c. c \<noteq> d) s # split_str (tl (dropWhile (\<lambda>c. c \<noteq> d) s)) d False"
  by (subst split_str.simps) (simp add: Let_def)

lemma split_str_no_delimiter: "d \<notin> set s \<Longrightarrow> split_str s d False = [s]"
  by (subst split_str.simps) (auto simp: Let_def takeWhile_eq_all_conv)

lemma join_split: "join d (split_str s d False) = s"
proof (induction "length s" arbitrary: s rule: less_induct)
  case less
  then show ?case
    using length_after_delimiter [of d s]
    by (cases "d \<in> set s")
      (simp_all add: split_str_delimiter split_str_no_delimiter join_Cons split_str_nonempty takeWhile_delimiter)
qed

lemma split_skip: "split_str s d True = filter (\<lambda>t. t \<noteq> []) (split_str s d False)"
proof (induction "length s" arbitrary: s rule: less_induct)
  case less
  then show ?case
    using length_after_delimiter [of d s]
    by (subst (1 2) split_str.simps) (auto simp: Let_def)
qed

text \<open>Splitting a parameter string loses nothing: the tokens contain no delimiter and joining them gives the
  string back; with \<open>skipEmpty\<close> exactly the empty tokens are left out.\<close>

lemma split_join_roundtrip:
  "join d (split_str s d False) = s \<and> (\<forall>t. t \<in> set (split_str s d k) \<longrightarrow> d \<notin> set t) \<and>
   split_str s d True = filter (\<lambda>t. t \<noteq> []) (split_str s d False)"
  using join_split split_str_tokens split_skip by blast

lemma split_join_roundtrip_witness:
  "CHR '':'' \<notin> set ''id=2'' \<and> join CHR '':'' (split_str ''a::id=2'' CHR '':'' False) = ''a::id=2''"
proof -
  have "''id=2'' \<in> set (split_str ''a::id=2'' CHR '':'' False)" by code_simp
  then show ?thesis using split_join_roundtrip [of "CHR '':''" "''a::id=2''" False] by blast
qed

text \<open>The two tables of mode names are inverse to each other: a flag has a name exactly when that name
  reads back as the flag.\<close>

lemma mode_names_inverse:
  "map_of modeFlagToStringMap m = Some n \<longleftrightarrow> map_of stringToModeFlagMap n = Some m"
proof -
  have d: "distinct (map fst modeFlagToStringMap)" "distinct (map fst stringToModeFlagMap)"
    by (simp_all add: modeFlagToStringMap_def stringToModeFlagMap_def)
  have "set modeFlagToStringMap = (\<lambda>(n, m). (m, n)) ` set stringToModeFlagMap"
    by (simp add: modeFlagToStringMap_def stringToModeFlagMap_def insert_commute)
  then show ?thesis using d by (auto simp: map_of_eq_Some_iff)
qed

lemma modeFlags_loop_False: "modeFlags_loop vt g i k s = Some (ok, s') \<Longrightarrow> \<not> ok"
  by (induction k arbitrary: i s) (auto split: Option.bind_splits if_splits)

text \<open>On a valid channel \<open>setModeFlags\<close> asks for the mode whose bits under the mask are those of the flags and
  whose other bits are unchanged; asked for all channels (channel -1) it reports failure even when
  every channel was set.\<close>

lemma setModeFlags_merges:
  "(0 \<le> c \<and> c < v_numberOfChannels vt s \<and> v_mode vt c s = Some (old, s1) \<longrightarrow>
      (\<exists>m. setModeFlags vt flags msk c s = v_setMode vt m c s1 \<and>
        (\<forall>n. bit m n = (if bit msk n then bit flags n else bit old n)))) \<and>
   (setModeFlags vt flags msk (- 1) s = Some (ok, s') \<longrightarrow> \<not> ok)"
proof (intro conjI impI)
  assume c: "0 \<le> c \<and> c < v_numberOfChannels vt s \<and> v_mode vt c s = Some (old, s1)"
  let ?m = "(old AND NOT msk) OR (flags AND msk)"
  have "bit ?m n = (if bit msk n then bit flags n else bit old n)" for n
    by (auto simp: bit_simps dest: bit_imp_le_length)
  then show "\<exists>m. setModeFlags vt flags msk c s = v_setMode vt m c s1 \<and>
      (\<forall>n. bit m n = (if bit msk n then bit flags n else bit old n))"
    using c by (intro exI [of _ ?m]) (simp add: setModeFlags_def modeFlags_with_def)
next
  assume "setModeFlags vt flags msk (- 1) s = Some (ok, s')"
  then show "\<not> ok"
    by (auto simp: setModeFlags_def modeFlags_with_def dest: modeFlags_loop_False)
qed

text \<open>A one-channel converter that stores its mode, for concrete runs.\<close>

definition mode_cell :: "conv_mode conv_vtable" where
  "mode_cell = \<lparr>v_openMode = (\<lambda>s. ReadWrite), v_type = GpioExpander, v_flags = 0, v_open = (\<lambda>m s. Some (True, s)),
     v_close = Some, v_read = default_read, v_write = default_write, v_toggle = default_toggle,
     v_readChannel = (\<lambda>c d. default_read), v_writeChannel = (\<lambda>v c d. default_write v),
     v_numberOfChannels = (\<lambda>s. 1), v_max = (\<lambda>d s. 1), v_min = (\<lambda>d s. 0),
     v_mode = (\<lambda>c s. Some (s, s)), v_setMode = (\<lambda>m c s. Some (True, m))\<rparr>"

lemma setModeFlags_merges_witness:
  "\<exists>m. setModeFlags mode_cell ActiveLow ActiveLow 0 DigitalInput = Some (True, m) \<and> bit m 0 \<and> bit m 6"
proof -
  have "bit DigitalInput 0" "bit ActiveLow 6" "\<not> bit ActiveLow 0" by (simp_all add: bit_simps)
  then show ?thesis
    using setModeFlags_merges [of 0 mode_cell DigitalInput DigitalInput DigitalInput ActiveLow ActiveLow True DigitalInput]
    by (force simp: mode_cell_def)
qed

text \<open>\<open>clearModeFlags\<close> intersects the bits outside the mask with bits inside it: whatever the flags and the
  mask, it asks the driver for the empty mode and so clears every flag of the channel.\<close>

lemma clearModeFlags_clears_all:
  "clearModeFlags vt flags msk c s = modeFlags_with vt (\<lambda>m. NoMode) c s"
proof -
  have "(m AND NOT msk) AND (NOT flags AND msk) = NoMode" for m
    by (rule bit_word_eqI) (auto simp: bit_simps)
  then show ?thesis by (simp add: clearModeFlags_def)
qed

text \<open>A registered converter class is found by its name, with the parameters after the first colon of the
  name, or those passed separately when the name has no colon; other registrations are kept.\<close>

lemma factory_finds_registered:
  assumes "CHR '':'' \<notin> set name"
  shows "Converter_factory (registerConverter name mk reg) name ps = Some (mk ps) \<and>
    Converter_factory (registerConverter name mk reg) (name @ CHR '':'' # qs) ps = Some (mk qs) \<and>
    (other \<noteq> name \<and> CHR '':'' \<notin> set other \<longrightarrow>
      Converter_factory (registerConverter name mk reg) other ps = Converter_factory reg other ps)"
proof -
  have "takeWhile (\<lambda>c. c \<noteq> CHR '':'') (name @ CHR '':'' # qs) = name"
    "dropWhile (\<lambda>c. c \<noteq> CHR '':'') (name @ CHR '':'' # qs) = CHR '':'' # qs"
    using assms by (induction name) auto
  moreover have "map_of (filter (\<lambda>(n, c). n \<noteq> name) reg) other = map_of reg other" if "other \<noteq> name"
    using that by (induction reg) auto
  ultimately show ?thesis
    using assms by (auto simp: Converter_factory_def registerConverter_def)
qed

lemma factory_finds_registered_witness:
  "Converter_factory (registerConverter ''max7311'' (\<lambda>p. p) []) ''max7311:1:0x20'' [] = Some ''1:0x20''"
  using factory_finds_registered [of "''max7311''" "\<lambda>p. p" "[]" "[]" "''1:0x20''"] by simp

end
