(* ===== verification/I2cDriver.thy ===== *)
theory I2cDriver
  imports I2cDev Converter "HOL-Library.Monad_Syntax"
begin

text \<open>
  What the drivers of the converters on the I2C bus share: reading numbers from a parameter string
  (\<open>std::stoi\<close>), the parameters \<open>bus\<close> and \<open>addr\<close> of their constructors, and how one frame is sent to and
  received from a chip.
\<close>

section \<open>Numbers in parameter strings\<close>

text \<open>\<open>std::stoi\<close> with its default base ten: leading white space, a sign, and as many digits as there are; it
  ignores the rest, and throws without a digit or when the value is no \<open>int\<close>.\<close>

definition isspace :: "char \<Rightarrow> bool" where
  "isspace c \<longleftrightarrow> c \<in> {CHR '' '', CHR 0x09, CHR 0x0A, CHR 0x0B, CHR 0x0C, CHR 0x0D}"

definition isdigit :: "char \<Rightarrow> bool" where
  "isdigit c \<longleftrightarrow> 48 \<le> (of_char c :: nat) \<and> (of_char c :: nat) \<le> 57"

definition digits_value :: "string \<Rightarrow> int" where
  "digits_value ds = foldl (\<lambda>n c. 10 * n + (of_char c - 48)) 0 ds"

definition stoi :: "string \<Rightarrow> int res" where
  "stoi str = (let s = dropWhile isspace str;
     neg = (s \<noteq> [] \<and> hd s = CHR ''-'');
     s = (if s \<noteq> [] \<and> hd s \<in> {CHR ''-'', CHR ''+''} then tl s else s);
     ds = takeWhile isdigit s;
     v = (if neg then - digits_value ds else digits_value ds)
   in if ds = [] then Inl Invalid_argument
   else if - (2 ^ 31) \<le> v \<and> v < 2 ^ 31 then Inr v else Inl Out_of_range)"

text \<open>An optional parameter that is read by \<open>stoi\<close>, with the value used when the text after \<open>=\<close> is empty.\<close>

definition int_parameter :: "string \<Rightarrow> int \<Rightarrow> (string \<times> string) list \<Rightarrow> int option res" where
  "int_parameter key dflt params = (case map_of params key of None \<Rightarrow> Inr None
     | Some str \<Rightarrow> if str = [] then Inr (Some dflt) else map_sum id Some (stoi str))"

text \<open>The parameters \<open>bus\<close> and \<open>addr\<close>: the bus is changed by \<open>I2cDev::setBus\<close>, the address becomes a \<open>uint16_t\<close>.\<close>

definition bus_parameter :: "'e i2c_os \<Rightarrow> (int \<Rightarrow> string) \<Rightarrow> (string \<times> string) list \<Rightarrow> i2cdev \<times> 'e \<Rightarrow> (i2cdev \<times> 'e) res" where
  "bus_parameter os busPath params s = (case int_parameter ''bus'' 0 params of Inl x \<Rightarrow> Inl x
     | Inr None \<Rightarrow> Inr s | Inr (Some busId) \<Rightarrow> Inr (I2cDev_setBusId os busPath busId s))"

definition addr_parameter :: "int \<Rightarrow> u16 \<Rightarrow> (string \<times> string) list \<Rightarrow> u16 res" where
  "addr_parameter dflt addr params = (case int_parameter ''addr'' dflt params of Inl x \<Rightarrow> Inl x
     | Inr None \<Rightarrow> Inr addr | Inr (Some i) \<Rightarrow> Inr (of_int i))"

text \<open>The map of parameters a driver builds from the string it is constructed with.\<close>

abbreviation (input) paramsMap :: "string \<Rightarrow> (string \<times> string) list" where
  "paramsMap params \<equiv> fst (parseParameters (split_str params CHR '':'' False))"

text \<open>A number written in hexadecimal, as the documentation of the drivers writes addresses, reads as zero: the
  digits end at the \<open>x\<close>.\<close>

lemma stoi_hex: "stoi (CHR ''0'' # CHR ''x'' # s) = Inr 0"
  by (simp add: stoi_def isspace_def isdigit_def digits_value_def Let_def)

lemma addr_parameter_hex:
  "map_of params ''addr'' = Some (CHR ''0'' # CHR ''x'' # s) \<Longrightarrow> addr_parameter dflt addr params = Inr 0"
  by (simp add: addr_parameter_def int_parameter_def stoi_hex)

section \<open>Frames\<close>

lemma send_frame:
  assumes ready: "i2c_ready b" and law: "rdwr_law os" and len: "length msg < I2C_BLOCK_MAX"
    and sys: "sys_i2c_rdwr os (fd b) [XWrite a msg] e = (ret, err, ins, e')"
  shows "\<exists>b1 b2 b3. I2cDev_beginTransmission a b = Some b1 \<and> I2cDev_write msg b1 = Some (int (length msg), b2) \<and>
    I2cDev_endTransmission os True (b2, e) = (0 \<le> ret, b3, e') \<and> i2c_ready b3 \<and> same_bus b b3"
proof -
  obtain b1 where b1: "I2cDev_beginTransmission a b = Some b1" "i2c_writing a [] b1" "same_bus b b1"
    using begin_ready [OF ready] by blast
  obtain b2 where b2: "I2cDev_write msg b1 = Some (int (length msg), b2)" "i2c_writing a msg b2" "same_bus b1 b2"
    using write_writing [OF b1(2), of msg] len by auto
  have "fd b2 = fd b" using b1(3) b2(3) by (simp add: same_bus_def)
  then obtain b3 where b3: "I2cDev_endTransmission os True (b2, e) = (0 \<le> ret, b3, e')" "i2c_ready b3" "same_bus b2 b3"
    using end_stop [OF b2(2) law, of e ret err ins e'] sys by auto
  have "same_bus b b3" using b1(3) b2(3) b3(3) by (simp add: same_bus_def)
  then show ?thesis using b1(1) b2(1) b3 by blast
qed

lemma send_byte:
  assumes ready: "i2c_ready b" and law: "rdwr_law os"
    and sys: "sys_i2c_rdwr os (fd b) [XWrite a [x]] e = (ret, err, ins, e')"
  shows "\<exists>b1 b2 b3 r. I2cDev_beginTransmission a b = Some b1 \<and> I2cDev_write1 x b1 = Some (r, b2) \<and>
    I2cDev_endTransmission os True (b2, e) = (0 \<le> ret, b3, e') \<and> i2c_ready b3 \<and> same_bus b b3"
proof -
  obtain b1 where b1: "I2cDev_beginTransmission a b = Some b1" "i2c_writing a [] b1" "same_bus b b1"
    using begin_ready [OF ready] by blast
  obtain b2 where b2: "I2cDev_write1 x b1 = Some (0, b2)" "i2c_writing a [x] b2" "same_bus b1 b2"
    using write1_writing [OF b1(2), of x] by (auto simp: I2C_BLOCK_MAX_def)
  have "fd b2 = fd b" using b1(3) b2(3) by (simp add: same_bus_def)
  then obtain b3 where b3: "I2cDev_endTransmission os True (b2, e) = (0 \<le> ret, b3, e')" "i2c_ready b3" "same_bus b2 b3"
    using end_stop [OF b2(2) law, of e ret err ins e'] sys by auto
  have "same_bus b b3" using b1(3) b2(3) b3(3) by (simp add: same_bus_def)
  then show ?thesis using b1(1) b2(1) b3 by blast
qed

lemma receive_frame:
  assumes ready: "i2c_ready b" and law: "rdwr_law os" and n: "n < I2C_BLOCK_MAX"
    and sys: "sys_i2c_rdwr os (fd b) [XRead a n] e = (ret, err, [bs], e')" and ret: "0 \<le> ret"
  shows "\<exists>b1 b2. I2cDev_requestFrom os a n True (b, e) = Some (int n, b1, e') \<and> length bs = n \<and>
    I2cDev_available b1 = n \<and> I2cDev_read n b1 = Some (bs, b2) \<and> i2c_ready b2 \<and> same_bus b b2 \<and>
    fifo_inv (rxbuf b1) \<and> fifo_bytes (rxbuf b1) = bs \<and> i2c_ready b1 \<and> same_bus b b1"
proof -
  have "i2c_pending [] b" using ready by (simp add: i2c_pending_def)
  from request_ok [OF this law n, of a e ret err "[bs]" e'] sys ret
  obtain b1 where b1: "length bs = n" "I2cDev_requestFrom os a n True (b, e) = Some (int n, b1, e')"
    "i2c_ready b1" "same_bus b b1" "fifo_inv (rxbuf b1)" "fifo_bytes (rxbuf b1) = bs" by auto
  obtain b2 where b2: "I2cDev_read n b1 = Some (bs, b2)" "same_bus b1 b2" "i2c_ready b2"
    using read_all [OF b1(5,6)] b1(1,3) by auto
  have "I2cDev_available b1 = n"
    using b1 by (auto simp: I2cDev_available_def fifo_bytes_def fifo_inv_def)
  moreover have "same_bus b b2" using b1(4) b2(2) by (simp add: same_bus_def)
  ultimately show ?thesis using b1 b2 by blast
qed

end
