(* ===== verification/Max7311.thy ===== *)
theory Max7311
  imports I2cDriver
begin

text \<open>
  The driver of the MAX7311 GPIO expander (\<open>src/ext/max7311.cpp\<close>, \<open>src/ext/max7311_p.h\<close>), a converter on
  the I2C bus. The state is the object (which owns its bus) with the kernel environment; every
  method is a function of the kernel \<open>os\<close>. Debug output is left out. A shift by 32 or more is undefined
  and has the value \<open>None\<close>.

  The chip is the predicate \<open>max7311_chip\<close>: a bank of nine byte registers that a message writes from the
  register its first byte names, and that a request reads from the register written before. With it
  the properties speak of the pins and not of the messages.
\<close>

section \<open>Registers and state\<close>

abbreviation (input) InputPort1Reg :: u8 where "InputPort1Reg \<equiv> 0"
abbreviation (input) OutputPort1Reg :: u8 where "OutputPort1Reg \<equiv> 2"
abbreviation (input) Polarity1Reg :: u8 where "Polarity1Reg \<equiv> 4"
abbreviation (input) Config1Reg :: u8 where "Config1Reg \<equiv> 6"
abbreviation (input) TimeoutReg :: u8 where "TimeoutReg \<equiv> 8"
abbreviation (input) NofRegisters :: nat where "NofRegisters \<equiv> 9"

record max7311_regs =
  r_input :: "u8 list"
  r_output :: "u8 list"
  r_polarity :: "u8 list"
  r_config :: "u8 list"
  r_timeout :: u8

record max7311 = iodevice +
  m73_i2c :: i2cdev
  m73_addr :: u16
  m73_isConnected :: bool
  m73_busTimeout :: bool
  m73_regs :: max7311_regs

definition max7311_new :: "i2cdev \<Rightarrow> u16 \<Rightarrow> max7311" where
  "max7311_new dev address = iodevice.extend iodevice_new \<lparr>m73_i2c = dev, m73_addr = address, m73_isConnected = False,
     m73_busTimeout = True, m73_regs = \<lparr>r_input = [0, 0], r_output = [0, 0], r_polarity = [0, 0], r_config = [0, 0],
       r_timeout = 0\<rparr>\<rparr>"

text \<open>The constructor from a parameter string, on a new bus object \<open>dev\<close>.\<close>

definition Max7311_new_params :: "'e i2c_os \<Rightarrow> (int \<Rightarrow> string) \<Rightarrow> i2cdev \<Rightarrow> string \<Rightarrow> 'e \<Rightarrow> (max7311 \<times> 'e) res" where
  "Max7311_new_params os busPath dev params e = (let m = paramsMap params in
     rbind (bus_parameter os busPath m (dev, e)) (\<lambda>(dev, e).
     rbind (addr_parameter 0x20 0x20 m) (\<lambda>addr.
     Inr ((max7311_new dev addr)\<lparr>m73_busTimeout := map_of m ''bustimeout'' \<notin> {Some ''false'', Some ''0''}\<rparr>, e))))"

type_synonym 'e m73_st = "max7311 \<times> 'e"

text \<open>Short-circuit conjunction of two methods.\<close>

definition andalso :: "('s \<Rightarrow> (bool \<times> 's) option) \<Rightarrow> ('s \<Rightarrow> (bool \<times> 's) option) \<Rightarrow> 's \<Rightarrow> (bool \<times> 's) option" where
  "andalso f g s = do { (ok, s) \<leftarrow> f s; if ok then g s else Some (False, s) }"

section \<open>Register transfers\<close>

definition Max7311_readRegister :: "'e i2c_os \<Rightarrow> u8 \<Rightarrow> nat \<Rightarrow> 'e m73_st \<Rightarrow> (int \<times> u8 list \<times> 'e m73_st) option" where
  "Max7311_readRegister os reg max_len = (\<lambda>(d, e).
     if IoDevice_isOpen (m73_i2c d) \<and> reg \<le> TimeoutReg then do {
       let max_len = min max_len (NofRegisters - unat reg);
       b \<leftarrow> I2cDev_beginTransmission (m73_addr d) (m73_i2c d);
       (_, b) \<leftarrow> I2cDev_write1 reg b;
       let (ok, b, e) = I2cDev_endTransmission os False (b, e);
       if ok then do {
         (r, b, e) \<leftarrow> I2cDev_requestFrom os (m73_addr d) max_len True (b, e);
         if 0 \<le> r then do {
           let bytesRead = I2cDev_available b;
           (bs, b) \<leftarrow> I2cDev_read (min bytesRead max_len) b;
           Some (int bytesRead, bs, d\<lparr>m73_i2c := b, m73_isConnected := True\<rparr>, e)
         } else Some (- 1, [], d\<lparr>m73_i2c := b\<rparr>, e)
       } else Some (- 1, [], d\<lparr>m73_i2c := b\<rparr>, e)
     } else Some (- 1, [], d, e))"

definition Max7311_writeRegister :: "'e i2c_os \<Rightarrow> u8 \<Rightarrow> u8 list \<Rightarrow> 'e m73_st \<Rightarrow> (int \<times> 'e m73_st) option" where
  "Max7311_writeRegister os reg data = (\<lambda>(d, e).
     if IoDevice_isOpen (m73_i2c d) then do {
       let len = min (length data) (NofRegisters - unat reg);
       b \<leftarrow> I2cDev_beginTransmission (m73_addr d) (m73_i2c d);
       (_, b) \<leftarrow> I2cDev_write1 reg b;
       (_, b) \<leftarrow> I2cDev_write (take len data) b;
       let (ok, b, e) = I2cDev_endTransmission os True (b, e);
       if ok then Some (int len, d\<lparr>m73_i2c := b, m73_isConnected := True\<rparr>, e)
       else Some (- 1, d\<lparr>m73_i2c := b\<rparr>, e)
     } else Some (- 1, d, e))"

text \<open>
  A read of a bank stores the bytes at position \<open>index\<close> of its shadow registers; \<open>get\<close> and \<open>put\<close> select
  the bank.
\<close>

definition port_range :: "nat \<Rightarrow> nat \<Rightarrow> bool" where
  "port_range index nb \<longleftrightarrow> index \<le> 1 \<and> 0 < nb \<and> index + nb \<le> 2"

definition Max7311_readBank :: "'e i2c_os \<Rightarrow> u8 \<Rightarrow> ((u8 list \<Rightarrow> u8 list) \<Rightarrow> max7311_regs \<Rightarrow> max7311_regs) \<Rightarrow>
    nat \<Rightarrow> nat \<Rightarrow> 'e m73_st \<Rightarrow> (bool \<times> 'e m73_st) option" where
  "Max7311_readBank os base put index nb s = (if port_range index nb then do {
     (n, bs, d, e) \<leftarrow> Max7311_readRegister os (base + of_nat index) nb s;
     Some (n = int nb, d\<lparr>m73_regs := put (memcpy index bs) (m73_regs d)\<rparr>, e)
   } else Some (False, s))"

definition Max7311_writeBank :: "'e i2c_os \<Rightarrow> u8 \<Rightarrow> (max7311_regs \<Rightarrow> u8 list) \<Rightarrow> nat \<Rightarrow> nat \<Rightarrow> 'e m73_st \<Rightarrow> (bool \<times> 'e m73_st) option" where
  "Max7311_writeBank os base get index nb s = (if port_range index nb then do {
     (n, s) \<leftarrow> Max7311_writeRegister os (base + of_nat index) (take nb (drop index (get (m73_regs (fst s))))) s;
     Some (n = int nb, s)
   } else Some (False, s))"

definition Max7311_readInputPorts :: "'e i2c_os \<Rightarrow> nat \<Rightarrow> nat \<Rightarrow> 'e m73_st \<Rightarrow> (bool \<times> 'e m73_st) option" where
  "Max7311_readInputPorts os = Max7311_readBank os InputPort1Reg r_input_update"

definition Max7311_readOutputPorts :: "'e i2c_os \<Rightarrow> nat \<Rightarrow> nat \<Rightarrow> 'e m73_st \<Rightarrow> (bool \<times> 'e m73_st) option" where
  "Max7311_readOutputPorts os = Max7311_readBank os OutputPort1Reg r_output_update"

definition Max7311_writeOutputPorts :: "'e i2c_os \<Rightarrow> nat \<Rightarrow> nat \<Rightarrow> 'e m73_st \<Rightarrow> (bool \<times> 'e m73_st) option" where
  "Max7311_writeOutputPorts os = Max7311_writeBank os OutputPort1Reg r_output"

definition Max7311_readPolarityInversion :: "'e i2c_os \<Rightarrow> nat \<Rightarrow> nat \<Rightarrow> 'e m73_st \<Rightarrow> (bool \<times> 'e m73_st) option" where
  "Max7311_readPolarityInversion os = Max7311_readBank os Polarity1Reg r_polarity_update"

definition Max7311_writePolarityInversion :: "'e i2c_os \<Rightarrow> nat \<Rightarrow> nat \<Rightarrow> 'e m73_st \<Rightarrow> (bool \<times> 'e m73_st) option" where
  "Max7311_writePolarityInversion os = Max7311_writeBank os Polarity1Reg r_polarity"

definition Max7311_readConfiguration :: "'e i2c_os \<Rightarrow> nat \<Rightarrow> nat \<Rightarrow> 'e m73_st \<Rightarrow> (bool \<times> 'e m73_st) option" where
  "Max7311_readConfiguration os = Max7311_readBank os Config1Reg r_config_update"

definition Max7311_writeConfiguration :: "'e i2c_os \<Rightarrow> nat \<Rightarrow> nat \<Rightarrow> 'e m73_st \<Rightarrow> (bool \<times> 'e m73_st) option" where
  "Max7311_writeConfiguration os = Max7311_writeBank os Config1Reg r_config"

definition Max7311_readTimeout :: "'e i2c_os \<Rightarrow> 'e m73_st \<Rightarrow> (bool \<times> 'e m73_st) option" where
  "Max7311_readTimeout os s = do {
     (n, bs, d, e) \<leftarrow> Max7311_readRegister os TimeoutReg 1 s;
     Some (n = 1, (case bs of [] \<Rightarrow> d | b # _ \<Rightarrow> d\<lparr>m73_regs := (m73_regs d)\<lparr>r_timeout := b\<rparr>\<rparr>), e) }"

definition Max7311_writeTimeout :: "'e i2c_os \<Rightarrow> 'e m73_st \<Rightarrow> (bool \<times> 'e m73_st) option" where
  "Max7311_writeTimeout os s = do {
     (n, s) \<leftarrow> Max7311_writeRegister os TimeoutReg [r_timeout (m73_regs (fst s))] s;
     Some (n = 1, s) }"

definition Max7311_readAllRegisters :: "'e i2c_os \<Rightarrow> 'e m73_st \<Rightarrow> (bool \<times> 'e m73_st) option" where
  "Max7311_readAllRegisters os = andalso (Max7311_readInputPorts os 0 2) (andalso (Max7311_readOutputPorts os 0 2)
     (andalso (Max7311_readPolarityInversion os 0 2) (andalso (Max7311_readConfiguration os 0 2) (Max7311_readTimeout os))))"

definition Max7311_writeSetup :: "'e i2c_os \<Rightarrow> nat \<Rightarrow> nat \<Rightarrow> 'e m73_st \<Rightarrow> (bool \<times> 'e m73_st) option" where
  "Max7311_writeSetup os index nb = andalso (Max7311_writePolarityInversion os index nb) (Max7311_writeConfiguration os index nb)"

definition Max7311_readSetup :: "'e i2c_os \<Rightarrow> nat \<Rightarrow> nat \<Rightarrow> 'e m73_st \<Rightarrow> (bool \<times> 'e m73_st) option" where
  "Max7311_readSetup os index nb = andalso (Max7311_readPolarityInversion os index nb) (Max7311_readConfiguration os index nb)"

section \<open>The methods of the converter\<close>

text \<open>
  \<open>uint8_t index = channel / 8\<close> and \<open>uint8_t bit = channel % 8\<close>, with the truncating division of C and
  the conversion to eight bits; \<open>1 << bit\<close> is defined below 32.
\<close>

definition channel_index :: "int \<Rightarrow> nat" where
  "channel_index c = nat ((c sdiv 8) mod 256)"

definition channel_bit :: "int \<Rightarrow> nat" where
  "channel_bit c = nat ((c smod 8) mod 256)"

definition shl_one :: "nat \<Rightarrow> u8 option" where
  "shl_one b = (if b < 32 then Some (push_bit b 1) else None)"

definition update_regs :: "(max7311_regs \<Rightarrow> max7311_regs) \<Rightarrow> 'e m73_st \<Rightarrow> 'e m73_st" where
  "update_regs g = (\<lambda>(d, e). (d\<lparr>m73_regs := g (m73_regs d)\<rparr>, e))"

definition Max7311_open :: "'e i2c_os \<Rightarrow> int \<Rightarrow> u32 \<Rightarrow> 'e m73_st \<Rightarrow> (bool \<times> 'e m73_st) option" where
  "Max7311_open os errno mode = (\<lambda>(d, e).
     let (opened, b, e) = I2cDev_open os mode (m73_i2c d, e); d = d\<lparr>m73_i2c := b\<rparr> in
     if opened then do {
       (ok, d, e) \<leftarrow> Max7311_readAllRegisters os (d, e);
       if ok then do {
         let d = d\<lparr>m73_regs := (m73_regs d)\<lparr>r_timeout := (if m73_busTimeout d then 1 else 0)\<rparr>\<rparr>;
         (_, d, e) \<leftarrow> Max7311_writeSetup os 0 2 (d, e);
         let (r, d) = IoDevice_Private_open mode (d\<lparr>m73_isConnected := True\<rparr>);
         Some (r, d, e)
       } else Some (False, d, e)
     } else Some (False, (if io_error b \<noteq> 0 then IoDevice_setError (sys_strerror os) errno d
         else IoDevice_setError_code (sys_strerror os) ENODEV d)\<lparr>m73_isConnected := False\<rparr>, e))"

definition Max7311_close :: "'e m73_st \<Rightarrow> 'e m73_st option" where
  "Max7311_close = (\<lambda>(d, e). Some (IoDevice_Private_close d, e))"

definition Max7311_read :: "'e i2c_os \<Rightarrow> 'e m73_st \<Rightarrow> (int \<times> 'e m73_st) option" where
  "Max7311_read os s = do {
     (ok, d, e) \<leftarrow> Max7311_readInputPorts os 0 2 s;
     Some (if ok then uint (r_input (m73_regs d) ! 1) * 256 + uint (r_input (m73_regs d) ! 0) else InvalidValue, d, e) }"

definition Max7311_readChannel :: "'e i2c_os \<Rightarrow> int \<Rightarrow> bool \<Rightarrow> 'e m73_st \<Rightarrow> (int \<times> 'e m73_st) option" where
  "Max7311_readChannel os channel differential s = do {
     let index = channel_index channel;
     (ok, d, e) \<leftarrow> Max7311_readInputPorts os index 1 s;
     if ok then do {
       let b = channel_bit channel;
       if b < 32 then Some (uint (drop_bit b (r_input (m73_regs d) ! index) AND 1), d, e) else None
     } else Some (InvalidValue, d, e) }"

definition Max7311_write :: "'e i2c_os \<Rightarrow> int \<Rightarrow> 'e m73_st \<Rightarrow> (bool \<times> 'e m73_st) option" where
  "Max7311_write os v s = Max7311_writeOutputPorts os 0 2
     (update_regs (\<lambda>r. r\<lparr>r_output := [of_int v, of_int (v div 256)]\<rparr>) s)"

definition Max7311_toggle :: "'e i2c_os \<Rightarrow> int \<Rightarrow> 'e m73_st \<Rightarrow> (bool \<times> 'e m73_st) option" where
  "Max7311_toggle os channel s = (if 0 \<le> channel then
     let index = channel_index channel in
     if index \<le> 1 then do {
       (ok, s) \<leftarrow> Max7311_readOutputPorts os index 1 s;
       if ok then do {
         m \<leftarrow> shl_one (channel_bit channel);
         Max7311_writeOutputPorts os index 1 
           (update_regs (\<lambda>r. r\<lparr>r_output := (r_output r)[index := r_output r ! index XOR m]\<rparr>) s)
       } else Some (False, s)
     } else Some (False, s)
   else do {
     (ok, s) \<leftarrow> Max7311_readOutputPorts os 0 2 s;
     if ok then Max7311_writeOutputPorts os 0 2 
       (update_regs (\<lambda>r. r\<lparr>r_output := [r_output r ! 0 XOR 0xFF, r_output r ! 1 XOR 0xFF]\<rparr>) s)
     else Some (False, s) })"

definition Max7311_writeChannel :: "'e i2c_os \<Rightarrow> int \<Rightarrow> int \<Rightarrow> bool \<Rightarrow> 'e m73_st \<Rightarrow> (bool \<times> 'e m73_st) option" where
  "Max7311_writeChannel os v channel differential s = (
     let index = channel_index channel in
     if index \<le> 1 then do {
       m \<leftarrow> shl_one (channel_bit channel);
       Max7311_writeOutputPorts os index 1 (update_regs (\<lambda>r. r\<lparr>r_output := (r_output r)[index :=
         (if v \<noteq> 0 then r_output r ! index OR m else r_output r ! index AND NOT m)]\<rparr>) s)
     } else Some (False, s))"

definition Max7311_mode :: "'e i2c_os \<Rightarrow> int \<Rightarrow> 'e m73_st \<Rightarrow> (conv_mode \<times> 'e m73_st) option" where
  "Max7311_mode os channel s = (
     let index = channel_index channel in
     if index \<le> 1 then do {
       (ok, d, e) \<leftarrow> Max7311_readSetup os index 1 s;
       if ok then do {
         m \<leftarrow> shl_one (channel_bit channel);
         Some ((if r_config (m73_regs d) ! index AND m = 0 then DigitalOutput else DigitalInput OR PullUp) OR
           (if r_polarity (m73_regs d) ! index AND m \<noteq> 0 then ActiveLow else NoMode), d, e)
       } else Some (NoMode, d, e)
     } else Some (NoMode, s))"

definition Max7311_setMode :: "'e i2c_os \<Rightarrow> conv_mode \<Rightarrow> int \<Rightarrow> 'e m73_st \<Rightarrow> (bool \<times> 'e m73_st) option" where
  "Max7311_setMode os m channel s = (
     if m AND NOT (DigitalOutput OR DigitalInput OR ActiveLow) \<noteq> 0 then Some (False, s)
     else if m AND DigitalOutput \<noteq> 0 \<and> m AND DigitalInput \<noteq> 0 then Some (False, s)
     else if 0 \<le> channel then
       let index = channel_index channel in
       if index \<le> 1 then do {
         (ok, s) \<leftarrow> Max7311_readSetup os index 1 s;
         if ok then do {
           k \<leftarrow> shl_one (channel_bit channel);
           let s = update_regs (\<lambda>r. r\<lparr>r_config := (r_config r)[index :=
             (if m AND DigitalOutput \<noteq> 0 then r_config r ! index AND NOT k
              else if m AND DigitalInput \<noteq> 0 then r_config r ! index OR k else r_config r ! index)]\<rparr>) s;
           let s = update_regs (\<lambda>r. r\<lparr>r_polarity := (r_polarity r)[index :=
             (if m AND ActiveLow \<noteq> 0 then r_polarity r ! index OR k else r_polarity r ! index AND NOT k)]\<rparr>) s;
           Max7311_writeSetup os index 1 s
         } else Some (False, s)
       } else Some (False, s)
     else
       let s = update_regs (\<lambda>r. r\<lparr>r_config := (if m AND DigitalOutput \<noteq> 0 then [0, 0]
           else if m AND DigitalInput \<noteq> 0 then [0xFF, 0xFF] else r_config r)\<rparr>) s;
         s = update_regs (\<lambda>r. r\<lparr>r_polarity := (if m AND ActiveLow \<noteq> 0 then [0xFF, 0xFF] else [0, 0])\<rparr>) s
       in Max7311_writeSetup os 0 2 s)"

definition Max7311_vtable :: "'e i2c_os \<Rightarrow> int \<Rightarrow> 'e m73_st conv_vtable" where
  "Max7311_vtable os errno = \<lparr>v_openMode = (\<lambda>s. openMode (fst s)), v_type = GpioExpander, v_flags = 0x3014,
     v_open = Max7311_open os errno, v_close = Max7311_close, v_read = Max7311_read os, v_write = Max7311_write os,
     v_toggle = Max7311_toggle os, v_readChannel = Max7311_readChannel os, v_writeChannel = Max7311_writeChannel os,
     v_numberOfChannels = (\<lambda>s. 16), v_max = (\<lambda>d s. 2 ^ 16 - 1), v_min = (\<lambda>d s. 0),
     v_mode = Max7311_mode os, v_setMode = Max7311_setMode os\<rparr>"

section \<open>The chip behind the bus\<close>

text \<open>
  \<open>chip e\<close> is the content of the nine registers. The two input registers follow the pins and may change
  at any time; the others change only by writes.
\<close>

definition holds_regs :: "u8 list \<Rightarrow> u8 list \<Rightarrow> bool" where
  "holds_regs rs rs' \<longleftrightarrow> length rs' = 9 \<and> drop 2 rs' = drop 2 rs"

definition max7311_chip :: "'e i2c_os \<Rightarrow> u16 \<Rightarrow> ('e \<Rightarrow> u8 list) \<Rightarrow> bool" where
  "max7311_chip os a chip \<longleftrightarrow> rdwr_law os \<and> (\<forall>e. length (chip e) = 9) \<and>
     (\<forall>f reg data e. 2 \<le> unat reg \<and> unat reg + length data \<le> 9 \<longrightarrow>
       (\<exists>ret err ins e'. sys_i2c_rdwr os f [XWrite a (reg # data)] e = (ret, err, ins, e') \<and> 0 \<le> ret \<and>
         holds_regs (memcpy (unat reg) data (chip e)) (chip e'))) \<and>
     (\<forall>f reg n e. unat reg + n \<le> 9 \<longrightarrow>
       (\<exists>ret err e'. sys_i2c_rdwr os f [XWrite a [reg], XRead a n] e
           = (ret, err, [take n (drop (unat reg) (chip e))], e') \<and> 0 \<le> ret \<and> holds_regs (chip e) (chip e')))"

definition m73_ok :: "u16 \<Rightarrow> 'e m73_st \<Rightarrow> bool" where
  "m73_ok a = (\<lambda>(d, e). i2c_ready (m73_i2c d) \<and> m73_addr d = a \<and> length (r_input (m73_regs d)) = 2 \<and>
     length (r_output (m73_regs d)) = 2 \<and> length (r_polarity (m73_regs d)) = 2 \<and> length (r_config (m73_regs d)) = 2)"

text \<open>The part of the object that a transfer leaves alone.\<close>

definition same_m73 :: "max7311 \<Rightarrow> max7311 \<Rightarrow> bool" where
  "same_m73 d d' \<longleftrightarrow> openMode d' = openMode d \<and> m73_regs d' = m73_regs d"

lemma m73_i2c_update_openMode [simp]: "openMode (d\<lparr>m73_i2c := b\<rparr>) = openMode (d :: max7311)"
  by (cases d) simp

lemma m73_ok_open: "m73_ok a (d, e) \<Longrightarrow> openMode (m73_i2c d) \<noteq> NotOpen"
  by (simp add: m73_ok_def i2c_ready_def)

lemma readRegister_chip:
  assumes chip: "max7311_chip os a chip" and ok: "m73_ok a (d, e)" and n: "unat reg + n \<le> 9" "0 < n"
  shows "\<exists>d' e'. Max7311_readRegister os reg n (d, e) = Some (int n, take n (drop (unat reg) (chip e)), d', e') \<and>
    m73_ok a (d', e') \<and> same_m73 d d' \<and> holds_regs (chip e) (chip e')"
proof -
  let ?b = "m73_i2c d"
  have ready: "i2c_ready ?b" and a: "m73_addr d = a" using ok by (auto simp: m73_ok_def)
  have law: "rdwr_law os" and len: "length (chip e) = 9" using chip by (auto simp: max7311_chip_def)
  obtain b1 where b1: "I2cDev_beginTransmission a ?b = Some b1" "i2c_writing a [] b1" "same_bus ?b b1"
    using begin_ready [OF ready] by blast
  obtain b2 where b2: "I2cDev_write1 reg b1 = Some (0, b2)" "i2c_writing a [reg] b2" "same_bus b1 b2"
    using write1_writing [OF b1(2), of reg] by (auto simp: I2C_BLOCK_MAX_def)
  obtain b3 where b3: "I2cDev_endTransmission os False (b2, e) = (True, b3, e)" "i2c_queued a [reg] b3" "same_bus b2 b3"
    using end_queue [OF b2(2), of os e] by auto
  have p: "i2c_pending [XWrite a [reg]] b3" using b3(2) by (auto simp: i2c_pending_def)
  obtain ret err e' where sys: "sys_i2c_rdwr os (fd b3) [XWrite a [reg], XRead a n] e
      = (ret, err, [take n (drop (unat reg) (chip e))], e')" "0 \<le> ret" "holds_regs (chip e) (chip e')"
    using chip n unfolding max7311_chip_def by blast
  have nb: "n < I2C_BLOCK_MAX" using n by (simp add: I2C_BLOCK_MAX_def)
  obtain b4 bs where b4: "[take n (drop (unat reg) (chip e))] = [bs]" "length bs = n"
    "I2cDev_requestFrom os a n True (b3, e) = Some (int n, b4, e')"
    "i2c_ready b4" "same_bus b3 b4" "fifo_inv (rxbuf b4)" "fifo_bytes (rxbuf b4) = bs"
    using request_ok [OF p law nb _ sys(2), of a e err "[take n (drop (unat reg) (chip e))]" e'] sys(1) by auto
  obtain b5 where b5: "I2cDev_read n b4 = Some (bs, b5)" "same_bus b4 b5" "i2c_ready b5"
    using read_all [OF b4(6,7)] b4(2,4) by auto
  have av: "I2cDev_available b4 = n"
    using b4(2,6,7) by (auto simp: I2cDev_available_def fifo_bytes_def fifo_inv_def)
  have r: "reg \<le> TimeoutReg" "n \<le> NofRegisters - unat reg"
    using n by (auto simp: word_le_nat_alt)
  let ?d' = "d\<lparr>m73_i2c := b5, m73_isConnected := True\<rparr>"
  have "Max7311_readRegister os reg n (d, e) = Some (int n, bs, ?d', e')"
    using b1(1) b2(1) b3(1) b4(3) b5(1) av r m73_ok_open [OF ok] a
    by (simp add: Max7311_readRegister_def min_absorb1)
  then show ?thesis
    using b4(1) b5(3) ok sys(3) by (auto simp: m73_ok_def same_m73_def)
qed

lemma writeRegister_chip:
  assumes chip: "max7311_chip os a chip" and ok: "m73_ok a (d, e)" and n: "2 \<le> unat reg" "unat reg + length data \<le> 9"
  shows "\<exists>d' e'. Max7311_writeRegister os reg data (d, e) = Some (int (length data), d', e') \<and>
    m73_ok a (d', e') \<and> same_m73 d d' \<and> holds_regs (memcpy (unat reg) data (chip e)) (chip e')"
proof -
  let ?b = "m73_i2c d"
  have ready: "i2c_ready ?b" and a: "m73_addr d = a" using ok by (auto simp: m73_ok_def)
  have law: "rdwr_law os" using chip by (auto simp: max7311_chip_def)
  obtain b1 where b1: "I2cDev_beginTransmission a ?b = Some b1" "i2c_writing a [] b1" "same_bus ?b b1"
    using begin_ready [OF ready] by blast
  obtain b2 where b2: "I2cDev_write1 reg b1 = Some (0, b2)" "i2c_writing a [reg] b2" "same_bus b1 b2"
    using write1_writing [OF b1(2), of reg] by (auto simp: I2C_BLOCK_MAX_def)
  obtain b3 where b3: "I2cDev_write data b2 = Some (int (length data), b3)" "i2c_writing a (reg # data) b3" "same_bus b2 b3"
    using write_writing [OF b2(2), of data] n by (auto simp: I2C_BLOCK_MAX_def)
  obtain ret err ins e' where sys: "sys_i2c_rdwr os (fd b3) [XWrite a (reg # data)] e = (ret, err, ins, e')" "0 \<le> ret"
    "holds_regs (memcpy (unat reg) data (chip e)) (chip e')"
    using chip n unfolding max7311_chip_def by blast
  obtain b4 where b4: "I2cDev_endTransmission os True (b3, e) = (0 \<le> ret, b4, e')" "i2c_ready b4" "same_bus b3 b4"
    using end_stop [OF b3(2) law sys(1)] by auto
  have r: "length data \<le> NofRegisters - unat reg" using n by simp
  let ?d' = "d\<lparr>m73_i2c := b4, m73_isConnected := True\<rparr>"
  have "Max7311_writeRegister os reg data (d, e) = Some (int (length data), ?d', e')"
    using b1(1) b2(1) b3(1) b4(1) r m73_ok_open [OF ok] a sys(2)
    by (simp add: Max7311_writeRegister_def min_absorb1)
  then show ?thesis
    using b4(2) ok sys(3) by (auto simp: m73_ok_def same_m73_def)
qed

definition chip_frame :: "(nat \<Rightarrow> bool) \<Rightarrow> u8 list \<Rightarrow> u8 list \<Rightarrow> bool" where
  "chip_frame P rs rs' \<longleftrightarrow> (\<forall>i. 2 \<le> i \<and> i < 9 \<and> \<not> P i \<longrightarrow> rs' ! i = rs ! i)"

lemma holds_regs_nth:
  assumes "holds_regs rs rs'" and "2 \<le> i"
  shows "rs' ! i = rs ! i"
proof -
  have len: "length rs' = 9" and eq: "drop 2 rs' = drop 2 rs" using assms(1) by (auto simp: holds_regs_def)
  have "length rs - 2 = 7" using arg_cong [OF eq, of length] len by simp
  moreover obtain k where "i = 2 + k" using assms(2) le_Suc_ex by blast
  ultimately show ?thesis using len arg_cong [OF eq, of "\<lambda>xs. xs ! k"] by simp
qed

lemma bank_reg: "unat base \<le> 7 \<Longrightarrow> index \<le> 1 \<Longrightarrow> unat (base + of_nat index :: u8) = unat base + index"
  by (subst unat_plus_if_size) (auto simp: word_size unat_of_nat le_Suc_eq)

lemma readBank_chip:
  assumes chip: "max7311_chip os a chip" and ok: "m73_ok a (d, e)" and i: "index \<le> 1" "unat base \<le> 7"
  shows "\<exists>d' e'. Max7311_readBank os base put index 1 (d, e) = Some (True, d', e') \<and>
    i2c_ready (m73_i2c d') \<and> m73_addr d' = a \<and> openMode d' = openMode d \<and>
    m73_regs d' = put (memcpy index [chip e ! (unat base + index)]) (m73_regs d) \<and> chip_frame (\<lambda>_. False) (chip e) (chip e')"
proof -
  have len: "length (chip e) = 9" using chip by (simp add: max7311_chip_def)
  have reg: "unat (base + of_nat index :: u8) = unat base + index" by (rule bank_reg) (use i in auto)
  obtain d' e' where r: "Max7311_readRegister os (base + of_nat index) 1 (d, e)
      = Some (1, take 1 (drop (unat base + index) (chip e)), d', e')"
    "m73_ok a (d', e')" "same_m73 d d'" "holds_regs (chip e) (chip e')"
    using readRegister_chip [OF chip ok, of "base + of_nat index" 1] i reg by auto
  have "take 1 (drop (unat base + index) (chip e)) = [chip e ! (unat base + index)]"
    using i len by (simp add: take_Suc hd_drop_conv_nth)
  then show ?thesis
    using r i holds_regs_nth [OF r(4)]
    by (auto simp: Max7311_readBank_def port_range_def m73_ok_def same_m73_def chip_frame_def)
qed

lemma writeBank_chip:
  assumes chip: "max7311_chip os a chip" and ok: "m73_ok a (d, e)" and i: "index \<le> 1" "2 \<le> unat base" "unat base \<le> 7"
    and get: "length (get (m73_regs d)) = 2"
  shows "\<exists>d' e'. Max7311_writeBank os base get index 1 (d, e) = Some (True, d', e') \<and>
    m73_ok a (d', e') \<and> same_m73 d d' \<and> chip e' ! (unat base + index) = get (m73_regs d) ! index \<and>
    chip_frame (\<lambda>i. i = unat base + index) (chip e) (chip e')"
proof -
  have len: "length (chip e) = 9" using chip by (simp add: max7311_chip_def)
  have reg: "unat (base + of_nat index :: u8) = unat base + index" by (rule bank_reg) (use i in auto)
  have data: "take 1 (drop index (get (m73_regs d))) = [get (m73_regs d) ! index]"
    using i get by (simp add: take_Suc hd_drop_conv_nth)
  obtain d' e' where w: "Max7311_writeRegister os (base + of_nat index) [get (m73_regs d) ! index] (d, e) = Some (1, d', e')"
    "m73_ok a (d', e')" "same_m73 d d'" "holds_regs (memcpy (unat base + index) [get (m73_regs d) ! index] (chip e)) (chip e')"
    using writeRegister_chip [OF chip ok, of "base + of_nat index" "[get (m73_regs d) ! index]"] i reg by auto
  have "chip e' ! j = (chip e)[unat base + index := get (m73_regs d) ! index] ! j" if "2 \<le> j" for j
    using holds_regs_nth [OF w(4) that] i len by (simp add: memcpy_one)
  then show ?thesis
    using w i len data by (auto simp: Max7311_writeBank_def port_range_def chip_frame_def)
qed

lemma channel_split:
  assumes "0 \<le> c" "c < 16"
  shows "channel_index c = nat c div 8" "channel_bit c = nat c mod 8" "channel_index c \<le> 1" "channel_bit c < 8"
proof -
  have "c div 8 mod 256 = c div 8" "c mod 8 mod 256 = c mod 8" using assms by (auto intro!: mod_pos_pos_trivial)
  then show "channel_index c = nat c div 8" "channel_bit c = nat c mod 8"
    using assms by (auto simp: channel_index_def channel_bit_def sdiv_nonneg smod_nonneg nat_div_distrib nat_mod_distrib)
  then show "channel_index c \<le> 1" "channel_bit c < 8" using assms by auto
qed

lemma shl_one_bit: "b < 8 \<Longrightarrow> shl_one b = Some (2 ^ b)"
  by (simp add: shl_one_def push_bit_eq_mult)

text \<open>One pin of a pair of byte registers that starts at register \<open>base\<close>.\<close>

definition pin_bit :: "nat \<Rightarrow> u8 list \<Rightarrow> nat \<Rightarrow> bool" where
  "pin_bit base rs k = bit (rs ! (base + k div 8)) (k mod 8)"

lemma same_pin: "k div 8 = j div 8 \<Longrightarrow> k mod 8 = j mod 8 \<longleftrightarrow> k = (j :: nat)"
  by (metis div_mult_mod_eq)

lemma bit_set_clear:
  fixes p :: u8
  shows "n < 8 \<Longrightarrow> bit (p OR 2 ^ b) n = (bit p n \<or> n = b)" "n < 8 \<Longrightarrow> bit (p AND NOT (2 ^ b)) n = (bit p n \<and> n \<noteq> b)"
    "n < 8 \<Longrightarrow> bit (p XOR 2 ^ b) n = (bit p n \<noteq> (n = b))"
  by (auto simp: bit_simps)

lemma pin_bit_write:
  assumes frame: "chip_frame (\<lambda>i. i = base + j div 8) rs rs'" and base: "2 \<le> base" "base \<le> 7" and k: "k < 16"
    and new: "\<And>n. n < 8 \<Longrightarrow> bit (rs' ! (base + j div 8)) n = (if n = j mod 8 then v else bit (rs ! (base + j div 8)) n)"
  shows "pin_bit base rs' k = (if k = j then v else pin_bit base rs k)"
proof (cases "k div 8 = j div 8")
  case True
  then show ?thesis using new [of "k mod 8"] same_pin [OF True] by (simp add: pin_bit_def)
next
  case False
  have "k div 8 \<le> 1" using k by auto
  then show ?thesis using False frame base by (auto simp: pin_bit_def chip_frame_def)
qed

lemma m73_ok_update_output:
  "m73_ok a (d, e) \<Longrightarrow> length xs = 2 \<Longrightarrow> m73_ok a (d\<lparr>m73_regs := (m73_regs d)\<lparr>r_output := xs\<rparr>\<rparr>, e)"
  by (simp add: m73_ok_def)

section \<open>Properties\<close>

interpretation m73: converter "Max7311_vtable os errno" "\<lambda>_. True" for os errno
  by unfold_locales (simp add: Max7311_vtable_def)

text \<open>Writing a channel of the expander drives exactly that pin: the output bit of the channel becomes
  the truth value of the argument, the other fifteen output bits and the direction, polarity and
  timeout registers of the chip are unchanged, provided the shadow register agrees with the chip.\<close>

lemma max7311_writeChannel_pin:
  assumes chip: "max7311_chip os a chip" and ok: "m73_ok a (d, e)" and c: "0 \<le> c" "c < 16"
    and shadow: "r_output (m73_regs d) ! (nat c div 8) = chip e ! (2 + nat c div 8)"
  shows "\<exists>d' e'. Max7311_writeChannel os v c diff (d, e) = Some (True, d', e') \<and> m73_ok a (d', e') \<and>
    (\<forall>k<16. pin_bit 2 (chip e') k = (if k = nat c then v \<noteq> 0 else pin_bit 2 (chip e) k)) \<and>
    chip_frame (\<lambda>i. i = 2 \<or> i = 3) (chip e) (chip e') \<and>
    r_output (m73_regs d') ! (nat c div 8) = chip e' ! (2 + nat c div 8)"
proof -
  note ch = channel_split [OF c]
  let ?i = "nat c div 8" and ?b = "nat c mod 8"
  let ?p = "(r_output (m73_regs d))[?i := (if v \<noteq> 0 then r_output (m73_regs d) ! ?i OR 2 ^ ?b
      else r_output (m73_regs d) ! ?i AND NOT (2 ^ ?b))]"
  let ?d = "d\<lparr>m73_regs := (m73_regs d)\<lparr>r_output := ?p\<rparr>\<rparr>"
  have len: "length (r_output (m73_regs d)) = 2" using ok by (simp add: m73_ok_def)
  have ok': "m73_ok a (?d, e)" by (rule m73_ok_update_output [OF ok]) (simp add: len)
  obtain d' e' where w: "Max7311_writeBank os OutputPort1Reg r_output ?i 1 (?d, e) = Some (True, d', e')"
    "m73_ok a (d', e')" "same_m73 ?d d'" "chip e' ! (2 + ?i) = ?p ! ?i" "chip_frame (\<lambda>i. i = 2 + ?i) (chip e) (chip e')"
    using writeBank_chip [OF chip ok', of ?i OutputPort1Reg r_output] ch len by auto
  have i: "?i < 2" using c by auto
  have new: "bit (chip e' ! (2 + ?i)) n = (if n = ?b then v \<noteq> 0 else bit (chip e ! (2 + ?i)) n)" if "n < 8" for n
    using that w(4) i len shadow by (auto simp: bit_set_clear)
  have "Max7311_writeChannel os v c diff (d, e) = Some (True, d', e')"
    using w(1) ch shl_one_bit [OF ch(4)]
    by (simp add: Max7311_writeChannel_def Max7311_writeOutputPorts_def update_regs_def Let_def)
  moreover have "\<forall>k<16. pin_bit 2 (chip e') k = (if k = nat c then v \<noteq> 0 else pin_bit 2 (chip e) k)"
    using pin_bit_write [OF w(5) _ _ _ new] by simp
  moreover have "chip_frame (\<lambda>i. i = 2 \<or> i = 3) (chip e) (chip e')"
    using w(5) i by (auto simp: chip_frame_def)
  ultimately show ?thesis using w(2,3,4) by (auto simp: same_m73_def)
qed

text \<open>Toggling a channel inverts exactly that output pin of the chip, whatever the shadow registers hold.\<close>

lemma max7311_toggle_pin:
  assumes chip: "max7311_chip os a chip" and ok: "m73_ok a (d, e)" and c: "0 \<le> c" "c < 16"
  shows "\<exists>d' e'. Max7311_toggle os c (d, e) = Some (True, d', e') \<and> m73_ok a (d', e') \<and>
    (\<forall>k<16. pin_bit 2 (chip e') k = (if k = nat c then \<not> pin_bit 2 (chip e) k else pin_bit 2 (chip e) k)) \<and>
    chip_frame (\<lambda>i. i = 2 \<or> i = 3) (chip e) (chip e')"
proof -
  note ch = channel_split [OF c]
  let ?i = "nat c div 8" and ?b = "nat c mod 8"
  have i: "?i < 2" using c by auto
  have len: "length (r_output (m73_regs d)) = 2" using ok by (simp add: m73_ok_def)
  obtain d1 e1 where r: "Max7311_readBank os OutputPort1Reg r_output_update ?i 1 (d, e) = Some (True, d1, e1)"
    "i2c_ready (m73_i2c d1)" "m73_addr d1 = a"
    "m73_regs d1 = r_output_update (memcpy ?i [chip e ! (2 + ?i)]) (m73_regs d)" "chip_frame (\<lambda>_. False) (chip e) (chip e1)"
    using readBank_chip [OF chip ok, of ?i OutputPort1Reg r_output_update] ch by auto
  have out1: "r_output (m73_regs d1) = (r_output (m73_regs d))[?i := chip e ! (2 + ?i)]"
    using r(4) i len by (simp add: memcpy_one)
  have ok1: "m73_ok a (d1, e1)" using ok r(2-4) out1 by (simp add: m73_ok_def)
  let ?p = "(r_output (m73_regs d1))[?i := r_output (m73_regs d1) ! ?i XOR 2 ^ ?b]"
  let ?d = "d1\<lparr>m73_regs := (m73_regs d1)\<lparr>r_output := ?p\<rparr>\<rparr>"
  have ok': "m73_ok a (?d, e1)" by (rule m73_ok_update_output [OF ok1]) (simp add: out1 len)
  obtain d' e' where w: "Max7311_writeBank os OutputPort1Reg r_output ?i 1 (?d, e1) = Some (True, d', e')"
    "m73_ok a (d', e')" "chip e' ! (2 + ?i) = ?p ! ?i" "chip_frame (\<lambda>i. i = 2 + ?i) (chip e1) (chip e')"
    using writeBank_chip [OF chip ok', of ?i OutputPort1Reg r_output] ch len out1 by auto
  have frame: "chip_frame (\<lambda>i. i = 2 + ?i) (chip e) (chip e')" using w(4) r(5) by (auto simp: chip_frame_def)
  have new: "bit (chip e' ! (2 + ?i)) n = (if n = ?b then \<not> pin_bit 2 (chip e) (nat c) else bit (chip e ! (2 + ?i)) n)"
    if "n < 8" for n
    using that w(3) i len by (auto simp: out1 bit_set_clear pin_bit_def)
  have "Max7311_toggle os c (d, e) = Some (True, d', e')"
    using r(1) w(1) ch shl_one_bit [OF ch(4)] c
    by (simp add: Max7311_toggle_def Max7311_readOutputPorts_def Max7311_writeOutputPorts_def update_regs_def Let_def)
  moreover have "\<forall>k<16. pin_bit 2 (chip e') k = (if k = nat c then \<not> pin_bit 2 (chip e) k else pin_bit 2 (chip e) k)"
    using pin_bit_write [OF frame _ _ _ new] by auto
  moreover have "chip_frame (\<lambda>i. i = 2 \<or> i = 3) (chip e) (chip e')"
    using frame i by (auto simp: chip_frame_def)
  ultimately show ?thesis using w(2) by auto
qed

lemma readSetup_chip:
  assumes chip: "max7311_chip os a chip" and ok: "m73_ok a (d, e)" and i: "i \<le> 1"
  shows "\<exists>d' e'. Max7311_readSetup os i 1 (d, e) = Some (True, d', e') \<and> m73_ok a (d', e') \<and>
    r_polarity (m73_regs d') ! i = chip e ! (4 + i) \<and> r_config (m73_regs d') ! i = chip e ! (6 + i) \<and>
    chip_frame (\<lambda>_. False) (chip e) (chip e')"
proof -
  have i2: "i < 2" and len: "length (r_polarity (m73_regs d)) = 2" "length (r_config (m73_regs d)) = 2"
    using i ok by (auto simp: m73_ok_def)
  obtain d1 e1 where r: "Max7311_readBank os Polarity1Reg r_polarity_update i 1 (d, e) = Some (True, d1, e1)"
    "i2c_ready (m73_i2c d1)" "m73_addr d1 = a"
    "m73_regs d1 = r_polarity_update (memcpy i [chip e ! (4 + i)]) (m73_regs d)" "chip_frame (\<lambda>_. False) (chip e) (chip e1)"
    using readBank_chip [OF chip ok i, of Polarity1Reg r_polarity_update] by auto
  have pol: "r_polarity (m73_regs d1) = (r_polarity (m73_regs d))[i := chip e ! (4 + i)]"
    using r(4) i2 len by (simp add: memcpy_one)
  have ok1: "m73_ok a (d1, e1)" using ok r(2-4) pol by (simp add: m73_ok_def)
  obtain d2 e2 where c: "Max7311_readBank os Config1Reg r_config_update i 1 (d1, e1) = Some (True, d2, e2)"
    "i2c_ready (m73_i2c d2)" "m73_addr d2 = a"
    "m73_regs d2 = r_config_update (memcpy i [chip e1 ! (6 + i)]) (m73_regs d1)" "chip_frame (\<lambda>_. False) (chip e1) (chip e2)"
    using readBank_chip [OF chip ok1 i, of Config1Reg r_config_update] by auto
  have "length (r_config (m73_regs d1)) = 2" using ok1 by (simp add: m73_ok_def)
  then have cfg: "r_config (m73_regs d2) = (r_config (m73_regs d1))[i := chip e1 ! (6 + i)]"
    using c(4) i2 by (simp add: memcpy_one)
  have "m73_ok a (d2, e2)" using ok1 c(2-4) cfg by (simp add: m73_ok_def)
  moreover have "chip e1 ! (6 + i) = chip e ! (6 + i)" using r(5) i2 by (simp add: chip_frame_def)
  ultimately show ?thesis
    using r(1,5) c(1,4,5) pol cfg len i2 ok1
    by (auto simp: Max7311_readSetup_def Max7311_readPolarityInversion_def Max7311_readConfiguration_def andalso_def
        chip_frame_def m73_ok_def)
qed

lemma writeSetup_chip:
  assumes chip: "max7311_chip os a chip" and ok: "m73_ok a (d, e)" and i: "i \<le> 1"
  shows "\<exists>d' e'. Max7311_writeSetup os i 1 (d, e) = Some (True, d', e') \<and> m73_ok a (d', e') \<and>
    chip e' ! (4 + i) = r_polarity (m73_regs d) ! i \<and> chip e' ! (6 + i) = r_config (m73_regs d) ! i \<and>
    chip_frame (\<lambda>j. j = 4 + i \<or> j = 6 + i) (chip e) (chip e')"
proof -
  obtain d1 e1 where p: "Max7311_writeBank os Polarity1Reg r_polarity i 1 (d, e) = Some (True, d1, e1)" "m73_ok a (d1, e1)"
    "same_m73 d d1" "chip e1 ! (4 + i) = r_polarity (m73_regs d) ! i" "chip_frame (\<lambda>j. j = 4 + i) (chip e) (chip e1)"
    using writeBank_chip [OF chip ok i, of Polarity1Reg r_polarity] ok by (auto simp: m73_ok_def)
  obtain d2 e2 where c: "Max7311_writeBank os Config1Reg r_config i 1 (d1, e1) = Some (True, d2, e2)" "m73_ok a (d2, e2)"
    "chip e2 ! (6 + i) = r_config (m73_regs d1) ! i" "chip_frame (\<lambda>j. j = 6 + i) (chip e1) (chip e2)"
    using writeBank_chip [OF chip p(2) i, of Config1Reg r_config] p(2) by (auto simp: m73_ok_def)
  have "chip e2 ! (4 + i) = chip e1 ! (4 + i)" using c(4) i by (simp add: chip_frame_def)
  then show ?thesis
    using p c by (auto simp: Max7311_writeSetup_def Max7311_writePolarityInversion_def Max7311_writeConfiguration_def
        andalso_def same_m73_def chip_frame_def)
qed

text \<open>The modes the chip supports: one direction, and optionally an inverted polarity.\<close>

definition max7311_mode_ok :: "conv_mode \<Rightarrow> bool" where
  "max7311_mode_ok m \<longleftrightarrow> m \<in> {DigitalOutput, DigitalInput, DigitalOutput OR ActiveLow, DigitalInput OR ActiveLow}"

lemma mode_ok_bits:
  assumes "max7311_mode_ok m"
  shows "m AND NOT (DigitalOutput OR DigitalInput OR ActiveLow) = 0"
    and "(m AND DigitalOutput \<noteq> 0) = (m AND DigitalInput = 0)"
    and "(if m AND DigitalOutput \<noteq> 0 then DigitalOutput else DigitalInput) OR (if m AND ActiveLow \<noteq> 0 then ActiveLow else NoMode) = m"
  using assms by (auto simp: max7311_mode_ok_def)

lemma and_pow2_bit: "b < 8 \<Longrightarrow> (p AND 2 ^ b = 0) = (\<not> bit (p :: u8) b)"
  by (simp add: and_single_bit)

lemma setMode_chip:
  assumes chip: "max7311_chip os a chip" and ok: "m73_ok a (d, e)" and c: "0 \<le> c" "c < 16" and m: "max7311_mode_ok m"
  shows "\<exists>d' e'. Max7311_setMode os m c (d, e) = Some (True, d', e') \<and> m73_ok a (d', e') \<and>
    (\<forall>k<16. pin_bit 6 (chip e') k = (if k = nat c then m AND DigitalInput \<noteq> 0 else pin_bit 6 (chip e) k)) \<and>
    (\<forall>k<16. pin_bit 4 (chip e') k = (if k = nat c then m AND ActiveLow \<noteq> 0 else pin_bit 4 (chip e) k)) \<and>
    chip_frame (\<lambda>j. 4 \<le> j \<and> j \<le> 7) (chip e) (chip e')"
proof -
  note ch = channel_split [OF c] and mb = mode_ok_bits [OF m]
  let ?i = "nat c div 8" and ?b = "nat c mod 8"
  have i: "?i \<le> 1" "?i < 2" using c by auto
  obtain d1 e1 where r: "Max7311_readSetup os ?i 1 (d, e) = Some (True, d1, e1)" "m73_ok a (d1, e1)"
    "r_polarity (m73_regs d1) ! ?i = chip e ! (4 + ?i)" "r_config (m73_regs d1) ! ?i = chip e ! (6 + ?i)"
    "chip_frame (\<lambda>_. False) (chip e) (chip e1)"
    using readSetup_chip [OF chip ok i(1)] by auto
  have len: "length (r_polarity (m73_regs d1)) = 2" "length (r_config (m73_regs d1)) = 2" using r(2) by (auto simp: m73_ok_def)
  define cfg where "cfg = (r_config (m73_regs d1))[?i := (if m AND DigitalOutput \<noteq> 0 then r_config (m73_regs d1) ! ?i AND NOT (2 ^ ?b)
      else if m AND DigitalInput \<noteq> 0 then r_config (m73_regs d1) ! ?i OR 2 ^ ?b else r_config (m73_regs d1) ! ?i)]"
  define pol where "pol = (r_polarity (m73_regs d1))[?i := (if m AND ActiveLow \<noteq> 0 then r_polarity (m73_regs d1) ! ?i OR 2 ^ ?b
      else r_polarity (m73_regs d1) ! ?i AND NOT (2 ^ ?b))]"
  let ?d = "d1\<lparr>m73_regs := (m73_regs d1)\<lparr>r_config := cfg, r_polarity := pol\<rparr>\<rparr>"
  have ok': "m73_ok a (?d, e1)" using r(2) by (simp add: m73_ok_def cfg_def pol_def)
  obtain d' e' where w: "Max7311_writeSetup os ?i 1 (?d, e1) = Some (True, d', e')" "m73_ok a (d', e')"
    "chip e' ! (4 + ?i) = pol ! ?i" "chip e' ! (6 + ?i) = cfg ! ?i"
    "chip_frame (\<lambda>j. j = 4 + ?i \<or> j = 6 + ?i) (chip e1) (chip e')"
    using writeSetup_chip [OF chip ok' i(1)] by auto
  have run: "Max7311_setMode os m c (d, e) = Some (True, d', e')"
    using r(1) w(1) [unfolded cfg_def pol_def] ch shl_one_bit [OF ch(4)] c mb(1,2)
    by (cases "m AND DigitalInput = 0"; cases "m AND ActiveLow = 0")
      (simp_all add: Max7311_setMode_def update_regs_def Let_def)
  have f: "chip_frame (\<lambda>j. j = 6 + ?i) (chip e) ((chip e')[4 + ?i := chip e ! (4 + ?i)])"
    "chip_frame (\<lambda>j. j = 4 + ?i) (chip e) ((chip e')[6 + ?i := chip e ! (6 + ?i)])"
    "chip_frame (\<lambda>j. 4 \<le> j \<and> j \<le> 7) (chip e) (chip e')"
    using w(5) r(5) i chip by (auto simp: chip_frame_def nth_list_update max7311_chip_def)
  have cn: "bit (chip e' ! (6 + ?i)) n = (if n = ?b then m AND DigitalInput \<noteq> 0 else bit (chip e ! (6 + ?i)) n)" if "n < 8" for n
    using that w(4) i len mb(2) r(4) by (auto simp: cfg_def bit_set_clear)
  have pn: "bit (chip e' ! (4 + ?i)) n = (if n = ?b then m AND ActiveLow \<noteq> 0 else bit (chip e ! (4 + ?i)) n)" if "n < 8" for n
    using that w(3) i len r(3) by (auto simp: pol_def bit_set_clear)
  have "pin_bit 6 (chip e') k = (if k = nat c then m AND DigitalInput \<noteq> 0 else pin_bit 6 (chip e) k)" if "k < 16" for k
    using pin_bit_write [OF f(1) _ _ that, of "m AND DigitalInput \<noteq> 0"] cn that i by (auto simp: pin_bit_def nth_list_update)
  moreover have "pin_bit 4 (chip e') k = (if k = nat c then m AND ActiveLow \<noteq> 0 else pin_bit 4 (chip e) k)" if "k < 16" for k
    using pin_bit_write [OF f(2) _ _ that, of "m AND ActiveLow \<noteq> 0"] pn that i by (auto simp: pin_bit_def nth_list_update)
  ultimately show ?thesis using run w(2) f(3) by auto
qed

lemma mode_chip:
  assumes chip: "max7311_chip os a chip" and ok: "m73_ok a (d, e)" and c: "0 \<le> c" "c < 16"
  shows "\<exists>d' e'. Max7311_mode os c (d, e) = Some ((if pin_bit 6 (chip e) (nat c) then DigitalInput OR PullUp else DigitalOutput) OR
      (if pin_bit 4 (chip e) (nat c) then ActiveLow else NoMode), d', e') \<and> m73_ok a (d', e')"
proof -
  note ch = channel_split [OF c]
  obtain d1 e1 where r: "Max7311_readSetup os (nat c div 8) 1 (d, e) = Some (True, d1, e1)" "m73_ok a (d1, e1)"
    "r_polarity (m73_regs d1) ! (nat c div 8) = chip e ! (4 + nat c div 8)"
    "r_config (m73_regs d1) ! (nat c div 8) = chip e ! (6 + nat c div 8)"
    using readSetup_chip [OF chip ok, of "nat c div 8"] ch by auto
  have "Max7311_mode os c (d, e) = Some ((if pin_bit 6 (chip e) (nat c) then DigitalInput OR PullUp else DigitalOutput) OR
      (if pin_bit 4 (chip e) (nat c) then ActiveLow else NoMode), d1, e1)"
    using r ch shl_one_bit [OF ch(4)] by (auto simp: Max7311_mode_def pin_bit_def and_single_bit Let_def)
  then show ?thesis using r(2) by auto
qed

text \<open>C15. Setting the mode of a channel and reading it back gives that mode, with the pull-up that inputs of
  the chip always have; the direction and polarity of the other channels, the outputs and the
  timeout are unchanged.\<close>

theorem max7311_setMode_roundtrip:
  assumes chip: "max7311_chip os a chip" and ok: "m73_ok a (d, e)" and c: "0 \<le> c" "c < 16" and m: "max7311_mode_ok m"
  shows "\<exists>s' s''. Max7311_setMode os m c (d, e) = Some (True, s') \<and>
    Max7311_mode os c s' = Some (m OR (if m AND DigitalInput \<noteq> 0 then PullUp else NoMode), s'') \<and>
    (\<forall>k<16. k \<noteq> nat c \<longrightarrow> pin_bit 6 (chip (snd s')) k = pin_bit 6 (chip e) k \<and> pin_bit 4 (chip (snd s')) k = pin_bit 4 (chip e) k) \<and>
    chip_frame (\<lambda>j. 4 \<le> j \<and> j \<le> 7) (chip e) (chip (snd s'))"
proof -
  obtain d' e' where s: "Max7311_setMode os m c (d, e) = Some (True, d', e')" "m73_ok a (d', e')"
    "\<forall>k<16. pin_bit 6 (chip e') k = (if k = nat c then m AND DigitalInput \<noteq> 0 else pin_bit 6 (chip e) k)"
    "\<forall>k<16. pin_bit 4 (chip e') k = (if k = nat c then m AND ActiveLow \<noteq> 0 else pin_bit 4 (chip e) k)"
    "chip_frame (\<lambda>j. 4 \<le> j \<and> j \<le> 7) (chip e) (chip e')"
    using setMode_chip [OF assms] by auto
  have "nat c < 16" using c by simp
  then have "(if pin_bit 6 (chip e') (nat c) then DigitalInput OR PullUp else DigitalOutput) OR
      (if pin_bit 4 (chip e') (nat c) then ActiveLow else NoMode) = m OR (if m AND DigitalInput \<noteq> 0 then PullUp else NoMode)"
    using s(3,4) m by (auto simp: max7311_mode_ok_def)
  then show ?thesis using mode_chip [OF chip s(2) c] s by auto
qed

text \<open>The expander refuses the mode it reports for its inputs (an input with its pull-up), and so
  \<open>setModeFlags\<close> of a single flag fails on every input channel without changing the chip's direction or
  polarity registers.\<close>

lemma max7311_setModeFlags_fails_on_inputs:
  assumes chip: "max7311_chip os a chip" and ok: "m73_ok a (d, e)" and c: "0 \<le> c" "c < 16"
    and input: "pin_bit 6 (chip e) (nat c)"
  shows "\<exists>d' e'. setModeFlags (Max7311_vtable os errno) ActiveLow ActiveLow c (d, e) = Some (False, d', e')"
proof -
  obtain d' e' m where r: "Max7311_mode os c (d, e) = Some ((DigitalInput OR PullUp) OR m, d', e')"
    using mode_chip [OF chip ok c] input by auto
  let ?m = "(((DigitalInput OR PullUp) OR m) AND NOT ActiveLow) OR (ActiveLow AND ActiveLow)"
  have "bit (?m AND NOT (DigitalOutput OR DigitalInput OR ActiveLow)) 4"
    by (simp add: bit_simps)
  then have "?m AND NOT (DigitalOutput OR DigitalInput OR ActiveLow) \<noteq> 0" by (metis bit_0_eq bot_apply bot_bool_def)
  then have "Max7311_setMode os ?m c (d', e') = Some (False, d', e')"
    by (simp add: Max7311_setMode_def)
  then show ?thesis
    using r c by (simp add: setModeFlags_def modeFlags_with_def Max7311_vtable_def)
qed

text \<open>\<open>writeChannel\<close> with its default channel -1 (documented as all channels) shifts by 255 on this driver,
  which is undefined, whatever the value.\<close>

lemma max7311_default_channel_undefined:
  assumes "openMode (fst s) AND WriteOnly \<noteq> 0"
  shows "Converter_writeChannel (Max7311_vtable os errno) v (- 1) False s = None"
proof -
  have "(- 1 :: int) sdiv 8 = 0" "(- 1 :: int) smod 8 = - 1" by (simp_all add: signed_divide_int_def signed_modulo_int_def)
  then have "channel_index (- 1) = 0" "channel_bit (- 1) = 255" by (simp_all add: channel_index_def channel_bit_def)
  then show ?thesis
    using assms by (simp add: Converter_writeChannel_def Max7311_vtable_def Max7311_writeChannel_def shl_one_def)
qed

section \<open>A simulated chip\<close>

text \<open>The environment is the register bank itself; requests outside it are refused.\<close>

definition sim_bank :: "u8 list \<Rightarrow> u8 list" where
  "sim_bank e = take 9 (e @ replicate 9 0)"

fun sim_rdwr :: "int \<Rightarrow> xfer list \<Rightarrow> u8 list \<Rightarrow> int \<times> int \<times> u8 list list \<times> u8 list" where
  "sim_rdwr f [XWrite a (r # data)] e = (if unat r + length data \<le> 9
     then (1, 0, [], memcpy (unat r) data (sim_bank e)) else (- 1, 121, [], e))"
| "sim_rdwr f [XWrite a [r], XRead b n] e = (if unat r + n \<le> 9
     then (2, 0, [take n (drop (unat r) (sim_bank e))], e) else (- 1, 121, [], e))"
| "sim_rdwr f xs e = (- 1, 121, [], e)"

definition sim_os :: "u8 list i2c_os" where
  "sim_os = \<lparr>sys_open = (\<lambda>p fl e. (3, 0, e)), sys_close = (\<lambda>f e. (0, 0, e)),
     sys_i2c_funcs = (\<lambda>f e. (0, I2C_FUNC_I2C, 0, e)), sys_i2c_rdwr = sim_rdwr, sys_strerror = (\<lambda>n. ''error'')\<rparr>"

lemma length_sim_bank [simp]: "length (sim_bank e) = 9"
  by (simp add: sim_bank_def)

lemma sim_bank_id: "length e = 9 \<Longrightarrow> sim_bank e = e"
  by (simp add: sim_bank_def)

lemma sim_os_law: "rdwr_law sim_os"
proof -
  have "(0 \<le> ret \<longrightarrow> map length ins = read_lengths xs) \<and> (ret < 0 \<longrightarrow> err \<noteq> 0)"
    if "sim_rdwr f xs e = (ret, err, ins, e')" for f xs e ret err ins e'
    using that by (induction f xs e rule: sim_rdwr.induct) (auto split: if_splits)
  then show ?thesis by (auto simp: rdwr_law_def sim_os_def)
qed

lemma sim_chip: "max7311_chip sim_os a sim_bank"
  using sim_os_law by (auto simp: max7311_chip_def sim_os_def holds_regs_def sim_bank_id)

definition demo_m73 :: max7311 where
  "demo_m73 = (max7311_new demo_bus 0x20)\<lparr>openMode := ReadWrite\<rparr>"

definition demo_bank :: "u8 list" where
  "demo_bank = [0, 0, 0, 0, 0, 0, 0xFF, 0xFF, 1]"

lemma demo_m73_ok: "m73_ok 0x20 (demo_m73, demo_bank)"
  using demo_bus_ready by (simp add: m73_ok_def demo_m73_def max7311_new_def iodevice.defs)

lemma max7311_writeChannel_pin_witness:
  "\<exists>d' e'. Max7311_writeChannel sim_os 1 9 False (demo_m73, demo_bank) = Some (True, d', e') \<and> pin_bit 2 (sim_bank e') 9"
  using max7311_writeChannel_pin [OF sim_chip demo_m73_ok, of 9 1 False]
  by (auto simp: demo_m73_def max7311_new_def iodevice.defs demo_bank_def sim_bank_def)

lemma max7311_toggle_pin_witness:
  "\<exists>d' e'. Max7311_toggle sim_os 3 (demo_m73, demo_bank) = Some (True, d', e') \<and> pin_bit 2 (sim_bank e') 3"
proof -
  have "\<not> pin_bit 2 (sim_bank demo_bank) 3" by (simp add: pin_bit_def demo_bank_def sim_bank_def)
  then show ?thesis using max7311_toggle_pin [OF sim_chip demo_m73_ok, of 3] by fastforce
qed

theorem max7311_setMode_roundtrip_witness:
  "\<exists>s' s''. Max7311_setMode sim_os DigitalOutput 12 (demo_m73, demo_bank) = Some (True, s') \<and>
    Max7311_mode sim_os 12 s' = Some (DigitalOutput, s'')"
  using max7311_setMode_roundtrip [OF sim_chip demo_m73_ok, of 12 DigitalOutput]
  by (auto simp: max7311_mode_ok_def)

lemma max7311_setModeFlags_fails_on_inputs_witness:
  "\<exists>d' e'. setModeFlags (Max7311_vtable sim_os 0) ActiveLow ActiveLow 5 (demo_m73, demo_bank) = Some (False, d', e')"
  by (rule max7311_setModeFlags_fails_on_inputs [OF sim_chip demo_m73_ok])
    (simp_all add: pin_bit_def demo_bank_def sim_bank_def bit_simps)

lemma max7311_default_channel_undefined_witness:
  "Converter_writeChannel (Max7311_vtable sim_os 0) 1 (- 1) False (demo_m73, demo_bank) = None"
  by (rule max7311_default_channel_undefined) (simp add: demo_m73_def)

end
