(* ===== verification/Mcp4725.thy ===== *)
theory Mcp4725
  imports I2cDriver
begin

text \<open>
  The driver of the MCP4725 12-bit digital-to-analog converter (\<open>src/ext/mcp4725.cpp\<close>,
  \<open>src/ext/mcp4725_p.h\<close>). The structure \<open>RegBuffers\<close> is its five bytes in memory order: \<open>config\<close>,
  \<open>dac[0]\<close>, \<open>dac[1]\<close>, \<open>eeprom[0]\<close>, \<open>eeprom[1]\<close>, because the driver sends and receives it as bytes. The
  full-scale range, a floating point member no digital operation reads, is left out.
\<close>

section \<open>Constants and state\<close>

abbreviation (input) WRDAC :: u8 where "WRDAC \<equiv> 0x40"
abbreviation (input) WRDACEE :: u8 where "WRDACEE \<equiv> 0x60"
abbreviation (input) PD_1K :: u8 where "PD_1K \<equiv> 0x02"
abbreviation (input) PD_100K :: u8 where "PD_100K \<equiv> 0x04"
abbreviation (input) PD_500K :: u8 where "PD_500K \<equiv> 0x06"
abbreviation (input) PD_MASK :: u8 where "PD_MASK \<equiv> 0x06"
abbreviation (input) READY :: u8 where "READY \<equiv> 0xC0"

abbreviation (input) PwrDwnR1 :: conv_mode where "PwrDwnR1 \<equiv> PwrDwnEn"
abbreviation (input) PwrDwnR2 :: conv_mode where "PwrDwnR2 \<equiv> PwrDwnEn OR PwrDwn0"
abbreviation (input) PwrDwnR3 :: conv_mode where "PwrDwnR3 \<equiv> PwrDwnEn OR PwrDwn1"

record mcp4725 = iodevice +
  m25_i2c :: i2cdev
  m25_addr :: u16
  m25_isConnected :: bool
  m25_value :: u16
  m25_currentMode :: conv_mode
  m25_modeSetByUser :: bool
  m25_regs :: "u8 list"

type_synonym 'e m25_st = "mcp4725 \<times> 'e"

definition mcp4725_new :: "i2cdev \<Rightarrow> u16 \<Rightarrow> mcp4725" where
  "mcp4725_new dev address = iodevice.extend iodevice_new \<lparr>m25_i2c = dev, m25_addr = address, m25_isConnected = False,
     m25_value = 0, m25_currentMode = NoMode OR AnalogOutput, m25_modeSetByUser = False, m25_regs = replicate 5 0\<rparr>"

text \<open>The \<open>mode\<close> parameter of the constructor.\<close>

definition Mcp4725_mode_parameter :: "string \<Rightarrow> mcp4725 \<Rightarrow> mcp4725" where
  "Mcp4725_mode_parameter str d = (let d = d\<lparr>m25_modeSetByUser := True\<rparr>; m = m25_currentMode d in
     if str = ''fast'' then d\<lparr>m25_currentMode := m OR FastMode\<rparr>
     else if str = ''eeprom'' then d\<lparr>m25_currentMode := m OR SaveToEEPROM\<rparr>
     else if str = ''pd1k'' then d\<lparr>m25_currentMode := m OR PwrDwnR1\<rparr>
     else if str = ''pd100k'' then d\<lparr>m25_currentMode := m OR PwrDwnR2\<rparr>
     else if str = ''pd500k'' then d\<lparr>m25_currentMode := m OR PwrDwnR3\<rparr>
     else if str \<noteq> ''norm'' then d\<lparr>m25_modeSetByUser := False\<rparr> else d)"

text \<open>
  The constructor from a parameter string, on a new bus object \<open>dev\<close>. \<open>stod\<close> stands for \<open>std::stod\<close>, whose value
  becomes the full-scale range; here it matters that it may throw.
\<close>

definition Mcp4725_new_params :: "'e i2c_os \<Rightarrow> (int \<Rightarrow> string) \<Rightarrow> (string \<Rightarrow> 'f res) \<Rightarrow> i2cdev \<Rightarrow> string \<Rightarrow> 'e \<Rightarrow> (mcp4725 \<times> 'e) res" where
  "Mcp4725_new_params os busPath stod dev params e = (let m = paramsMap params in
     rbind (bus_parameter os busPath m (dev, e)) (\<lambda>(dev, e).
     rbind (addr_parameter 0x60 0x60 m) (\<lambda>addr.
     rbind (case map_of m ''fsr'' of None \<Rightarrow> Inr () | Some str \<Rightarrow> map_sum id (\<lambda>_. ()) (stod str)) (\<lambda>_.
     Inr (let d = mcp4725_new dev addr in case map_of m ''mode'' of None \<Rightarrow> d | Some str \<Rightarrow> Mcp4725_mode_parameter str d, e)))))"

section \<open>Transfers\<close>

definition Mcp4725_readRegisters :: "'e i2c_os \<Rightarrow> nat \<Rightarrow> 'e m25_st \<Rightarrow> (bool \<times> 'e m25_st) option" where
  "Mcp4725_readRegisters os max_len = (\<lambda>(d, e).
     if IoDevice_isOpen (m25_i2c d) then do {
       (r, b, e) \<leftarrow> I2cDev_requestFrom os (m25_addr d) max_len True (m25_i2c d, e);
       if 0 \<le> r then do {
         let bytesRead = I2cDev_available b;
         (bs, b) \<leftarrow> I2cDev_read (min bytesRead max_len) b;
         Some (bytesRead = max_len, d\<lparr>m25_i2c := b, m25_regs := memcpy 0 bs (m25_regs d), m25_isConnected := True\<rparr>, e)
       } else Some (False, d\<lparr>m25_i2c := b\<rparr>, e)
     } else Some (False, d, e))"

definition Mcp4725_writeRegisters :: "'e i2c_os \<Rightarrow> nat \<Rightarrow> 'e m25_st \<Rightarrow> (bool \<times> 'e m25_st) option" where
  "Mcp4725_writeRegisters os len = (\<lambda>(d, e).
     if IoDevice_isOpen (m25_i2c d) then do {
       b \<leftarrow> I2cDev_beginTransmission (m25_addr d) (m25_i2c d);
       (_, b) \<leftarrow> I2cDev_write (take len (m25_regs d)) b;
       let (ok, b, e) = I2cDev_endTransmission os True (b, e);
       if ok then Some (True, d\<lparr>m25_i2c := b, m25_isConnected := True\<rparr>, e) else Some (False, d\<lparr>m25_i2c := b\<rparr>, e)
     } else Some (False, d, e))"

section \<open>The methods of the converter\<close>

definition pd_bits :: "conv_mode \<Rightarrow> u8" where
  "pd_bits m = (if m AND PwrDwnMask = PwrDwnR1 then PD_1K else if m AND PwrDwnMask = PwrDwnR2 then PD_100K
     else if m AND PwrDwnMask = PwrDwnR3 then PD_500K else 0)"

definition Mcp4725_encode :: "conv_mode \<Rightarrow> int \<Rightarrow> u8 list \<Rightarrow> nat \<times> u8 list" where
  "Mcp4725_encode m v regs = (if m AND FastMode \<noteq> 0
     then (2, regs[0 := of_int (v div 2 ^ 8), 1 := of_int v AND 0xFF])
     else (3, regs[1 := of_int (v div 2 ^ 4) AND 0xFF, 2 := of_int (v * 2 ^ 4) AND 0xF0,
       0 := (if m = SaveToEEPROM then WRDACEE else WRDAC) OR (if m AND PwrDwnEn \<noteq> 0 then pd_bits m else 0)]))"

definition Mcp4725_writeChannel :: "'e i2c_os \<Rightarrow> int \<Rightarrow> int \<Rightarrow> bool \<Rightarrow> 'e m25_st \<Rightarrow> (bool \<times> 'e m25_st) option" where
  "Mcp4725_writeChannel os v channel differential = (\<lambda>(d, e).
     if IoDevice_isOpen (m25_i2c d) then do {
       let (n, regs) = Mcp4725_encode (m25_currentMode d) v (m25_regs d);
       (ok, d, e) \<leftarrow> Mcp4725_writeRegisters os n (d\<lparr>m25_regs := regs\<rparr>, e);
       if ok then Some (True, d\<lparr>m25_value := of_int v\<rparr>, e) else Some (False, d, e)
     } else Some (False, d, e))"

definition Mcp4725_write :: "'e i2c_os \<Rightarrow> int \<Rightarrow> 'e m25_st \<Rightarrow> (bool \<times> 'e m25_st) option" where
  "Mcp4725_write os v = Mcp4725_writeChannel os v 0 False"

definition Mcp4725_readChannel :: "int \<Rightarrow> bool \<Rightarrow> 'e m25_st \<Rightarrow> (int \<times> 'e m25_st) option" where
  "Mcp4725_readChannel channel differential s = Some (uint (m25_value (fst s)), s)"

definition Mcp4725_read :: "'e m25_st \<Rightarrow> (int \<times> 'e m25_st) option" where
  "Mcp4725_read = Mcp4725_readChannel 0 False"

definition Mcp4725_mode :: "int \<Rightarrow> 'e m25_st \<Rightarrow> (conv_mode \<times> 'e m25_st) option" where
  "Mcp4725_mode channel s = Some (m25_currentMode (fst s), s)"

definition Mcp4725_setMode :: "conv_mode \<Rightarrow> int \<Rightarrow> 'e m25_st \<Rightarrow> (bool \<times> 'e m25_st) option" where
  "Mcp4725_setMode m channel = (\<lambda>(d, e).
     if m AND NOT (AnalogOutput OR FastMode OR SaveToEEPROM OR PwrDwnEn OR PwrDwn0 OR PwrDwn1) \<noteq> 0 then Some (False, d, e)
     else if m AND FastMode \<noteq> 0 \<and> m AND SaveToEEPROM \<noteq> 0 then Some (False, d, e)
     else if \<not> m AND PwrDwnEn \<noteq> 0 \<and> m AND (PwrDwn0 OR PwrDwn1) \<noteq> 0 then Some (False, d, e)
     else Some (True, d\<lparr>m25_modeSetByUser := True, m25_currentMode := m OR AnalogOutput\<rparr>, e))"

definition Mcp4725_updateSetup :: "'e i2c_os \<Rightarrow> 'e m25_st \<Rightarrow> (bool \<times> 'e m25_st) option" where
  "Mcp4725_updateSetup os = (\<lambda>(d, e).
     if IoDevice_isOpen (m25_i2c d) then do {
       (ok, d, e) \<leftarrow> Mcp4725_readRegisters os 5 (d, e);
       if ok then do {
         let regs = m25_regs d;
         let d = d\<lparr>m25_isConnected := True\<rparr>;
         if regs ! 0 AND READY = READY then do {
           let pd = regs ! 0 AND PD_MASK;
           let d = (if \<not> m25_modeSetByUser d then d\<lparr>m25_currentMode := m25_currentMode d OR
             (if pd = PD_1K then PwrDwnR1 else if pd = PD_100K then PwrDwnR2 else if pd = PD_500K then PwrDwnR3 else NoMode)\<rparr> else d);
           let rv = (if m25_currentMode d AND SaveToEEPROM \<noteq> 0
             then push_bit 8 (ucast (regs ! 3 AND 0x0F)) OR ucast (regs ! 4)
             else push_bit 4 (ucast (regs ! 1)) OR (drop_bit 4 (ucast (regs ! 2)) AND 0x000F));
           Some (True, d\<lparr>m25_value := rv\<rparr>, e)
         } else Some (False, d, e)
       } else Some (False, d, e)
     } else Some (False, d, e))"

definition Mcp4725_open :: "'e i2c_os \<Rightarrow> int \<Rightarrow> u32 \<Rightarrow> 'e m25_st \<Rightarrow> (bool \<times> 'e m25_st) option" where
  "Mcp4725_open os errno mode = (\<lambda>(d, e).
     let (opened, b, e) = I2cDev_open os mode (m25_i2c d, e); d = d\<lparr>m25_i2c := b\<rparr> in
     if opened then do {
       (ok, d, e) \<leftarrow> Mcp4725_updateSetup os (d, e);
       if ok then let (r, d) = IoDevice_Private_open mode d in Some (r, d, e) else Some (False, d, e)
     } else Some (False, (if io_error b \<noteq> 0 then IoDevice_setError (sys_strerror os) errno d
         else IoDevice_setError_code (sys_strerror os) ENODEV d)\<lparr>m25_isConnected := False\<rparr>, e))"

definition Mcp4725_close :: "'e m25_st \<Rightarrow> 'e m25_st option" where
  "Mcp4725_close = (\<lambda>(d, e). Some (IoDevice_Private_close d, e))"

definition Mcp4725_vtable :: "'e i2c_os \<Rightarrow> int \<Rightarrow> 'e m25_st conv_vtable" where
  "Mcp4725_vtable os errno = \<lparr>v_openMode = (\<lambda>s. openMode (fst s)), v_type = DigitalToAnalog, v_flags = 0x1014,
     v_open = Mcp4725_open os errno, v_close = Mcp4725_close, v_read = Mcp4725_read, v_write = Mcp4725_write os,
     v_toggle = default_toggle, v_readChannel = Mcp4725_readChannel, v_writeChannel = Mcp4725_writeChannel os,
     v_numberOfChannels = (\<lambda>s. 1), v_max = (\<lambda>d s. 2 ^ 12 - 1), v_min = (\<lambda>d s. 0),
     v_mode = Mcp4725_mode, v_setMode = Mcp4725_setMode\<rparr>"

interpretation m25: converter "Mcp4725_vtable os errno" "\<lambda>_. True" for os errno
  by unfold_locales (simp add: Mcp4725_vtable_def)

section \<open>The messages of the chip\<close>

text \<open>
  How the chip reads a message: a fast write has two bytes, any other three with the command in the
  first; the value is in the low twelve bits of a fast write, and in the high twelve of the last two
  bytes of the others.
\<close>

definition mcp4725_decode :: "u8 list \<Rightarrow> int" where
  "mcp4725_decode msg = (if length msg = 2 then (uint (msg ! 0) mod 16) * 256 + uint (msg ! 1)
     else uint (msg ! 1) * 16 + uint (msg ! 2) div 16)"

lemma decode_short: "mcp4725_decode [a, b] = uint a mod 16 * 256 + uint b"
  and decode_long: "mcp4725_decode [a, b, c] = uint b * 16 + uint c div 16"
  by (simp_all add: mcp4725_decode_def)

lemma nat_less_8: "n < (8 :: nat) \<longleftrightarrow> n = 0 \<or> n = 1 \<or> n = 2 \<or> n = 3 \<or> n = 4 \<or> n = 5 \<or> n = 6 \<or> n = 7"
  by auto

lemma low_nibble_shift: "(w * 16 :: u8) AND 0xF0 = w * 16"
proof -
  have "push_bit 4 w AND 0xF0 = push_bit 4 w"
    by (rule bit_word_eqI) (auto simp: nat_less_8 bit_simps)
  then show ?thesis by (simp add: push_bit_eq_mult)
qed

lemma byte_and_FF: "(w :: u8) AND 0xFF = w"
  by (rule bit_word_eqI) (auto simp: nat_less_8 bit_simps)

lemma uint_of_int_u8: "uint (of_int x :: u8) = x mod 256"
  by (simp add: uint_word_of_int)

lemma uint_times_16: "uint (of_int x * 16 :: u8) = x * 16 mod 256"
  using uint_of_int_u8 [of "x * 16"] by simp

lemma encode_message:
  assumes "length regs = 5"
  shows "case Mcp4725_encode m v regs of (n, regs') \<Rightarrow> length regs' = 5 \<and> n < 5 \<and>
    take n regs' = (if m AND FastMode \<noteq> 0 then [of_int (v div 2 ^ 8), of_int v]
      else [(if m = SaveToEEPROM then WRDACEE else WRDAC) OR (if m AND PwrDwnEn \<noteq> 0 then pd_bits m else 0),
        of_int (v div 2 ^ 4), of_int v * 16])"
proof -
  obtain r0 r1 r2 r3 r4 where "regs = [r0, r1, r2, r3, r4]"
    using assms by (auto simp: eval_nat_numeral length_Suc_conv)
  then show ?thesis by (simp add: Mcp4725_encode_def byte_and_FF low_nibble_shift numeral_2_eq_2 numeral_3_eq_3)
qed

lemma decode_encode:
  assumes "length regs = 5" and v: "0 \<le> v" "v < 4096"
  shows "mcp4725_decode (case Mcp4725_encode m v regs of (n, regs') \<Rightarrow> take n regs') = v"
proof -
  have r: "0 \<le> v div 256" "v div 256 < 16" "0 \<le> v div 16" "v div 16 < 256" using v by auto
  have "v * 16 mod 256 = v mod 16 * 16"
    using mult_mod_right [of 16 v 16] by (simp add: mult.commute [of v])
  then have u: "uint (of_int v * 16 :: u8) div 16 = v mod 16" by (simp only: uint_times_16)
  have w: "uint (of_int (v div 2 ^ 8) :: u8) = v div 256" "uint (of_int (v div 2 ^ 4) :: u8) = v div 16"
    unfolding uint_of_int_u8 using r by simp_all
  have m: "v div 256 mod 16 = v div 256" using r by simp
  have "mcp4725_decode [of_int (v div 2 ^ 8), of_int v] = v"
    "\<And>c. mcp4725_decode [c, of_int (v div 2 ^ 4), of_int v * 16] = v"
    unfolding decode_short decode_long w u m by (simp_all only: uint_of_int_u8 div_mult_mod_eq)
  then show ?thesis
    using encode_message [OF assms(1), of m v] by (auto split: prod.splits)
qed

section \<open>Properties\<close>

definition m25_ok :: "mcp4725 \<Rightarrow> bool" where
  "m25_ok d \<longleftrightarrow> i2c_ready (m25_i2c d) \<and> length (m25_regs d) = 5 \<and> m25_currentMode d AND AnalogOutput \<noteq> 0"

text \<open>Writing a 12-bit value sends one message to the DAC, of two bytes in fast mode and three otherwise, that
  the chip reads as exactly that value; the stored value is updated when the transfer succeeds, and
  the bus is ready again in any case.\<close>

lemma mcp4725_write_decodes:
  assumes ok: "m25_ok d" and law: "rdwr_law os" and v: "0 \<le> v" "v < 4096"
  shows "\<exists>msg. mcp4725_decode msg = v \<and> length msg = (if m25_currentMode d AND FastMode \<noteq> 0 then 2 else 3) \<and>
    (case sys_i2c_rdwr os (fd (m25_i2c d)) [XWrite (m25_addr d) msg] e of (ret, err, ins, e') \<Rightarrow>
      \<exists>d'. Mcp4725_writeChannel os v c diff (d, e) = Some (0 \<le> ret, d', e') \<and> m25_ok d' \<and>
        m25_value d' = (if 0 \<le> ret then of_int v else m25_value d))"
proof -
  obtain n regs' where enc: "Mcp4725_encode (m25_currentMode d) v (m25_regs d) = (n, regs')" by fastforce
  define msg where "msg = take n regs'"
  have len: "length regs' = 5" "length msg = (if m25_currentMode d AND FastMode \<noteq> 0 then 2 else 3)"
    using encode_message [of "m25_regs d" "m25_currentMode d" v] ok by (auto simp: enc m25_ok_def msg_def)
  have dec: "mcp4725_decode msg = v"
    using decode_encode [of "m25_regs d" v "m25_currentMode d"] ok v by (simp add: enc m25_ok_def msg_def)
  obtain ret err ins e' where sys: "sys_i2c_rdwr os (fd (m25_i2c d)) [XWrite (m25_addr d) msg] e = (ret, err, ins, e')"
    by (metis prod_cases4)
  have ready: "i2c_ready (m25_i2c d)" using ok by (simp add: m25_ok_def)
  have "length msg < I2C_BLOCK_MAX" using len(2) by (simp add: I2C_BLOCK_MAX_def)
  from send_frame [OF ready law this sys]
  obtain b1 b2 b3 where b: "I2cDev_beginTransmission (m25_addr d) (m25_i2c d) = Some b1" "I2cDev_write msg b1 = Some (int (length msg), b2)"
    "I2cDev_endTransmission os True (b2, e) = (0 \<le> ret, b3, e')" "i2c_ready b3" by blast
  have "openMode (m25_i2c d) \<noteq> NotOpen" using ready by (simp add: i2c_ready_def)
  then have "\<exists>d'. Mcp4725_writeChannel os v c diff (d, e) = Some (0 \<le> ret, d', e') \<and> m25_ok d' \<and>
        m25_value d' = (if 0 \<le> ret then of_int v else m25_value d)"
    using b ok len(1)
    by (simp add: Mcp4725_writeChannel_def Mcp4725_writeRegisters_def enc m25_ok_def flip: msg_def)
  then show ?thesis using dec len(2) sys by auto
qed

text \<open>The EEPROM of the DAC is never written: \<open>writeChannel\<close> compares the whole mode word with \<open>SaveToEEPROM\<close>,
  but the mode always contains \<open>AnalogOutput\<close>, so that every three-byte message carries the command to
  write the DAC register alone.\<close>

lemma mcp4725_never_saves_eeprom:
  assumes ok: "m25_ok d" and normal: "m25_currentMode d AND FastMode = 0"
  shows "snd (Mcp4725_encode (m25_currentMode d) v (m25_regs d)) ! 0 AND 0xE0 = WRDAC"
proof -
  let ?m = "m25_currentMode d"
  have "?m \<noteq> SaveToEEPROM" using ok by (auto simp: m25_ok_def)
  moreover have "pd_bits ?m \<in> {0, PD_1K, PD_100K, PD_500K}" by (auto simp: pd_bits_def)
  moreover have "0 < length (m25_regs d)" using ok by (simp add: m25_ok_def)
  ultimately show ?thesis
    using normal by (auto simp: Mcp4725_encode_def)
qed

text \<open>\<open>setMode\<close> accepts exactly the modes the DAC has (fast or EEPROM but not both, a power-down resistor only
  with power-down enabled, no foreign flag), stores them with \<open>AnalogOutput\<close>, and changes nothing when it
  refuses.\<close>

lemma mcp4725_setMode_guards:
  "Mcp4725_setMode m c (d, e) = (
     if m AND NOT (AnalogOutput OR FastMode OR SaveToEEPROM OR PwrDwnMask) = 0 \<and>
        \<not> (m AND FastMode \<noteq> 0 \<and> m AND SaveToEEPROM \<noteq> 0) \<and> (m AND PwrDwn0 = 0 \<and> m AND PwrDwn1 = 0 \<or> m AND PwrDwnEn \<noteq> 0)
     then Some (True, d\<lparr>m25_modeSetByUser := True, m25_currentMode := m OR AnalogOutput\<rparr>, e)
     else Some (False, d, e))"
proof -
  have "AnalogOutput OR FastMode OR SaveToEEPROM OR PwrDwnEn OR PwrDwn0 OR PwrDwn1 =
      AnalogOutput OR FastMode OR SaveToEEPROM OR PwrDwnMask" by simp
  moreover have "m AND (PwrDwn0 OR PwrDwn1) = 0 \<longleftrightarrow> m AND PwrDwn0 = 0 \<and> m AND PwrDwn1 = 0"
    by (simp only: bit.conj_disj_distrib or_eq_0_iff)
  ultimately show ?thesis by (auto simp: Mcp4725_setMode_def)
qed

text \<open>The value the driver reads back from a ready DAC when it opens is the one held in the two DAC bytes: after
  a successful read of the five registers the driver reports the 12-bit value that they encode.\<close>

lemma mcp4725_updateSetup_reads_value:
  assumes ok: "m25_ok d" and law: "rdwr_law os" and user: "m25_modeSetByUser d" "m25_currentMode d AND SaveToEEPROM = 0"
    and sys: "sys_i2c_rdwr os (fd (m25_i2c d)) [XRead (m25_addr d) 5] e = (ret, err, [[cfg, b1, b2, p1, p2]], e')"
    and ret: "0 \<le> ret" and cfg: "cfg AND READY = READY"
  shows "\<exists>d'. Mcp4725_updateSetup os (d, e) = Some (True, d', e') \<and> uint (m25_value d') = mcp4725_decode [cfg, b1, b2]"
proof -
  have p: "i2c_pending [] (m25_i2c d)" and open_bus: "openMode (m25_i2c d) \<noteq> NotOpen"
    using ok by (auto simp: i2c_pending_def m25_ok_def i2c_ready_def)
  obtain b bs where b: "[[cfg, b1, b2, p1, p2]] = [bs]" "I2cDev_requestFrom os (m25_addr d) 5 True (m25_i2c d, e) = Some (5, b, e')"
    "i2c_ready b" "fifo_inv (rxbuf b)" "fifo_bytes (rxbuf b) = bs"
    using request_ok [OF p law _ _ ret, of 5 "m25_addr d" e err "[[cfg, b1, b2, p1, p2]]" e'] sys by (auto simp: I2C_BLOCK_MAX_def)
  have bs: "bs = [cfg, b1, b2, p1, p2]" using b(1) by simp
  obtain b' where "I2cDev_read (length bs) b = Some (bs, b')" using read_all [OF b(4,5)] by auto
  moreover have "length bs = 5" using bs by simp
  ultimately have b': "I2cDev_read 5 b = Some (bs, b')" by simp
  have av: "I2cDev_available b = 5"
    using b(4,5) bs by (auto simp: I2cDev_available_def fifo_bytes_def fifo_inv_def dest: arg_cong [of _ _ length])
  have regs: "memcpy 0 bs (m25_regs d) = [cfg, b1, b2, p1, p2]" using ok bs by (simp add: memcpy_def m25_ok_def)
  let ?rv = "push_bit 4 (ucast b1 :: u16) OR (drop_bit 4 (ucast b2) AND 0x000F)"
  have "\<exists>d'. Mcp4725_updateSetup os (d, e) = Some (True, d', e') \<and> m25_value d' = ?rv"
    using b(2) b' av regs open_bus user cfg
    by (simp add: Mcp4725_updateSetup_def Mcp4725_readRegisters_def Let_def)
  moreover have "uint ?rv = mcp4725_decode [cfg, b1, b2]"
  proof -
    have lt: "uint b1 < 256" "uint b2 < 256" using uint_lt2p [of b1] uint_lt2p [of b2] by simp_all
    have d: "drop_bit 4 (ucast b2 :: u16) AND 0x000F = drop_bit 4 (ucast b2)"
    proof -
      have f: "(0x000F :: u16) = mask 4" by (simp add: mask_eq_exp_minus_1)
      show ?thesis unfolding f by (rule bit_word_eqI) (auto simp: bit_simps dest: bit_imp_le_length)
    qed
    have "push_bit 4 (ucast b1 :: u16) AND drop_bit 4 (ucast b2) = 0"
      by (rule bit_word_eqI) (auto simp: bit_simps dest: bit_imp_le_length)
    then have "?rv = push_bit 4 (ucast b1) + drop_bit 4 (ucast b2)"
      unfolding d by (simp add: disjunctive_add_eq_or)
    also have "uint \<dots> = uint b1 * 16 + uint b2 div 16"
    proof -
      have "uint (ucast b1 :: u16) = uint b1" "uint (ucast b2 :: u16) = uint b2" by (simp_all add: uint_up_ucast is_up)
      moreover have "uint b1 * 16 + uint b2 div 16 < 65536" "uint b1 * 16 < 65536" "0 \<le> uint b2 div 16"
        using lt by (auto simp: div_int_pos_iff)
      ultimately show ?thesis
        by (simp add: uint_word_ariths push_bit_eq_mult drop_bit_eq_div uint_div)
    qed
    finally show ?thesis by (simp add: decode_long)
  qed
  ultimately show ?thesis by auto
qed

definition demo_m25 :: mcp4725 where
  "demo_m25 = mcp4725_new demo_bus 0x60"

lemma demo_m25_ok: "m25_ok demo_m25"
  using demo_bus_ready by (simp add: m25_ok_def demo_m25_def mcp4725_new_def iodevice.defs)

lemma demo_m25_fields: "fd (m25_i2c demo_m25) = 3" "m25_addr demo_m25 = 0x60" "m25_currentMode demo_m25 AND FastMode = 0"
  "m25_currentMode demo_m25 AND SaveToEEPROM = 0"
  using demo_bus_fd by (simp_all add: demo_m25_def mcp4725_new_def iodevice.defs)

lemma mcp4725_write_decodes_witness:
  "\<exists>msg d' e'. mcp4725_decode msg = 2748 \<and> Mcp4725_writeChannel loop_os 2748 0 False (demo_m25, []) = Some (True, d', e') \<and>
    m25_value d' = 2748"
  using mcp4725_write_decodes [OF demo_m25_ok loop_os_law, where v = 2748 and e = "[]" and c = 0 and diff = False] by (auto simp: loop_os_def)

lemma mcp4725_never_saves_eeprom_witness:
  "snd (Mcp4725_encode (SaveToEEPROM OR AnalogOutput) 5 (replicate 5 0)) ! 0 AND 0xE0 = WRDAC"
  using mcp4725_never_saves_eeprom [of "demo_m25\<lparr>m25_currentMode := SaveToEEPROM OR AnalogOutput\<rparr>" 5] demo_m25_ok
  by (simp add: m25_ok_def demo_m25_def mcp4725_new_def iodevice.defs)

text \<open>A DAC that always answers with the registers of a ready chip holding \<open>0xABC\<close>.\<close>

definition dac_os :: "unit i2c_os" where
  "dac_os = \<lparr>sys_open = (\<lambda>p fl e. (3, 0, e)), sys_close = (\<lambda>f e. (0, 0, e)),
     sys_i2c_funcs = (\<lambda>f e. (0, I2C_FUNC_I2C, 0, e)),
     sys_i2c_rdwr = (\<lambda>f xs e. if read_lengths xs = [5] then (1, 0, [[0xC0, 0xAB, 0xC0, 0, 0]], e) else (- 1, 121, [], e)),
     sys_strerror = (\<lambda>n. ''error'')\<rparr>"

lemma dac_os_law: "rdwr_law dac_os"
  by (auto simp: rdwr_law_def dac_os_def split: if_splits)

lemma mcp4725_updateSetup_reads_value_witness:
  "\<exists>d'. Mcp4725_updateSetup dac_os (demo_m25\<lparr>m25_modeSetByUser := True\<rparr>, ()) = Some (True, d', ()) \<and> uint (m25_value d') = 0xABC"
proof -
  have ok: "m25_ok (demo_m25\<lparr>m25_modeSetByUser := True\<rparr>)" using demo_m25_ok by (simp add: m25_ok_def)
  show ?thesis
    using mcp4725_updateSetup_reads_value [OF ok dac_os_law, where e = "()" and ret = 1 and err = 0 and cfg = "0xC0" and
        ?b1.0 = "0xAB" and ?b2.0 = "0xC0" and ?p1.0 = 0 and ?p2.0 = 0 and e' = "()"] demo_m25_fields
    by (simp add: dac_os_def decode_long)
qed

end
