(* ===== verification/Mcp4728.thy ===== *)
theory Mcp4728
  imports Mcp4725 Complex_Main
begin

text \<open>
  The driver of the MCP4728 four-channel 12-bit digital-to-analog converter with EEPROM
  (\<open>src/ext/mcp4728.cpp\<close>, \<open>src/ext/mcp4728_p.h\<close>).

  A \<open>ChannelBuffer\<close> is the record of its three bytes, which the driver sends and receives as such. The
  full-scale ranges are real numbers: the driver only copies them and doubles one. A
  method that reads \<open>std::array::at\<close> may throw and returns a \<open>res\<close>; in the table of virtual methods it has then no
  value. The waiting time between two writes to the EEPROM and the messages to \<open>cerr\<close> are left out.

  The chip is the predicate \<open>mcp4728_bus\<close> over the state \<open>dac_chip\<close>: for each channel the two bytes of its DAC register
  and of its EEPROM, changed by the three write commands and sent on a read, as in the data sheet.
\<close>

section \<open>Constants and state\<close>

abbreviation (input) UDAC :: u8 where "UDAC \<equiv> 0x01"
abbreviation (input) MTWRDAC :: u8 where "MTWRDAC \<equiv> 0x40"
abbreviation (input) SGWRDACEE :: u8 where "SGWRDACEE \<equiv> 0x58"
abbreviation (input) VREF :: u8 where "VREF \<equiv> 0x80"
abbreviation (input) GX :: u8 where "GX \<equiv> 0x10"
abbreviation (input) M28_PD_1K :: u8 where "M28_PD_1K \<equiv> 0x20"
abbreviation (input) M28_PD_100K :: u8 where "M28_PD_100K \<equiv> 0x40"
abbreviation (input) M28_PD_500K :: u8 where "M28_PD_500K \<equiv> 0x60"
abbreviation (input) M28_PD_MASK :: u8 where "M28_PD_MASK \<equiv> 0x60"
abbreviation (input) EEPROM :: u8 where "EEPROM \<equiv> 0x08"
abbreviation (input) M28_READY :: u8 where "M28_READY \<equiv> 0xC0"
abbreviation (input) WRCHIDX :: nat where "WRCHIDX \<equiv> 1"
abbreviation (input) RWCHIDX :: nat where "RWCHIDX \<equiv> 4"

abbreviation (input) GainMask :: conv_mode where "GainMask \<equiv> 0x1E0000"
abbreviation (input) Gain1 :: conv_mode where "Gain1 \<equiv> GainEn"

abbreviation (input) DefaultReference :: int where "DefaultReference \<equiv> 0"
abbreviation (input) InternalReference :: int where "InternalReference \<equiv> 1"
abbreviation (input) VddReference :: int where "VddReference \<equiv> 2"

abbreviation (input) NofChannels :: nat where "NofChannels \<equiv> 4"
abbreviation (input) DefaultMode :: conv_mode where "DefaultMode \<equiv> NoMode OR AnalogOutput OR Gain1"
abbreviation (input) DefaultFullScaleRange :: real where "DefaultFullScaleRange \<equiv> 3.3"
abbreviation (input) InternalFullScaleRange :: real where "InternalFullScaleRange \<equiv> 2.048"

record dac_channel =
  c_fsr :: real
  c_value :: u16
  c_eeprom :: u16
  c_mode :: conv_mode
  c_refId :: int
  c_modeSetByUser :: bool
  c_refSetByUser :: bool
  c_isReady :: bool

definition channel_new :: dac_channel where
  "channel_new = \<lparr>c_fsr = DefaultFullScaleRange, c_value = 0, c_eeprom = 0, c_mode = DefaultMode, c_refId = VddReference,
     c_modeSetByUser = False, c_refSetByUser = False, c_isReady = False\<rparr>"

record channel_buffer =
  cb_cmd :: u8
  cb_data0 :: u8
  cb_data1 :: u8

record mcp4728 = iodevice +
  m28_i2c :: i2cdev
  m28_addr :: u16
  m28_isConnected :: bool
  m28_chan :: "dac_channel list"

type_synonym 'e m28_st = "mcp4728 \<times> 'e"

definition mcp4728_new :: "i2cdev \<Rightarrow> u16 \<Rightarrow> mcp4728" where
  "mcp4728_new dev address = iodevice.extend iodevice_new \<lparr>m28_i2c = dev, m28_addr = address, m28_isConnected = False,
     m28_chan = replicate NofChannels channel_new\<rparr>"

section \<open>Channels and their buffers\<close>

definition Channel_setReference :: "int \<Rightarrow> real \<Rightarrow> dac_channel \<Rightarrow> dac_channel" where
  "Channel_setReference referenceId fsr ch = (
     (if fsr \<noteq> 0 then ch\<lparr>c_fsr := fsr\<rparr>
      else if c_refId ch \<noteq> referenceId then
        (if referenceId = InternalReference
         then ch\<lparr>c_fsr := (if c_mode ch AND GainMask = Gain2 then InternalFullScaleRange * 2 else InternalFullScaleRange)\<rparr>
         else ch\<lparr>c_fsr := DefaultFullScaleRange\<rparr>)
      else ch)\<lparr>c_refId := referenceId\<rparr>)"

definition buffer_bytes :: "channel_buffer \<Rightarrow> u8 list" where
  "buffer_bytes b = [cb_cmd b, cb_data0 b, cb_data1 b]"

definition Buffer_setBuffer :: "dac_channel \<Rightarrow> u8 \<Rightarrow> bool \<Rightarrow> u8 \<Rightarrow> channel_buffer \<times> dac_channel" where
  "Buffer_setBuffer ch index noUpdate wrCmd = (
     \<lparr>cb_cmd = (if wrCmd \<noteq> 0 then wrCmd else if c_mode ch AND SaveToEEPROM \<noteq> 0 then SGWRDACEE else MTWRDAC)
        OR push_bit WRCHIDX index OR (if noUpdate then UDAC else 0),
      cb_data0 = ucast (drop_bit 8 (c_value ch))
        OR (if c_refId ch = InternalReference then VREF else 0)
        OR (if c_mode ch AND GainMask = Gain2 then GX else 0)
        OR (if c_mode ch AND PwrDwnEn \<noteq> 0 then
              (if c_mode ch AND PwrDwnMask = PwrDwnR1 then M28_PD_1K
               else if c_mode ch AND PwrDwnMask = PwrDwnR2 then M28_PD_100K
               else if c_mode ch AND PwrDwnMask = PwrDwnR3 then M28_PD_500K else 0)
            else 0),
      cb_data1 = ucast (c_value ch AND 0xFF)\<rparr>,
     if c_mode ch AND SaveToEEPROM \<noteq> 0 then ch\<lparr>c_eeprom := c_value ch\<rparr> else ch)"

definition Buffer_mode :: "channel_buffer \<Rightarrow> conv_mode" where
  "Buffer_mode b = AnalogOutput OR (if cb_data0 b AND GX \<noteq> 0 then Gain2 else Gain1)
     OR (let pd = cb_data0 b AND M28_PD_MASK in if pd = M28_PD_1K then PwrDwnR1 else if pd = M28_PD_100K then PwrDwnR2
         else if pd = M28_PD_500K then PwrDwnR3 else NoMode)"

definition Buffer_reference :: "channel_buffer \<Rightarrow> int" where
  "Buffer_reference b = (if cb_data0 b AND VREF \<noteq> 0 then InternalReference else VddReference)"

definition Buffer_value :: "channel_buffer \<Rightarrow> u16" where
  "Buffer_value b = push_bit 8 (ucast (cb_data0 b AND 0x0F)) OR ucast (cb_data1 b)"

definition Buffer_channel :: "bool \<Rightarrow> channel_buffer \<Rightarrow> u8" where
  "Buffer_channel isRxFrame b = drop_bit (if isRxFrame then RWCHIDX else WRCHIDX) (cb_cmd b) AND 0x03"

definition Buffer_setChannel :: "channel_buffer \<Rightarrow> dac_channel \<Rightarrow> dac_channel" where
  "Buffer_setChannel b ch = (if cb_cmd b AND EEPROM \<noteq> 0
     then ch\<lparr>c_eeprom := Buffer_value b, c_isReady := (cb_cmd b AND M28_READY = M28_READY)\<rparr>
     else let ch = ch\<lparr>c_value := Buffer_value b\<rparr>;
       ch = (if \<not> c_modeSetByUser ch
         then ch\<lparr>c_mode := (c_mode ch AND NOT (PwrDwnMask OR GainMask)) OR (Buffer_mode b AND (PwrDwnMask OR GainMask))\<rparr> else ch)
       in if \<not> c_refSetByUser ch then Channel_setReference (Buffer_reference b) 0 ch else ch)"

section \<open>The constructor from a parameter string\<close>

text \<open>\<open>stod\<close> stands for \<open>std::stod\<close>, whose result is rounded to a double.\<close>

definition m28_mode_parameter :: "(string \<times> string) list \<Rightarrow> conv_mode \<times> bool \<Rightarrow> conv_mode \<times> bool" where
  "m28_mode_parameter params = (\<lambda>(m, byUser). case map_of params ''mode'' of None \<Rightarrow> (m, byUser) | Some str \<Rightarrow>
     if str = ''eeprom'' then (m OR SaveToEEPROM, byUser)
     else if str = ''fast'' then (m OR FastMode, byUser)
     else if str = ''pd1k'' then (m OR PwrDwnR1, True)
     else if str = ''pd100k'' then (m OR PwrDwnR2, True)
     else if str = ''pd500k'' then (m OR PwrDwnR3, True)
     else (m, byUser))"

definition Mcp4728_new_params :: "'e i2c_os \<Rightarrow> (int \<Rightarrow> string) \<Rightarrow> (string \<Rightarrow> real res) \<Rightarrow> i2cdev \<Rightarrow> string \<Rightarrow> 'e \<Rightarrow> (mcp4728 \<times> 'e) res" where
  "Mcp4728_new_params os busPath stod dev params e = (let pm = paramsMap params in
     rbind (bus_parameter os busPath pm (dev, e)) (\<lambda>(dev, e).
     rbind (addr_parameter 0x60 0x60 pm) (\<lambda>addr.
     rbind (int_parameter ''gain'' 1 pm) (\<lambda>gain.
     let (m, modeSetByUser) = m28_mode_parameter pm
       (if gain = Some 2 then (DefaultMode AND NOT GainMask) OR Gain2 else DefaultMode, gain \<noteq> None) in
     rbind (case map_of pm ''fsr'' of None \<Rightarrow> Inr 0 | Some str \<Rightarrow> stod str) (\<lambda>fsr.
     let ref = Option.bind (map_of pm ''ref'') (map_of [(''int'', InternalReference), (''vdd'', VddReference)]) in
     Inr ((mcp4728_new dev addr)\<lparr>m28_chan := map (\<lambda>ch. Channel_setReference (case ref of None \<Rightarrow> DefaultReference | Some r \<Rightarrow> r) fsr
         (ch\<lparr>c_mode := m, c_modeSetByUser := modeSetByUser, c_refSetByUser := (ref \<noteq> None)\<rparr>)) (replicate NofChannels channel_new)\<rparr>, e))))))"

section \<open>Transfers\<close>

text \<open>\<open>readRegisters\<close> fills the array of eight buffers byte by byte.\<close>

fun buffers_of_bytes :: "u8 list \<Rightarrow> channel_buffer list" where
  "buffers_of_bytes (a # b # c # xs) = \<lparr>cb_cmd = a, cb_data0 = b, cb_data1 = c\<rparr> # buffers_of_bytes xs"
| "buffers_of_bytes _ = []"

definition Mcp4728_readRegisters :: "'e i2c_os \<Rightarrow> 'e m28_st \<Rightarrow> (bool \<times> channel_buffer list \<times> 'e m28_st) option" where
  "Mcp4728_readRegisters os = (\<lambda>(d, e). let mx = 3 * NofChannels * 2; mem = replicate mx 0 in
     if IoDevice_isOpen (m28_i2c d) then do {
       (r, b, e) \<leftarrow> I2cDev_requestFrom os (m28_addr d) mx True (m28_i2c d, e);
       if 0 \<le> r then do {
         let bytesRead = I2cDev_available b;
         (bs, b) \<leftarrow> I2cDev_read (min bytesRead mx) b;
         Some (bytesRead = mx, buffers_of_bytes (memcpy 0 bs mem), d\<lparr>m28_i2c := b, m28_isConnected := True\<rparr>, e)
       } else Some (False, buffers_of_bytes mem, d\<lparr>m28_i2c := b\<rparr>, e)
     } else Some (False, buffers_of_bytes mem, d, e))"

definition Mcp4728_writeRegisters :: "'e i2c_os \<Rightarrow> u8 list \<Rightarrow> 'e m28_st \<Rightarrow> (bool \<times> 'e m28_st) option" where
  "Mcp4728_writeRegisters os buffer = (\<lambda>(d, e).
     if IoDevice_isOpen (m28_i2c d) then do {
       b \<leftarrow> I2cDev_beginTransmission (m28_addr d) (m28_i2c d);
       (_, b) \<leftarrow> I2cDev_write buffer b;
       let (ok, b, e) = I2cDev_endTransmission os True (b, e);
       if ok then Some (True, d\<lparr>m28_i2c := b, m28_isConnected := True\<rparr>, e) else Some (False, d\<lparr>m28_i2c := b\<rparr>, e)
     } else Some (False, d, e))"

definition set_channels :: "channel_buffer list \<Rightarrow> dac_channel list \<Rightarrow> dac_channel list" where
  "set_channels bs chan = fold (\<lambda>b chan. let i = unat (Buffer_channel True b) in chan[i := Buffer_setChannel b (chan ! i)]) bs chan"

definition Mcp4728_updateSetup :: "'e i2c_os \<Rightarrow> 'e m28_st \<Rightarrow> (bool \<times> 'e m28_st) option" where
  "Mcp4728_updateSetup os s = do {
     (ok, buffers, d, e) \<leftarrow> Mcp4728_readRegisters os s;
     if ok then Some (True, d\<lparr>m28_chan := set_channels buffers (m28_chan d)\<rparr>, e) else Some (False, d, e)
   }"

section \<open>The methods of the converter\<close>

definition Mcp4728_open :: "'e i2c_os \<Rightarrow> int \<Rightarrow> u32 \<Rightarrow> 'e m28_st \<Rightarrow> (bool \<times> 'e m28_st) option" where
  "Mcp4728_open os errno mode = (\<lambda>(d, e).
     let (opened, b, e) = I2cDev_open os mode (m28_i2c d, e); d = d\<lparr>m28_i2c := b\<rparr> in
     if opened then do {
       (ok, d, e) \<leftarrow> Mcp4728_updateSetup os (d, e);
       if ok then let (r, d) = IoDevice_Private_open mode d in Some (r, d, e) else Some (False, d, e)
     } else Some (False, (if io_error b \<noteq> 0 then IoDevice_setError (sys_strerror os) errno d
         else IoDevice_setError_code (sys_strerror os) ENODEV d)\<lparr>m28_isConnected := False\<rparr>, e))"

definition Mcp4728_close :: "'e m28_st \<Rightarrow> 'e m28_st option" where
  "Mcp4728_close = (\<lambda>(d, e). Some (IoDevice_Private_close d, e))"

definition Mcp4728_mode :: "int \<Rightarrow> 'e m28_st \<Rightarrow> conv_mode res" where
  "Mcp4728_mode channel s = map_sum id c_mode (array_at (m28_chan (fst s)) channel)"

definition Mcp4728_readChannel :: "int \<Rightarrow> bool \<Rightarrow> 'e m28_st \<Rightarrow> int res" where
  "Mcp4728_readChannel channel differential s = rbind (Mcp4728_mode 0 s) (\<lambda>m.
     if m AND SaveToEEPROM \<noteq> 0 then map_sum id (\<lambda>ch. uint (c_eeprom ch)) (array_at (m28_chan (fst s)) channel)
     else map_sum id (\<lambda>ch. uint (c_value ch)) (array_at (m28_chan (fst s)) channel))"

definition Mcp4728_read :: "'e m28_st \<Rightarrow> int res" where
  "Mcp4728_read = Mcp4728_readChannel 0 False"

definition Mcp4728_fastWrite_values :: "'e i2c_os \<Rightarrow> u16 list \<Rightarrow> 'e m28_st \<Rightarrow> (bool \<times> 'e m28_st) option" where
  "Mcp4728_fastWrite_values os values = Mcp4728_writeRegisters os
     (concat (map (\<lambda>i. [ucast (drop_bit 8 (values ! i) AND 0x0F), ucast (values ! i AND 0xFF)]) [0..<NofChannels]))"

definition Mcp4728_fastWrite :: "'e i2c_os \<Rightarrow> u16 \<Rightarrow> 'e m28_st \<Rightarrow> (bool \<times> 'e m28_st) option" where
  "Mcp4728_fastWrite os value = (let msb = ucast (drop_bit 8 value AND 0x0F); lsb = ucast (value AND 0xFF) in
     Mcp4728_writeRegisters os (concat (map (\<lambda>i. [msb, lsb]) [0..<4])))"

text \<open>The loop that writes the buffers one by one, stopping at the first failure.\<close>

fun write_buffers :: "'e i2c_os \<Rightarrow> channel_buffer list \<Rightarrow> 'e m28_st \<Rightarrow> (bool \<times> 'e m28_st) option" where
  "write_buffers os [] s = Some (True, s)"
| "write_buffers os (b # bs) s = do {
     (ok, s) \<leftarrow> Mcp4728_writeRegisters os (buffer_bytes b) s;
     if \<not> ok then Some (False, s) else write_buffers os bs s
   }"

definition Mcp4728_writeChannel :: "'e i2c_os \<Rightarrow> int \<Rightarrow> int \<Rightarrow> bool \<Rightarrow> 'e m28_st \<Rightarrow> (bool \<times> 'e m28_st) option" where
  "Mcp4728_writeChannel os value channel noUpdate = (\<lambda>(d, e).
     if channel = - 1 then
       let chan = map (\<lambda>ch. ch\<lparr>c_value := of_int value\<rparr>) (m28_chan d); d = d\<lparr>m28_chan := chan\<rparr> in
       if \<exists>ch \<in> set chan. c_mode ch AND FastMode \<noteq> 0 then Mcp4728_fastWrite os (of_int value) (d, e)
       else let bcs = map (\<lambda>i. Buffer_setBuffer (chan ! i) (of_nat i) noUpdate 0) [0..<NofChannels];
         buffers = map fst bcs; d = d\<lparr>m28_chan := map snd bcs\<rparr>
       in if \<exists>ch \<in> set chan. c_mode ch AND SaveToEEPROM \<noteq> 0 then write_buffers os buffers (d, e)
       else Mcp4728_writeRegisters os (concat (map buffer_bytes buffers)) (d, e)
     else if 0 \<le> channel \<and> channel < int NofChannels then do {
       let c = nat channel;
       let ch = (m28_chan d ! c)\<lparr>c_value := of_int value\<rparr>;
       let (buffer, ch) = Buffer_setBuffer ch (of_nat c) noUpdate 0;
       (ok, d, e) \<leftarrow> Mcp4728_writeRegisters os (buffer_bytes buffer) (d\<lparr>m28_chan := (m28_chan d)[c := ch]\<rparr>, e);
       if \<not> ok then Some (False, d\<lparr>m28_chan := (m28_chan d)[c := (m28_chan d ! c)\<lparr>c_value := 0\<rparr>]\<rparr>, e) else Some (True, d, e)
     } else Some (False, d, e))"

definition Mcp4728_write :: "'e i2c_os \<Rightarrow> int \<Rightarrow> 'e m28_st \<Rightarrow> (bool \<times> 'e m28_st) option" where
  "Mcp4728_write os value = Mcp4728_writeChannel os value (- 1) False"

definition Mcp4728_setFullScaleRange :: "real \<Rightarrow> int \<Rightarrow> 'e m28_st \<Rightarrow> (bool \<times> 'e m28_st) res" where
  "Mcp4728_setFullScaleRange fsr channel = (\<lambda>(d, e).
     if fsr \<noteq> 0 then
       (if channel = - 1 then Inr (True, d\<lparr>m28_chan := map (\<lambda>ch. ch\<lparr>c_fsr := fsr\<rparr>) (m28_chan d)\<rparr>, e)
        else map_sum id (\<lambda>ch. (True, d\<lparr>m28_chan := (m28_chan d)[nat channel := ch\<lparr>c_fsr := fsr\<rparr>]\<rparr>, e)) (array_at (m28_chan d) channel))
     else Inr (False, d, e))"

definition user_reference :: "int \<Rightarrow> real \<Rightarrow> dac_channel \<Rightarrow> dac_channel" where
  "user_reference referenceId fsr ch = Channel_setReference referenceId fsr
     (if referenceId \<noteq> c_refId ch then ch\<lparr>c_refSetByUser := True\<rparr> else ch)"

definition Mcp4728_setReference :: "int \<Rightarrow> real \<Rightarrow> int \<Rightarrow> 'e m28_st \<Rightarrow> (bool \<times> 'e m28_st) res" where
  "Mcp4728_setReference referenceId fsr channel = (\<lambda>(d, e).
     if referenceId = VddReference \<or> referenceId = InternalReference \<or> referenceId = DefaultReference then
       (if channel = - 1 then Inr (True, d\<lparr>m28_chan := map (user_reference referenceId fsr) (m28_chan d)\<rparr>, e)
        else map_sum id (\<lambda>ch. (True, d\<lparr>m28_chan := (m28_chan d)[nat channel := user_reference referenceId fsr ch]\<rparr>, e))
          (array_at (m28_chan d) channel))
     else Inr (False, d, e))"

definition Mcp4728_fullScaleRange :: "int \<Rightarrow> 'e m28_st \<Rightarrow> real res" where
  "Mcp4728_fullScaleRange channel s = map_sum id c_fsr (array_at (m28_chan (fst s)) channel)"

definition Mcp4728_reference :: "int \<Rightarrow> 'e m28_st \<Rightarrow> int res" where
  "Mcp4728_reference channel s = map_sum id c_refId (array_at (m28_chan (fst s)) channel)"

definition Mcp4728_setMode :: "conv_mode \<Rightarrow> int \<Rightarrow> 'e m28_st \<Rightarrow> (bool \<times> 'e m28_st) option" where
  "Mcp4728_setMode m channel = (\<lambda>(d, e). let set = (\<lambda>ch. ch\<lparr>c_mode := m OR AnalogOutput, c_modeSetByUser := True\<rparr>) in
     if m AND NOT (AnalogOutput OR GainMask OR SaveToEEPROM OR PwrDwnMask OR FastMode) \<noteq> 0 then Some (False, d, e)
     else if \<not> m AND PwrDwnEn \<noteq> 0 \<and> m AND (PwrDwn0 OR PwrDwn1) \<noteq> 0 then Some (False, d, e)
     else if channel = - 1 then Some (True, d\<lparr>m28_chan := map set (m28_chan d)\<rparr>, e)
     else if 0 \<le> channel \<and> channel < int NofChannels
     then Some (True, d\<lparr>m28_chan := (m28_chan d)[nat channel := set (m28_chan d ! nat channel)]\<rparr>, e)
     else Some (False, d, e))"

text \<open>In the table a method that throws has no value.\<close>

definition returns :: "'a res \<Rightarrow> 's \<Rightarrow> ('a \<times> 's) option" where
  "returns r s = (case r of Inl x \<Rightarrow> None | Inr a \<Rightarrow> Some (a, s))"

definition Mcp4728_vtable :: "'e i2c_os \<Rightarrow> int \<Rightarrow> 'e m28_st conv_vtable" where
  "Mcp4728_vtable os errno = \<lparr>v_openMode = (\<lambda>s. openMode (fst s)), v_type = DigitalToAnalog, v_flags = 0x5096,
     v_open = Mcp4728_open os errno, v_close = Mcp4728_close, v_read = (\<lambda>s. returns (Mcp4728_read s) s), v_write = Mcp4728_write os,
     v_toggle = default_toggle, v_readChannel = (\<lambda>c df s. returns (Mcp4728_readChannel c df s) s),
     v_writeChannel = Mcp4728_writeChannel os,
     v_numberOfChannels = (\<lambda>s. int NofChannels), v_max = (\<lambda>d s. 2 ^ 12 - 1), v_min = (\<lambda>d s. 0),
     v_mode = (\<lambda>c s. returns (Mcp4728_mode c s) s), v_setMode = Mcp4728_setMode\<rparr>"

interpretation m28: converter "Mcp4728_vtable os errno" "\<lambda>_. True" for os errno
  by unfold_locales (simp add: Mcp4728_vtable_def)

section \<open>The chip\<close>

record dac_chip =
  dac_regs :: "(u8 \<times> u8) list"
  ee_regs :: "(u8 \<times> u8) list"

definition dac_value :: "u8 \<times> u8 \<Rightarrow> int" where
  "dac_value r = uint (fst r AND 0x0F) * 256 + uint (snd r)"

definition dac_vref :: "u8 \<times> u8 \<Rightarrow> bool" where
  "dac_vref r = bit (fst r) 7"

definition dac_gain2 :: "u8 \<times> u8 \<Rightarrow> bool" where
  "dac_gain2 r = bit (fst r) 4"

definition dac_pd :: "u8 \<times> u8 \<Rightarrow> u8" where
  "dac_pd r = drop_bit 5 (fst r) AND 3"

text \<open>The three write commands: fast write (power-down bits and value of the channels in order), multi-write (any
  sequence of channels) and single write with EEPROM.\<close>

fun chip_fast :: "u8 list \<Rightarrow> (u8 \<times> u8) list \<Rightarrow> (u8 \<times> u8) list" where
  "chip_fast (a # b # xs) (r # rs) = ((fst r AND 0x90) OR push_bit 1 (a AND 0x30) OR (a AND 0x0F), b) # chip_fast xs rs"
| "chip_fast _ rs = rs"

fun chip_multi :: "u8 list \<Rightarrow> (u8 \<times> u8) list \<Rightarrow> (u8 \<times> u8) list" where
  "chip_multi (c # a # b # xs) rs = chip_multi xs (rs[unat (drop_bit 1 c AND 3) := (a, b)])"
| "chip_multi _ rs = rs"

definition chip_write :: "u8 list \<Rightarrow> dac_chip \<Rightarrow> dac_chip" where
  "chip_write msg s = (if msg = [] then s
     else if hd msg AND 0xC0 = 0 then s\<lparr>dac_regs := chip_fast msg (dac_regs s)\<rparr>
     else if hd msg AND 0xF8 = 0x40 then s\<lparr>dac_regs := chip_multi msg (dac_regs s)\<rparr>
     else if hd msg AND 0xF8 = 0x58
     then s\<lparr>dac_regs := chip_multi (take 3 msg) (dac_regs s), ee_regs := chip_multi (take 3 msg) (ee_regs s)\<rparr>
     else s)"

text \<open>A read sends for each channel the frame of its DAC register and that of its EEPROM, both ready.\<close>

definition chip_frames :: "dac_chip \<Rightarrow> u8 list" where
  "chip_frames s = concat (map (\<lambda>i. [0xC0 OR push_bit 4 (of_nat i), fst (dac_regs s ! i), snd (dac_regs s ! i),
     0xC8 OR push_bit 4 (of_nat i), fst (ee_regs s ! i), snd (ee_regs s ! i)]) [0..<4])"

definition mcp4728_bus :: "'e i2c_os \<Rightarrow> u16 \<Rightarrow> ('e \<Rightarrow> dac_chip) \<Rightarrow> bool" where
  "mcp4728_bus os a chip \<longleftrightarrow> rdwr_law os \<and> (\<forall>e. length (dac_regs (chip e)) = 4 \<and> length (ee_regs (chip e)) = 4) \<and>
     (\<forall>f msg e. \<exists>ret err ins e'. sys_i2c_rdwr os f [XWrite a msg] e = (ret, err, ins, e') \<and> 0 \<le> ret \<and>
       chip e' = chip_write msg (chip e)) \<and>
     (\<forall>f e. \<exists>ret err e'. sys_i2c_rdwr os f [XRead a 24] e = (ret, err, [chip_frames (chip e)], e') \<and> 0 \<le> ret \<and>
       chip e' = chip e)"

definition m28_ok :: "u16 \<Rightarrow> mcp4728 \<Rightarrow> bool" where
  "m28_ok a d \<longleftrightarrow> i2c_ready (m28_i2c d) \<and> m28_addr d = a \<and> length (m28_chan d) = 4"

text \<open>What the driver wants a register to hold for a channel with a value.\<close>

definition pd_code :: "conv_mode \<Rightarrow> u8" where
  "pd_code m = (if m AND PwrDwnMask = PwrDwnR1 then 1 else if m AND PwrDwnMask = PwrDwnR2 then 2
     else if m AND PwrDwnMask = PwrDwnR3 then 3 else 0)"

definition reg_for :: "dac_channel \<Rightarrow> int \<Rightarrow> u8 \<times> u8 \<Rightarrow> bool" where
  "reg_for ch v r \<longleftrightarrow> dac_value r = v \<and> dac_vref r = (c_refId ch = InternalReference) \<and>
     dac_gain2 r = (c_mode ch AND GainMask = Gain2) \<and> dac_pd r = pd_code (c_mode ch)"

lemma nat_less_4: "n < (4 :: nat) \<longleftrightarrow> n = 0 \<or> n = 1 \<or> n = 2 \<or> n = 3"
  by auto

lemma bits12: "0 \<le> v \<Longrightarrow> v < 4096 \<Longrightarrow> 12 \<le> n \<Longrightarrow> \<not> bit (of_int v :: u16) n"
proof -
  assume v: "0 \<le> v" "v < 4096" and n: "12 \<le> n"
  have "take_bit 12 v = v" using v by (simp add: take_bit_eq_mod)
  then have "\<not> bit v n" using n by (metis bit_take_bit_iff not_less)
  then show "\<not> bit (of_int v :: u16) n" by (simp add: bit_simps)
qed

lemma uint_value:
  assumes "0 \<le> v" "v < 4096"
  shows "uint (of_int v :: u16) = v" "uint (ucast (drop_bit 8 (of_int v :: u16)) :: u8) = v div 256"
    "uint (ucast ((of_int v :: u16) AND 0xFF) :: u8) = v mod 256"
proof -
  show u: "uint (of_int v :: u16) = v" using assms by (simp add: uint_word_of_int)
  have "v div 256 mod 256 = v div 256" using assms by (intro mod_pos_pos_trivial) auto
  then show "uint (ucast (drop_bit 8 (of_int v :: u16)) :: u8) = v div 256"
    by (simp add: unsigned_ucast_eq drop_bit_eq_div uint_div u take_bit_eq_mod)
  have m: "(0xFF :: u16) = mask 8" by (simp add: mask_eq_exp_minus_1)
  show "uint (ucast ((of_int v :: u16) AND 0xFF) :: u8) = v mod 256"
    unfolding m take_bit_eq_mask [symmetric] by (simp add: unsigned_ucast_eq uint_mod u take_bit_eq_mod)
qed

definition high_bits :: "dac_channel \<Rightarrow> u8" where
  "high_bits ch = (if c_refId ch = InternalReference then 0x80 else 0) OR (if c_mode ch AND GainMask = Gain2 then 0x10 else 0)
     OR push_bit 5 (pd_code (c_mode ch))"

lemma pd_code_cases: "pd_code m = 0 \<or> pd_code m = 1 \<or> pd_code m = 2 \<or> pd_code m = 3"
  by (simp add: pd_code_def)

lemma high_bits_fields:
  "high_bits ch AND 0x0F = 0" "bit (high_bits ch) 7 = (c_refId ch = InternalReference)"
  "bit (high_bits ch) 4 = (c_mode ch AND GainMask = Gain2)" "drop_bit 5 (high_bits ch) AND 3 = pd_code (c_mode ch)"
  using pd_code_cases [of "c_mode ch"] by (auto simp: high_bits_def bit_simps)

lemma buffer_data0:
  "cb_data0 (fst (Buffer_setBuffer ch i nu 0)) = ucast (drop_bit 8 (c_value ch)) OR high_bits ch"
proof -
  have en: "c_mode ch AND PwrDwnEn \<noteq> 0" if "c_mode ch AND PwrDwnMask \<in> {PwrDwnR1, PwrDwnR2, PwrDwnR3}"
  proof -
    have "(c_mode ch AND PwrDwnMask) AND PwrDwnEn = c_mode ch AND PwrDwnEn"
      by (simp add: and.assoc)
    then show ?thesis using that by auto
  qed
  have d: "PwrDwnR1 \<noteq> PwrDwnR2" "PwrDwnR1 \<noteq> PwrDwnR3" "PwrDwnR2 \<noteq> PwrDwnR3" by simp_all
  have "(if c_mode ch AND PwrDwnEn \<noteq> 0 then
          (if c_mode ch AND PwrDwnMask = PwrDwnR1 then M28_PD_1K else if c_mode ch AND PwrDwnMask = PwrDwnR2 then M28_PD_100K
           else if c_mode ch AND PwrDwnMask = PwrDwnR3 then M28_PD_500K else 0) else 0)
      = push_bit 5 (pd_code (c_mode ch))"
    using en d by (auto simp: pd_code_def)
  then show ?thesis
    by (simp only: Buffer_setBuffer_def fst_conv channel_buffer.simps high_bits_def or.assoc)
qed

lemma buffer_reg:
  assumes v: "0 \<le> v" "v < 4096" and c: "c_value ch = of_int v" and b: "b = fst (Buffer_setBuffer ch i nu 0)"
  shows "reg_for ch v (cb_data0 b, cb_data1 b)"
proof -
  let ?h = "ucast (drop_bit 8 (of_int v :: u16)) :: u8"
  have d0: "cb_data0 b = ?h OR high_bits ch" unfolding b buffer_data0 c ..
  have d1: "cb_data1 b = ucast ((of_int v :: u16) AND 0xFF)" by (simp add: b Buffer_setBuffer_def c)
  have hb: "\<not> bit ?h n" if "4 \<le> n" for n using bits12 [OF v, of "8 + n"] that by (simp add: bit_simps)
  have "?h AND 0x0F = ?h" 
    by (rule bit_word_eqI) (use hb [of 4] hb [of 5] hb [of 6] hb [of 7] in \<open>auto simp: nat_less_8 bit_simps\<close>)
  then have "(?h OR high_bits ch) AND 0x0F = ?h"
    by (simp add: bit.conj_disj_distrib2 high_bits_fields(1))
  moreover have "v div 256 * 256 + v mod 256 = v" by simp
  ultimately have val: "dac_value (cb_data0 b, cb_data1 b) = v"
    by (simp add: dac_value_def d0 d1 uint_value [OF v])
  have z: "drop_bit 5 ?h = 0" by (rule bit_word_eqI) (simp add: bit_drop_bit_eq hb)
  have "drop_bit 5 (cb_data0 b) AND 3 = pd_code (c_mode ch)"
    using z by (simp add: d0 drop_bit_or high_bits_fields(4))
  moreover have "bit (cb_data0 b) 7 = bit (high_bits ch) 7" "bit (cb_data0 b) 4 = bit (high_bits ch) 4"
    using hb [of 7] hb [of 4] by (auto simp: d0 bit_or_iff)
  ultimately show ?thesis
    using val by (simp add: reg_for_def dac_vref_def dac_gain2_def dac_pd_def high_bits_fields(2,3))
qed

lemma buffer_cmd:
  assumes "i < 4" and b: "b = fst (Buffer_setBuffer ch (of_nat i) nu 0)"
  shows "cb_cmd b AND 0xF8 = (if c_mode ch AND SaveToEEPROM \<noteq> 0 then 0x58 else 0x40)" "cb_cmd b AND 0xC0 \<noteq> 0"
    "unat (drop_bit 1 (cb_cmd b) AND 3) = i"
  using assms(1) unfolding b nat_less_4
  by (auto simp: Buffer_setBuffer_def)

section \<open>Transfers with the chip\<close>

lemma writeRegisters_chip:
  assumes bus: "mcp4728_bus os a chip" and ok: "m28_ok a d" and len: "length msg < 32"
  shows "\<exists>b e'. Mcp4728_writeRegisters os msg (d, e) = Some (True, d\<lparr>m28_i2c := b, m28_isConnected := True\<rparr>, e') \<and>
    i2c_ready b \<and> chip e' = chip_write msg (chip e)"
proof -
  have ready: "i2c_ready (m28_i2c d)" and a: "m28_addr d = a" using ok by (auto simp: m28_ok_def)
  have law: "rdwr_law os" using bus by (simp add: mcp4728_bus_def)
  obtain ret err ins e' where sys: "sys_i2c_rdwr os (fd (m28_i2c d)) [XWrite a msg] e = (ret, err, ins, e')" "0 \<le> ret"
    "chip e' = chip_write msg (chip e)" using bus unfolding mcp4728_bus_def by blast
  have "length msg < I2C_BLOCK_MAX" using len by (simp add: I2C_BLOCK_MAX_def)
  from send_frame [OF ready law this sys(1)]
  obtain b1 b2 b3 where b: "I2cDev_beginTransmission a (m28_i2c d) = Some b1" "I2cDev_write msg b1 = Some (int (length msg), b2)"
    "I2cDev_endTransmission os True (b2, e) = (0 \<le> ret, b3, e')" "i2c_ready b3" by blast
  have "openMode (m28_i2c d) \<noteq> NotOpen" using ready by (simp add: i2c_ready_def)
  then show ?thesis
    using b sys(2,3) a by (auto simp: Mcp4728_writeRegisters_def)
qed

lemma frames_length: "length (chip_frames s) = 24"
  by (simp add: chip_frames_def upt_rec)

lemma readRegisters_chip:
  assumes bus: "mcp4728_bus os a chip" and ok: "m28_ok a d"
  shows "\<exists>b e'. Mcp4728_readRegisters os (d, e) = Some (True, buffers_of_bytes (chip_frames (chip e)),
    d\<lparr>m28_i2c := b, m28_isConnected := True\<rparr>, e') \<and> i2c_ready b \<and> chip e' = chip e"
proof -
  have ready: "i2c_ready (m28_i2c d)" and a: "m28_addr d = a" using ok by (auto simp: m28_ok_def)
  have law: "rdwr_law os" using bus by (simp add: mcp4728_bus_def)
  obtain ret err e' where sys: "sys_i2c_rdwr os (fd (m28_i2c d)) [XRead a 24] e = (ret, err, [chip_frames (chip e)], e')" "0 \<le> ret"
    "chip e' = chip e" using bus unfolding mcp4728_bus_def by blast
  have "24 < I2C_BLOCK_MAX" by (simp add: I2C_BLOCK_MAX_def)
  from receive_frame [OF ready law this sys(1,2)]
  obtain b1 b2 where b: "I2cDev_requestFrom os a 24 True (m28_i2c d, e) = Some (24, b1, e')" "I2cDev_available b1 = 24"
    "I2cDev_read 24 b1 = Some (chip_frames (chip e), b2)" "i2c_ready b2" by auto
  have "openMode (m28_i2c d) \<noteq> NotOpen" using ready by (simp add: i2c_ready_def)
  moreover have "memcpy 0 (chip_frames (chip e)) (replicate 24 0) = chip_frames (chip e)"
    by (simp add: memcpy_def frames_length)
  ultimately show ?thesis
    using b sys(3) a by (auto simp: Mcp4728_readRegisters_def)
qed

text \<open>One frame of a channel: a multi-write changes its DAC register, a single write also its EEPROM.\<close>

definition frame_effect :: "dac_channel \<Rightarrow> nat \<Rightarrow> u8 \<times> u8 \<Rightarrow> dac_chip \<Rightarrow> dac_chip" where
  "frame_effect ch i r s = s\<lparr>dac_regs := (dac_regs s)[i := r],
     ee_regs := (if c_mode ch AND SaveToEEPROM \<noteq> 0 then (ee_regs s)[i := r] else ee_regs s)\<rparr>"

lemma chip_write_frame:
  assumes "i < 4" and b: "b = fst (Buffer_setBuffer ch (of_nat i) nu 0)"
  shows "chip_write (buffer_bytes b) s = frame_effect ch i (cb_data0 b, cb_data1 b) s"
  using buffer_cmd [OF assms] by (simp add: chip_write_def buffer_bytes_def frame_effect_def)

lemma m28_ok_step: "m28_ok a d \<Longrightarrow> i2c_ready b \<Longrightarrow> length cs = 4 \<Longrightarrow> m28_ok a (d\<lparr>m28_i2c := b, m28_isConnected := True, m28_chan := cs\<rparr>)"
  by (simp add: m28_ok_def)

lemma setBuffer_channel:
  "snd (Buffer_setBuffer ch i nu w) = (if c_mode ch AND SaveToEEPROM \<noteq> 0 then ch\<lparr>c_eeprom := c_value ch\<rparr> else ch)"
  by (simp add: Buffer_setBuffer_def)

text \<open>Writing a 12-bit value to one channel.\<close>

lemma writeChannel_chip:
  assumes bus: "mcp4728_bus os a chip" and ok: "m28_ok a d" and c: "0 \<le> c" "c < 4" and v: "0 \<le> v" "v < 4096"
  shows "\<exists>d' e' r. Mcp4728_writeChannel os v c nu (d, e) = Some (True, d', e') \<and> m28_ok a d' \<and>
    reg_for (m28_chan d ! nat c) v r \<and> chip e' = frame_effect (m28_chan d ! nat c) (nat c) r (chip e) \<and>
    uint (c_value (m28_chan d' ! nat c)) = v \<and> (\<forall>i. i \<noteq> nat c \<longrightarrow> m28_chan d' ! i = m28_chan d ! i)"
proof -
  let ?ch = "(m28_chan d ! nat c)\<lparr>c_value := of_int v\<rparr>"
  obtain b ch' where bc: "Buffer_setBuffer ?ch (of_nat (nat c)) nu 0 = (b, ch')" by fastforce
  then have b: "b = fst (Buffer_setBuffer ?ch (of_nat (nat c)) nu 0)" by simp
  have i: "nat c < 4" using c by simp
  let ?r = "(cb_data0 b, cb_data1 b)" and ?d = "d\<lparr>m28_chan := (m28_chan d)[nat c := ch']\<rparr>"
  have ok': "m28_ok a ?d" using ok by (simp add: m28_ok_def)
  have len: "length (buffer_bytes b) < 32" by (simp add: buffer_bytes_def)
  obtain bb e' where w: "Mcp4728_writeRegisters os (buffer_bytes b) (?d, e) = Some (True, ?d\<lparr>m28_i2c := bb, m28_isConnected := True\<rparr>, e')"
    "i2c_ready bb" "chip e' = chip_write (buffer_bytes b) (chip e)"
    using writeRegisters_chip [OF bus ok' len, of e] by blast
  let ?d' = "?d\<lparr>m28_i2c := bb, m28_isConnected := True\<rparr>"
  have "Mcp4728_writeChannel os v c nu (d, e) = Some (True, ?d', e')"
    using c w(1) bc by (simp add: Mcp4728_writeChannel_def)
  moreover have "reg_for ?ch v ?r" using buffer_reg [OF v _ b] by simp
  then have "reg_for (m28_chan d ! nat c) v ?r" by (simp add: reg_for_def)
  moreover have "chip e' = frame_effect (m28_chan d ! nat c) (nat c) ?r (chip e)"
    using w(3) chip_write_frame [OF i b] by (simp add: frame_effect_def)
  moreover have "ch' = snd (Buffer_setBuffer ?ch (of_nat (nat c)) nu 0)" using bc by simp
  then have "c_value ch' = of_int v" by (simp add: setBuffer_channel)
  then have "uint (c_value (m28_chan ?d' ! nat c)) = v"
    using ok i uint_value(1) [OF v] by (simp add: m28_ok_def)
  moreover have "m28_ok a ?d'" using ok' w(2) by (simp add: m28_ok_def)
  moreover have "m28_chan ?d' ! j = m28_chan d ! j" if "j \<noteq> nat c" for j using that by simp
  ultimately show ?thesis by blast
qed

lemma write_buffers_chip:
  assumes bus: "mcp4728_bus os a chip"
  shows "m28_ok a d \<Longrightarrow> \<exists>b c e'. write_buffers os bs (d, e) = Some (True, d\<lparr>m28_i2c := b, m28_isConnected := c\<rparr>, e') \<and>
    i2c_ready b \<and> chip e' = fold (\<lambda>b. chip_write (buffer_bytes b)) bs (chip e)"
proof (induction bs arbitrary: d e)
  case Nil
  then show ?case by (intro exI [of _ "m28_i2c d"] exI [of _ "m28_isConnected d"]) (simp add: m28_ok_def)
next
  case (Cons b bs)
  obtain x e1 where w: "Mcp4728_writeRegisters os (buffer_bytes b) (d, e) = Some (True, d\<lparr>m28_i2c := x, m28_isConnected := True\<rparr>, e1)"
    "i2c_ready x" "chip e1 = chip_write (buffer_bytes b) (chip e)"
    using writeRegisters_chip [OF bus Cons.prems, of "buffer_bytes b" e] by (auto simp: buffer_bytes_def)
  have "m28_ok a (d\<lparr>m28_i2c := x, m28_isConnected := True\<rparr>)" using Cons.prems w(2) by (simp add: m28_ok_def)
  from Cons.IH [OF this, of e1] show ?case using w by fastforce
qed

lemma upt_4: "[0..<4] = [0, 1, 2, 3 :: nat]"
  by (simp add: upt_rec)

lemma chip_write_multi:
  assumes b: "\<And>i. i < 4 \<Longrightarrow> bs ! i = fst (Buffer_setBuffer (ch i) (of_nat i) nu 0)"
    and plain: "\<And>i. i < 4 \<Longrightarrow> c_mode (ch i) AND SaveToEEPROM = 0" and l: "length bs = 4"
  shows "chip_write (concat (map buffer_bytes bs)) s = fold (\<lambda>b. chip_write (buffer_bytes b)) bs s"
proof -
  obtain b0 b1 b2 b3 where bs: "bs = [b0, b1, b2, b3]"
    using l by (auto simp: eval_nat_numeral length_Suc_conv)
  have e: "b0 = fst (Buffer_setBuffer (ch 0) (of_nat 0) nu 0)" "b1 = fst (Buffer_setBuffer (ch 1) (of_nat 1) nu 0)"
    "b2 = fst (Buffer_setBuffer (ch 2) (of_nat 2) nu 0)" "b3 = fst (Buffer_setBuffer (ch 3) (of_nat 3) nu 0)"
    using b [of 0] b [of 1] b [of 2] b [of 3] bs by simp_all
  have n: "(0::nat) < 4" "(1::nat) < 4" "(2::nat) < 4" "(3::nat) < 4" by simp_all
  note cmd = buffer_cmd [OF n(1) e(1)] buffer_cmd [OF n(2) e(2)] buffer_cmd [OF n(3) e(3)] buffer_cmd [OF n(4) e(4)]
  show ?thesis
    using cmd plain [OF n(1)] plain [OF n(2)] plain [OF n(3)] plain [OF n(4)]
    by (simp add: bs chip_write_def buffer_bytes_def)
qed

lemma fold_frames:
  assumes l: "length (dac_regs s) = 4" "length (ee_regs s) = 4" "length bs = 4"
    and b: "\<And>i. i < 4 \<Longrightarrow> bs ! i = fst (Buffer_setBuffer (ch i) (of_nat i) nu 0)"
    and s': "s' = fold (\<lambda>b. chip_write (buffer_bytes b)) bs s"
  shows "dac_regs s' = map (\<lambda>b. (cb_data0 b, cb_data1 b)) bs \<and>
    (\<forall>i. i < 4 \<longrightarrow> ee_regs s' ! i = (if c_mode (ch i) AND SaveToEEPROM \<noteq> 0 then dac_regs s' ! i else ee_regs s ! i))"
proof -
  obtain b0 b1 b2 b3 where bs: "bs = [b0, b1, b2, b3]"
    using l(3) by (auto simp: eval_nat_numeral length_Suc_conv)
  have e: "b0 = fst (Buffer_setBuffer (ch 0) (of_nat 0) nu 0)" "b1 = fst (Buffer_setBuffer (ch 1) (of_nat 1) nu 0)"
    "b2 = fst (Buffer_setBuffer (ch 2) (of_nat 2) nu 0)" "b3 = fst (Buffer_setBuffer (ch 3) (of_nat 3) nu 0)"
    using b [of 0] b [of 1] b [of 2] b [of 3] bs by simp_all
  have n: "(0::nat) < 4" "(1::nat) < 4" "(2::nat) < 4" "(3::nat) < 4" by simp_all
  obtain x0 x1 x2 x3 y0 y1 y2 y3 where "dac_regs s = [x0, x1, x2, x3]" "ee_regs s = [y0, y1, y2, y3]"
    using l(1,2) by (auto simp: eval_nat_numeral length_Suc_conv)
  then show ?thesis
    unfolding s' bs using chip_write_frame [OF n(1) e(1)] chip_write_frame [OF n(2) e(2)] chip_write_frame [OF n(3) e(3)]
      chip_write_frame [OF n(4) e(4)]
    by (simp add: frame_effect_def nat_less_4)
qed

section \<open>Properties\<close>


text \<open>Reading the registers back.\<close>

definition dac_frame :: "nat \<Rightarrow> u8 \<times> u8 \<Rightarrow> channel_buffer" where
  "dac_frame i r = \<lparr>cb_cmd = 0xC0 OR push_bit 4 (of_nat i), cb_data0 = fst r, cb_data1 = snd r\<rparr>"

definition ee_frame :: "nat \<Rightarrow> u8 \<times> u8 \<Rightarrow> channel_buffer" where
  "ee_frame i r = \<lparr>cb_cmd = 0xC8 OR push_bit 4 (of_nat i), cb_data0 = fst r, cb_data1 = snd r\<rparr>"

lemma frame_channel:
  "i < 4 \<Longrightarrow> unat (Buffer_channel True (dac_frame i r)) = i"
  "i < 4 \<Longrightarrow> unat (Buffer_channel True (ee_frame i r)) = i"
  by (auto simp: nat_less_4 Buffer_channel_def dac_frame_def ee_frame_def)

lemma frames_buffers:
  "buffers_of_bytes (chip_frames s) = concat (map (\<lambda>i. [dac_frame i (dac_regs s ! i), ee_frame i (ee_regs s ! i)]) [0..<4])"
  by (simp add: chip_frames_def upt_4 dac_frame_def ee_frame_def)

lemma set_channels_frames:
  assumes "length chan = 4" "i < 4"
  shows "set_channels (buffers_of_bytes (chip_frames s)) chan ! i
    = Buffer_setChannel (ee_frame i (ee_regs s ! i)) (Buffer_setChannel (dac_frame i (dac_regs s ! i)) (chan ! i))"
    and "length (set_channels (buffers_of_bytes (chip_frames s)) chan) = 4"
proof -
  have len: "length (set_channels bs chan) = length chan" for bs
    unfolding set_channels_def by (induction bs arbitrary: chan) (simp_all add: Let_def)
  then show "length (set_channels (buffers_of_bytes (chip_frames s)) chan) = 4" using assms(1) by simp
  obtain c0 c1 c2 c3 where "chan = [c0, c1, c2, c3]"
    using assms(1) by (auto simp: eval_nat_numeral length_Suc_conv)
  then show "set_channels (buffers_of_bytes (chip_frames s)) chan ! i
    = Buffer_setChannel (ee_frame i (ee_regs s ! i)) (Buffer_setChannel (dac_frame i (dac_regs s ! i)) (chan ! i))"
    using assms(2) unfolding frames_buffers set_channels_def upt_4
    by (auto simp: Let_def frame_channel nat_less_4)
qed

lemma Buffer_value_dac: "uint (Buffer_value \<lparr>cb_cmd = c, cb_data0 = fst r, cb_data1 = snd r\<rparr>) = dac_value r"
proof -
  let ?h = "ucast (fst r AND 0x0F) :: u16" and ?l = "ucast (snd r) :: u16"
  have le: "uint (fst r AND 0x0F) \<le> 15" "uint (snd r) < 256"
    using uint_lt2p [of "snd r"] word_and_le1 [of "fst r" "0x0F"] by (simp_all add: word_le_def)
  have u: "uint ?h = uint (fst r AND 0x0F)" "uint ?l = uint (snd r)" by (simp_all add: uint_up_ucast is_up)
  have "push_bit 8 ?h AND ?l = 0" by (rule bit_word_eqI) (auto simp: bit_simps dest: bit_imp_le_length)
  then have "push_bit 8 ?h OR ?l = push_bit 8 ?h + ?l" by (simp add: disjunctive_add_eq_or)
  also have "uint \<dots> = uint ?h * 256 + uint ?l"
    using le by (simp add: uint_word_ariths push_bit_eq_mult u)
  finally show ?thesis by (simp add: Buffer_value_def dac_value_def u)
qed

lemma Buffer_value_frames: "uint (Buffer_value (dac_frame i r)) = dac_value r" "uint (Buffer_value (ee_frame i r)) = dac_value r"
  by (simp_all add: dac_frame_def ee_frame_def Buffer_value_dac)

lemma frame_kind:
  assumes "i < 4"
  shows "cb_cmd (dac_frame i r) AND EEPROM = 0" "cb_cmd (ee_frame i r) AND EEPROM \<noteq> 0" "cb_cmd (ee_frame i r) AND M28_READY = M28_READY"
  using assms by (auto simp: nat_less_4 dac_frame_def ee_frame_def)

lemma Channel_setReference_fields [simp]:
  "c_value (Channel_setReference r f ch) = c_value ch" "c_eeprom (Channel_setReference r f ch) = c_eeprom ch"
  "c_mode (Channel_setReference r f ch) = c_mode ch" "c_refId (Channel_setReference r f ch) = r"
  by (auto simp: Channel_setReference_def)

lemma dac_pd_bits: "fst r AND M28_PD_MASK = push_bit 5 (dac_pd r)"
  by (rule bit_word_eqI) (auto simp: dac_pd_def nat_less_8 bit_simps)

lemma dac_pd_cases: "dac_pd r = 0 \<or> dac_pd r = 1 \<or> dac_pd r = 2 \<or> dac_pd r = 3"
proof -
  have "dac_pd r \<le> 3" using word_and_le1 [of "drop_bit 5 (fst r)" 3] by (simp add: dac_pd_def)
  then have "unat (dac_pd r) \<le> 3" by (simp add: word_le_nat_alt)
  then obtain k where k: "unat (dac_pd r) = k" "k < 4" by auto
  have "dac_pd r = of_nat k" unfolding k(1) [symmetric] by simp
  then show ?thesis using k(2) by (auto simp: nat_less_4)
qed

lemma merge_and:
  fixes m x :: "'a::len word"
  assumes "k AND s = k"
  shows "((m AND NOT s) OR (x AND s)) AND k = x AND k"
proof (rule bit_word_eqI)
  fix n
  have "bit k n \<Longrightarrow> bit s n" using arg_cong [OF assms, of "\<lambda>w. bit w n"] by (simp add: bit_simps)
  then show "bit (((m AND NOT s) OR (x AND s)) AND k) n = bit (x AND k) n"
    by (auto simp: bit_simps dest: bit_imp_le_length)
qed

lemma Buffer_mode_fields:
  "Buffer_mode (dac_frame i r) AND GainMask = (if dac_gain2 r then Gain2 else Gain1)"
  "pd_code (Buffer_mode (dac_frame i r)) = dac_pd r"
proof -
  have g: "(fst r AND GX \<noteq> 0) = dac_gain2 r"
    using and_single_bit [of "fst r" 4] by (simp add: dac_gain2_def)
  have pd: "fst r AND M28_PD_MASK = M28_PD_1K \<longleftrightarrow> dac_pd r = 1" "fst r AND M28_PD_MASK = M28_PD_100K \<longleftrightarrow> dac_pd r = 2"
    "fst r AND M28_PD_MASK = M28_PD_500K \<longleftrightarrow> dac_pd r = 3"
    unfolding dac_pd_bits using dac_pd_cases [of r] by auto
  have mode: "Buffer_mode (dac_frame i r) = AnalogOutput OR (if dac_gain2 r then Gain2 else Gain1) OR
      (if dac_pd r = 1 then PwrDwnR1 else if dac_pd r = 2 then PwrDwnR2 else if dac_pd r = 3 then PwrDwnR3 else NoMode)"
    using g pd by (simp add: Buffer_mode_def dac_frame_def Let_def)
  show "Buffer_mode (dac_frame i r) AND GainMask = (if dac_gain2 r then Gain2 else Gain1)"
    unfolding mode by simp
  show "pd_code (Buffer_mode (dac_frame i r)) = dac_pd r"
    unfolding mode using dac_pd_cases [of r] by (auto simp: pd_code_def)
qed

lemma Gain_distinct: "Gain1 \<noteq> Gain2" and mask_parts: "GainMask AND (PwrDwnMask OR GainMask) = GainMask"
  "PwrDwnMask AND (PwrDwnMask OR GainMask) = PwrDwnMask"
  by simp_all

lemma setChannel_frames:
  assumes i: "i < 4"
    and ch': "ch' = Buffer_setChannel (ee_frame i x) (Buffer_setChannel (dac_frame i r) ch)"
  shows "uint (c_value ch') = dac_value r" "uint (c_eeprom ch') = dac_value x" "c_isReady ch'"
    "\<not> c_modeSetByUser ch \<Longrightarrow> \<not> c_refSetByUser ch \<Longrightarrow> reg_for ch' (dac_value r) r"
    "ch = channel_new \<Longrightarrow> c_fsr ch' = (if dac_vref r then (if dac_gain2 r then 4.096 else 2.048) else 3.3)"
proof -
  note k = frame_kind [OF i]
  define m where "m = (c_mode ch AND NOT (PwrDwnMask OR GainMask)) OR (Buffer_mode (dac_frame i r) AND (PwrDwnMask OR GainMask))"
  have mg: "m AND GainMask = (if dac_gain2 r then Gain2 else Gain1)"
    unfolding m_def merge_and [OF mask_parts(1)] by (rule Buffer_mode_fields)
  have mp: "pd_code m = dac_pd r"
    using Buffer_mode_fields(2) [of i r] unfolding pd_code_def m_def merge_and [OF mask_parts(2)] .
  have vr: "(fst r AND VREF \<noteq> 0) = dac_vref r"
    using and_single_bit [of "fst r" 7] by (simp add: dac_vref_def)
  have ref: "Buffer_reference (dac_frame i r) = (if dac_vref r then InternalReference else VddReference)"
    unfolding Buffer_reference_def using vr by (simp add: dac_frame_def)
  show "uint (c_value ch') = dac_value r" "uint (c_eeprom ch') = dac_value x" "c_isReady ch'"
    using k Buffer_value_frames [of i] by (simp_all add: ch' Buffer_setChannel_def Let_def)
  have ec: "Buffer_setChannel (ee_frame i x) c = c\<lparr>c_eeprom := Buffer_value (ee_frame i x), c_isReady := True\<rparr>" for c
    using k by (simp add: Buffer_setChannel_def)
  have dc: "Buffer_setChannel (dac_frame i r) ch = Channel_setReference (if dac_vref r then InternalReference else VddReference) 0
      (ch\<lparr>c_value := Buffer_value (dac_frame i r), c_mode := m\<rparr>)" if "\<not> c_modeSetByUser ch" "\<not> c_refSetByUser ch"
    unfolding m_def using k that ref by (simp add: Buffer_setChannel_def Let_def)
  show "reg_for ch' (dac_value r) r" if "\<not> c_modeSetByUser ch" "\<not> c_refSetByUser ch"
    using mg mp Gain_distinct unfolding ch' ec dc [OF that] by (auto simp: reg_for_def)
  show "c_fsr ch' = (if dac_vref r then (if dac_gain2 r then 4.096 else 2.048) else 3.3)" if "ch = channel_new"
  proof -
    have c: "\<not> c_modeSetByUser ch" "\<not> c_refSetByUser ch" "c_refId ch = VddReference" "c_fsr ch = 3.3"
      using that by (simp_all add: channel_new_def)
    show ?thesis
      unfolding ch' ec dc [OF c(1,2)] using mg Gain_distinct c(3,4)
      by (auto simp: Channel_setReference_def)
  qed
qed

lemma updateSetup_chip:
  assumes bus: "mcp4728_bus os a chip" and ok: "m28_ok a d"
  shows "\<exists>d' e'. Mcp4728_updateSetup os (d, e) = Some (True, d', e') \<and> m28_ok a d' \<and> chip e' = chip e \<and>
    m28_chan d' = set_channels (buffers_of_bytes (chip_frames (chip e))) (m28_chan d)"
proof -
  obtain b e' where r: "Mcp4728_readRegisters os (d, e) = Some (True, buffers_of_bytes (chip_frames (chip e)),
      d\<lparr>m28_i2c := b, m28_isConnected := True\<rparr>, e')" "i2c_ready b" "chip e' = chip e"
    using readRegisters_chip [OF bus ok, of e] by blast
  then show ?thesis
    using ok set_channels_frames(2) [of "m28_chan d" 0 "chip e"] by (simp add: Mcp4728_updateSetup_def m28_ok_def)
qed

text \<open>C17. A value written to one channel is on the chip: a new driver object that reads the registers finds the value on
  that channel, with the reference, gain and power-down resistor it was written with, and in the EEPROM
  exactly when the mode asks for it; the other channels and EEPROM cells read as they were.\<close>

theorem mcp4728_write_read_back:
  assumes bus: "mcp4728_bus os a chip" and ok: "m28_ok a d" and c: "0 \<le> c" "c < 4" and v: "0 \<le> v" "v < 4096"
    and fresh: "m28_ok a f" "m28_chan f = replicate 4 channel_new"
  shows "\<exists>d' e' f' e''. Mcp4728_writeChannel os v c nu (d, e) = Some (True, d', e') \<and> m28_ok a d' \<and>
    Mcp4728_updateSetup os (f, e') = Some (True, f', e'') \<and>
    (\<forall>i<4. uint (c_value (m28_chan f' ! i)) = (if i = nat c then v else dac_value (dac_regs (chip e) ! i)) \<and>
      uint (c_eeprom (m28_chan f' ! i)) = (if i = nat c \<and> c_mode (m28_chan d ! i) AND SaveToEEPROM \<noteq> 0 then v
        else dac_value (ee_regs (chip e) ! i))) \<and>
    (c_refId (m28_chan f' ! nat c) = InternalReference \<longleftrightarrow> c_refId (m28_chan d ! nat c) = InternalReference) \<and>
    (c_mode (m28_chan f' ! nat c) AND GainMask = Gain2 \<longleftrightarrow> c_mode (m28_chan d ! nat c) AND GainMask = Gain2) \<and>
    pd_code (c_mode (m28_chan f' ! nat c)) = pd_code (c_mode (m28_chan d ! nat c))"
proof -
  obtain d' e' r where w: "Mcp4728_writeChannel os v c nu (d, e) = Some (True, d', e')" "m28_ok a d'"
    "reg_for (m28_chan d ! nat c) v r" "chip e' = frame_effect (m28_chan d ! nat c) (nat c) r (chip e)"
    using writeChannel_chip [OF bus ok c v, of nu e] by blast
  obtain f' e'' where u: "Mcp4728_updateSetup os (f, e') = Some (True, f', e'')"
    "m28_chan f' = set_channels (buffers_of_bytes (chip_frames (chip e'))) (m28_chan f)"
    using updateSetup_chip [OF bus fresh(1), of e'] by blast
  have l: "length (m28_chan f) = 4" "nat c < 4" using fresh c by auto
  have len: "length (dac_regs (chip e)) = 4" "length (ee_regs (chip e)) = 4" using bus by (auto simp: mcp4728_bus_def)
  have chan: "m28_chan f' ! i = Buffer_setChannel (ee_frame i (ee_regs (chip e') ! i))
      (Buffer_setChannel (dac_frame i (dac_regs (chip e') ! i)) channel_new)" if "i < 4" for i
    using set_channels_frames(1) [OF l(1) that, of "chip e'"] that u(2) fresh(2) by simp
  have regs: "dac_regs (chip e') ! i = (if i = nat c then r else dac_regs (chip e) ! i)"
    "ee_regs (chip e') ! i = (if i = nat c \<and> c_mode (m28_chan d ! i) AND SaveToEEPROM \<noteq> 0 then r else ee_regs (chip e) ! i)"
    if "i < 4" for i using w(4) len l(2) that by (auto simp: frame_effect_def nth_list_update)
  have r: "dac_value r = v" using w(3) by (simp add: reg_for_def)
  have "\<forall>i<4. uint (c_value (m28_chan f' ! i)) = (if i = nat c then v else dac_value (dac_regs (chip e) ! i)) \<and>
      uint (c_eeprom (m28_chan f' ! i)) = (if i = nat c \<and> c_mode (m28_chan d ! i) AND SaveToEEPROM \<noteq> 0 then v
        else dac_value (ee_regs (chip e) ! i))"
    using setChannel_frames(1,2) [OF _ chan] regs r by simp
  moreover have "reg_for (m28_chan f' ! nat c) (dac_value r) r"
    using setChannel_frames(4) [OF l(2) chan [OF l(2)]] regs(1) [OF l(2)] by (simp add: channel_new_def)
  ultimately show ?thesis
    using w u(1) by (auto simp: reg_for_def)
qed

text \<open>What the driver knows after it has read the registers is what the chip holds: values, EEPROM values and, where
  the user has not chosen them, reference, gain and power-down; on a new object the full-scale range is that
  of the reference and gain found.\<close>

lemma mcp4728_updateSetup_agrees:
  assumes bus: "mcp4728_bus os a chip" and ok: "m28_ok a d"
  shows "\<exists>d' e'. Mcp4728_updateSetup os (d, e) = Some (True, d', e') \<and> m28_ok a d' \<and> chip e' = chip e \<and>
    (\<forall>i<4. let r = dac_regs (chip e) ! i; ch = m28_chan d ! i; ch' = m28_chan d' ! i in
      uint (c_value ch') = dac_value r \<and> uint (c_eeprom ch') = dac_value (ee_regs (chip e) ! i) \<and> c_isReady ch' \<and>
      (\<not> c_modeSetByUser ch \<and> \<not> c_refSetByUser ch \<longrightarrow> reg_for ch' (dac_value r) r) \<and>
      (ch = channel_new \<longrightarrow> c_fsr ch' = (if dac_vref r then (if dac_gain2 r then 4.096 else 2.048) else 3.3)))"
proof -
  obtain d' e' where u: "Mcp4728_updateSetup os (d, e) = Some (True, d', e')" "m28_ok a d'" "chip e' = chip e"
    "m28_chan d' = set_channels (buffers_of_bytes (chip_frames (chip e))) (m28_chan d)"
    using updateSetup_chip [OF bus ok, of e] by blast
  have l: "length (m28_chan d) = 4" using ok by (simp add: m28_ok_def)
  have chan: "m28_chan d' ! i = Buffer_setChannel (ee_frame i (ee_regs (chip e) ! i))
      (Buffer_setChannel (dac_frame i (dac_regs (chip e) ! i)) (m28_chan d ! i))" if "i < 4" for i
    unfolding u(4) by (rule set_channels_frames(1) [OF l that])
  show ?thesis
    using u(1-3) setChannel_frames [OF _ chan] unfolding Let_def by blast
qed

lemma fast_reg:
  assumes v: "0 \<le> v" "v < 4096" and h: "h = ucast (drop_bit 8 (of_int v :: u16) AND 0x0F)" and l: "l = ucast ((of_int v :: u16) AND 0xFF)"
    and r': "r' = ((fst r AND 0x90) OR push_bit 1 (h AND 0x30) OR (h AND 0x0F), l)"
  shows "dac_value r' = v" "dac_vref r' = dac_vref r" "dac_gain2 r' = dac_gain2 r" "dac_pd r' = 0"
proof -
  have hb: "\<not> bit (of_int v :: u16) n" if "12 \<le> n" for n by (rule bits12 [OF v that])
  have hu: "h = ucast (drop_bit 8 (of_int v :: u16))"
    unfolding h by (rule bit_word_eqI) (use hb [of 12] hb [of 13] hb [of 14] hb [of 15] in \<open>auto simp: nat_less_8 bit_simps\<close>)
  have h0: "h AND 0x30 = 0" and h1: "h AND 0x0F = h"
    by (rule bit_word_eqI, auto simp: h nat_less_8 bit_simps)+
  have hn: "\<not> bit h n" if "4 \<le> n" for n
    using that bit_imp_le_length [of h n] by (auto simp: h bit_simps nat_less_8)
  have f: "fst r' = (fst r AND 0x90) OR h" "snd r' = l" by (simp_all add: r' h0 h1)
  have "((fst r AND 0x90) OR h) AND 0x0F = h"
    using h1 by (simp add: bit.conj_disj_distrib2 and.assoc)
  moreover have "v div 256 * 256 + v mod 256 = v" by simp
  ultimately show "dac_value r' = v" by (simp add: dac_value_def f hu l uint_value [OF v])
  show "dac_vref r' = dac_vref r" "dac_gain2 r' = dac_gain2 r"
    using hn [of 7] hn [of 4] by (simp_all add: dac_vref_def dac_gain2_def f bit_simps)
  show "dac_pd r' = 0"
    unfolding dac_pd_def f by (rule bit_word_eqI) (use hn [of 5] hn [of 6] in \<open>auto simp: nat_less_8 bit_simps\<close>)
qed

text \<open>In fast mode a value written to all channels is on all of them after one message of eight bytes, with the
  and gains unchanged; but the message carries no power-down bits, so that the chip leaves power-down on every
  channel while the driver goes on reporting its mode.\<close>

lemma mcp4728_fast_write_wakes:
  assumes bus: "mcp4728_bus os a chip" and ok: "m28_ok a d" and v: "0 \<le> v" "v < 4096"
    and fast: "i < 4" "c_mode (m28_chan d ! i) AND FastMode \<noteq> 0"
  shows "\<exists>d' e'. Mcp4728_writeChannel os v (- 1) nu (d, e) = Some (True, d', e') \<and> m28_ok a d' \<and> ee_regs (chip e') = ee_regs (chip e) \<and>
    (\<forall>j<4. let r = dac_regs (chip e) ! j; r' = dac_regs (chip e') ! j in
      dac_value r' = v \<and> dac_vref r' = dac_vref r \<and> dac_gain2 r' = dac_gain2 r \<and> dac_pd r' = 0 \<and>
      c_mode (m28_chan d' ! j) = c_mode (m28_chan d ! j) \<and> uint (c_value (m28_chan d' ! j)) = v)"
proof -
  let ?h = "ucast (drop_bit 8 (of_int v :: u16) AND 0x0F) :: u8" and ?l = "ucast ((of_int v :: u16) AND 0xFF) :: u8"
  define d1 where "d1 = d\<lparr>m28_chan := map (\<lambda>ch. ch\<lparr>c_value := of_int v\<rparr>) (m28_chan d)\<rparr>"
  define msg where "msg = concat (map (\<lambda>i. [?h, ?l]) [0..<4])"
  have len: "length (m28_chan d) = 4" using ok by (simp add: m28_ok_def)
  have ok1: "m28_ok a d1" using ok by (simp add: m28_ok_def d1_def)
  have msg: "msg = [?h, ?l, ?h, ?l, ?h, ?l, ?h, ?l]" by (simp add: msg_def upt_4)
  have "\<exists>ch \<in> set (m28_chan d1). c_mode ch AND FastMode \<noteq> 0"
    using fast len by (auto simp: d1_def intro!: bexI [of _ "m28_chan d ! i"])
  then have eval: "Mcp4728_writeChannel os v (- 1) nu (d, e) = Mcp4728_writeRegisters os msg (d1, e)"
    by (simp add: Mcp4728_writeChannel_def Mcp4728_fastWrite_def Let_def d1_def msg_def)
  obtain b e' where w: "Mcp4728_writeRegisters os msg (d1, e) = Some (True, d1\<lparr>m28_i2c := b, m28_isConnected := True\<rparr>, e')"
    "i2c_ready b" "chip e' = chip_write msg (chip e)"
    using writeRegisters_chip [OF bus ok1, of msg e] by (auto simp: msg)
  have "?h AND 0xC0 = 0" by (rule bit_word_eqI) (auto simp: nat_less_8 bit_simps)
  then have cw: "chip_write msg (chip e) = (chip e)\<lparr>dac_regs := chip_fast msg (dac_regs (chip e))\<rparr>"
    by (simp add: chip_write_def msg)
  have "length (dac_regs (chip e)) = 4" using bus by (simp add: mcp4728_bus_def)
  then obtain x0 x1 x2 x3 where x: "dac_regs (chip e) = [x0, x1, x2, x3]"
    by (auto simp: eval_nat_numeral length_Suc_conv)
  have nth: "dac_regs (chip e') ! j = ((fst (dac_regs (chip e) ! j) AND 0x90) OR push_bit 1 (?h AND 0x30) OR (?h AND 0x0F), ?l)" if "j < 4" for j
  proof -
    have "dac_regs (chip e') = chip_fast msg [x0, x1, x2, x3]" using w(3) cw x by simp
    then show ?thesis using that by (auto simp: nat_less_4 msg x)
  qed
  have chan: "c_mode (m28_chan d1 ! j) = c_mode (m28_chan d ! j)" "uint (c_value (m28_chan d1 ! j)) = v" if "j < 4" for j
    using that len uint_value(1) [OF v] by (simp_all add: d1_def)
  have "m28_ok a (d1\<lparr>m28_i2c := b, m28_isConnected := True\<rparr>)" using ok1 w(2) by (simp add: m28_ok_def)
  then show ?thesis
    using eval w(1) fast_reg [OF v refl refl nth] chan w(3) cw
    by (intro exI [of _ "d1\<lparr>m28_i2c := b, m28_isConnected := True\<rparr>"] exI [of _ e']) (simp add: Let_def)
qed

text \<open>\<open>readChannel\<close> looks at the mode of channel 0 whatever the channel: it returns the EEPROM value of a channel
  exactly when channel 0 is in EEPROM mode, and throws for a channel the chip does not have.\<close>

lemma mcp4728_readChannel_uses_mode_of_channel_0:
  assumes "m28_ok a d"
  shows "Mcp4728_readChannel c df (d, e) = (if c < 0 \<or> 4 \<le> c then Inl Out_of_range
    else Inr (uint ((if c_mode (m28_chan d ! 0) AND SaveToEEPROM \<noteq> 0 then c_eeprom else c_value) (m28_chan d ! nat c))))"
  using assms by (auto simp: Mcp4728_readChannel_def Mcp4728_mode_def array_at_def m28_ok_def)

section \<open>A simulated chip\<close>

definition dac_norm :: "dac_chip \<Rightarrow> dac_chip" where
  "dac_norm s = \<lparr>dac_regs = take 4 (dac_regs s @ replicate 4 (0, 0)), ee_regs = take 4 (ee_regs s @ replicate 4 (0, 0))\<rparr>"

definition dac28_os :: "dac_chip i2c_os" where
  "dac28_os = \<lparr>sys_open = (\<lambda>p fl e. (3, 0, e)), sys_close = (\<lambda>f e. (0, 0, e)),
     sys_i2c_funcs = (\<lambda>f e. (0, I2C_FUNC_I2C, 0, e)),
     sys_i2c_rdwr = (\<lambda>f xs e. case xs of [XWrite a msg] \<Rightarrow> (1, 0, [], chip_write msg (dac_norm e))
       | [XRead a n] \<Rightarrow> if n = 24 then (1, 0, [chip_frames (dac_norm e)], e) else (- 1, 121, [], e)
       | _ \<Rightarrow> (- 1, 121, [], e)),
     sys_strerror = (\<lambda>n. ''error'')\<rparr>"

lemma length_chip_fast [simp]: "length (chip_fast msg rs) = length rs"
  by (induction msg rs rule: chip_fast.induct) simp_all

lemma length_chip_multi [simp]: "length (chip_multi msg rs) = length rs"
  by (induction msg rs rule: chip_multi.induct) simp_all

lemma dac_norm_id: "length (dac_regs s) = 4 \<Longrightarrow> length (ee_regs s) = 4 \<Longrightarrow> dac_norm s = s"
  by (simp add: dac_norm_def)

lemma dac_norm_length [simp]: "length (dac_regs (dac_norm s)) = 4" "length (ee_regs (dac_norm s)) = 4"
  by (simp_all add: dac_norm_def)

lemma dac28_bus: "mcp4728_bus dac28_os a dac_norm"
proof -
  have "rdwr_law dac28_os"
    by (auto simp: rdwr_law_def dac28_os_def frames_length split: list.splits xfer.splits if_splits)
  moreover have "dac_norm (chip_write msg (dac_norm e)) = chip_write msg (dac_norm e)" for msg e
    by (rule dac_norm_id) (simp_all add: chip_write_def)
  ultimately show ?thesis by (simp add: mcp4728_bus_def dac28_os_def)
qed

definition dac28_reset :: dac_chip where
  "dac28_reset = \<lparr>dac_regs = replicate 4 (0, 0), ee_regs = replicate 4 (0, 0)\<rparr>"

definition demo_m28 :: mcp4728 where
  "demo_m28 = mcp4728_new demo_bus 0x60"

lemma demo_m28_ok: "m28_ok 0x60 demo_m28" and demo_m28_chan: "m28_chan demo_m28 = replicate 4 channel_new"
  using demo_bus_ready by (simp_all add: m28_ok_def demo_m28_def mcp4728_new_def iodevice.defs)

theorem mcp4728_write_read_back_witness:
  "\<exists>d' e' f' e''. Mcp4728_writeChannel dac28_os 2748 2 False (demo_m28, dac28_reset) = Some (True, d', e') \<and>
    Mcp4728_updateSetup dac28_os (demo_m28, e') = Some (True, f', e'') \<and> uint (c_value (m28_chan f' ! 2)) = 2748"
  using mcp4728_write_read_back [OF dac28_bus demo_m28_ok _ _ _ _ demo_m28_ok demo_m28_chan,
      where c = 2 and v = 2748 and nu = False and e = dac28_reset]
  by fastforce


lemma mcp4728_updateSetup_agrees_witness:
  "\<exists>d' e'. Mcp4728_updateSetup dac28_os (demo_m28, \<lparr>dac_regs = replicate 4 (0x9A, 0xBC), ee_regs = replicate 4 (0, 1)\<rparr>) = Some (True, d', e') \<and>
    uint (c_value (m28_chan d' ! 1)) = 0xABC \<and> c_fsr (m28_chan d' ! 1) = 4.096"
proof -
  let ?s = "\<lparr>dac_regs = replicate 4 (0x9A, 0xBC), ee_regs = replicate 4 (0, 1)\<rparr> :: dac_chip"
  have s: "dac_norm ?s = ?s" by (rule dac_norm_id) simp_all
  have r: "dac_value (0x9A, 0xBC) = 0xABC" "dac_vref (0x9A, 0xBC)" "dac_gain2 (0x9A, 0xBC)"
    by (simp_all add: dac_value_def dac_vref_def dac_gain2_def bit_simps)
  obtain d' e' where u: "Mcp4728_updateSetup dac28_os (demo_m28, ?s) = Some (True, d', e')"
    "\<forall>i<4. let r = dac_regs (dac_norm ?s) ! i; ch = m28_chan demo_m28 ! i; ch' = m28_chan d' ! i in
      uint (c_value ch') = dac_value r \<and> uint (c_eeprom ch') = dac_value (ee_regs (dac_norm ?s) ! i) \<and> c_isReady ch' \<and>
      (\<not> c_modeSetByUser ch \<and> \<not> c_refSetByUser ch \<longrightarrow> reg_for ch' (dac_value r) r) \<and>
      (ch = channel_new \<longrightarrow> c_fsr ch' = (if dac_vref r then (if dac_gain2 r then 4.096 else 2.048) else 3.3))"
    using mcp4728_updateSetup_agrees [OF dac28_bus demo_m28_ok, of ?s] by blast
  show ?thesis
    using u(1) u(2) [rule_format, of 1] r unfolding s by (simp add: Let_def demo_m28_chan)
qed

lemma mcp4728_fast_write_wakes_witness:
  "\<exists>d' e'. Mcp4728_writeChannel dac28_os 7 (- 1) False
      (demo_m28\<lparr>m28_chan := replicate 4 (channel_new\<lparr>c_mode := AnalogOutput OR FastMode OR PwrDwnR2\<rparr>)\<rparr>, dac28_reset) = Some (True, d', e') \<and>
    dac_pd (dac_regs (dac_norm e') ! 2) = 0 \<and> pd_code (c_mode (m28_chan d' ! 2)) = 2"
proof -
  let ?d = "demo_m28\<lparr>m28_chan := replicate 4 (channel_new\<lparr>c_mode := AnalogOutput OR FastMode OR PwrDwnR2\<rparr>)\<rparr>"
  have ok: "m28_ok 0x60 ?d" using demo_m28_ok by (simp add: m28_ok_def)
  have m: "c_mode (m28_chan ?d ! 2) = AnalogOutput OR FastMode OR PwrDwnR2" by simp
  have f: "c_mode (m28_chan ?d ! 2) AND FastMode \<noteq> 0" and p: "pd_code (AnalogOutput OR FastMode OR PwrDwnR2) = 2"
    unfolding m by (simp_all add: pd_code_def)
  obtain d' e' where w: "Mcp4728_writeChannel dac28_os 7 (- 1) False (?d, dac28_reset) = Some (True, d', e')"
    "\<forall>j<4. let r = dac_regs (dac_norm (dac28_reset)) ! j; r' = dac_regs (dac_norm e') ! j in
      dac_value r' = 7 \<and> dac_vref r' = dac_vref r \<and> dac_gain2 r' = dac_gain2 r \<and> dac_pd r' = 0 \<and>
      c_mode (m28_chan d' ! j) = c_mode (m28_chan ?d ! j) \<and> uint (c_value (m28_chan d' ! j)) = 7"
    using mcp4728_fast_write_wakes [OF dac28_bus ok _ _ _ f, of 7 False dac28_reset] by auto
  show ?thesis using w(1) w(2) [rule_format, of 2] m p by (simp add: Let_def)
qed

lemma mcp4728_readChannel_uses_mode_of_channel_0_witness:
  "Mcp4728_readChannel 1 False (demo_m28\<lparr>m28_chan := [channel_new, channel_new\<lparr>c_mode := SaveToEEPROM, c_eeprom := 9\<rparr>, channel_new, channel_new]\<rparr>, ())
    = Inr 0"
proof -
  have "m28_ok 0x60 (demo_m28\<lparr>m28_chan := [channel_new, channel_new\<lparr>c_mode := SaveToEEPROM, c_eeprom := 9\<rparr>, channel_new, channel_new]\<rparr>)"
    using demo_m28_ok by (simp add: m28_ok_def)
  from mcp4728_readChannel_uses_mode_of_channel_0 [OF this, of 1 False "()"] show ?thesis
    by (simp add: channel_new_def)
qed

end
