(* ===== verification/Max1161x.thy ===== *)
theory Max1161x
  imports Mcp4728
begin

text \<open>
  The driver of the analog-to-digital converters MAX11612 to MAX11617 (\<open>src/ext/max1161x.cpp\<close>,
  \<open>src/ext/max1161x_p.h\<close>).

  The full-scale ranges are real numbers that the driver only copies. The members the constructors leave
  uninitialised when \<open>setReference\<close> refuses are arguments of the model's constructors. The chip is the predicate
  \<open>max1161x_bus\<close>: it latches a setup and a configuration byte, and a read gives the 12-bit code of the
  selected input.
\<close>

section \<open>Registers and models\<close>

abbreviation (input) M61_REG :: u8 where "M61_REG \<equiv> 0x80"
abbreviation (input) CLK :: u8 where "CLK \<equiv> 0x08"
abbreviation (input) BIP_UNI :: u8 where "BIP_UNI \<equiv> 0x04"
abbreviation (input) RST :: u8 where "RST \<equiv> 0x02"
abbreviation (input) SGL :: u8 where "SGL \<equiv> 0x01"
abbreviation (input) ScanOff :: u8 where "ScanOff \<equiv> 0x60"
abbreviation (input) ScanMask :: u8 where "ScanMask \<equiv> 0x60"
abbreviation (input) ChannelMask :: u8 where "ChannelMask \<equiv> 0x1E"
abbreviation (input) RefVdd :: u8 where "RefVdd \<equiv> 0"
abbreviation (input) RefExt :: u8 where "RefExt \<equiv> 0x20"
abbreviation (input) RefInt1 :: u8 where "RefInt1 \<equiv> 0x40"
abbreviation (input) RefInt2 :: u8 where "RefInt2 \<equiv> 0x50"
abbreviation (input) RefInt3 :: u8 where "RefInt3 \<equiv> 0x60"
abbreviation (input) RefInt4 :: u8 where "RefInt4 \<equiv> 0x70"
abbreviation (input) RefInt :: u8 where "RefInt \<equiv> RefInt4"

abbreviation (input) ExternalReference :: int where "ExternalReference \<equiv> 3"
abbreviation (input) Internal1Reference :: int where "Internal1Reference \<equiv> 4"
abbreviation (input) Internal2Reference :: int where "Internal2Reference \<equiv> 5"
abbreviation (input) Internal3Reference :: int where "Internal3Reference \<equiv> 6"
abbreviation (input) Internal4Reference :: int where "Internal4Reference \<equiv> 7"
abbreviation (input) InternalClock :: int where "InternalClock \<equiv> 1"
abbreviation (input) ExternalClock :: int where "ExternalClock \<equiv> 2"

definition EINVAL :: int where "EINVAL = 22"
definition EIO :: int where "EIO = 5"

definition max_config :: "u8 \<Rightarrow> bool \<Rightarrow> u8 \<Rightarrow> u8" where
  "max_config channel differential scan = (scan AND ScanMask) OR (push_bit 1 channel AND ChannelMask) OR (if differential then 0 else SGL)"

record max_info =
  mi_id :: int
  mi_addr :: int
  mi_nchan :: int
  mi_intref :: real
  mi_fsr :: real
  mi_busId :: int

definition maxInfoMap :: "int \<Rightarrow> (int \<times> max_info) list" where
  "maxInfoMap busId = map (\<lambda>(i, a, n, r, f). (i, \<lparr>mi_id = i, mi_addr = a, mi_nchan = n, mi_intref = r, mi_fsr = f, mi_busId = busId\<rparr>))
     [(12, 0x34, 4, 4.096, 5), (13, 0x34, 4, 2.048, 3.3), (14, 0x33, 8, 4.096, 5), (15, 0x33, 8, 2.048, 3.3),
      (16, 0x35, 12, 4.096, 5), (17, 0x35, 12, 2.048, 3.3)]"

definition Info_setMax :: "int \<Rightarrow> max_info \<Rightarrow> max_info" where
  "Info_setMax i info = (let bid = mi_busId info; i = (if map_of (maxInfoMap 0) i = None then 15 else i)
     in (the (map_of (maxInfoMap 0) i))\<lparr>mi_busId := bid\<rparr>)"

definition Info_new :: "int \<Rightarrow> int \<Rightarrow> max_info" where
  "Info_new i busId = Info_setMax i \<lparr>mi_id = 0, mi_addr = 0, mi_nchan = 0, mi_intref = 0, mi_fsr = 0, mi_busId = busId\<rparr>"

record max1161x = iodevice +
  x_i2c :: i2cdev
  x_max :: max_info
  x_referenceId :: int
  x_fsr :: real
  x_bipolar :: bool
  x_isConnected :: bool
  x_clkSetting :: int

type_synonym 'e m61_st = "max1161x \<times> 'e"

section \<open>Transfers\<close>

definition m61_fail :: "'e i2c_os \<Rightarrow> int \<Rightarrow> i2cdev \<Rightarrow> max1161x \<Rightarrow> max1161x" where
  "m61_fail os errno b d = (if io_error b \<noteq> 0 then IoDevice_setError (sys_strerror os) errno d
     else IoDevice_setError_code (sys_strerror os) EIO d)\<lparr>x_isConnected := False\<rparr>"

definition Max1161x_sendByte :: "'e i2c_os \<Rightarrow> int \<Rightarrow> u8 \<Rightarrow> 'e m61_st \<Rightarrow> (bool \<times> 'e m61_st) option" where
  "Max1161x_sendByte os errno data = (\<lambda>(d, e). do {
     b \<leftarrow> I2cDev_beginTransmission (of_int (mi_addr (x_max d))) (x_i2c d);
     (_, b) \<leftarrow> I2cDev_write1 data b;
     let (ok, b, e) = I2cDev_endTransmission os True (b, e);
     let d = d\<lparr>x_i2c := b\<rparr>;
     if \<not> ok then Some (False, m61_fail os errno b d, e) else Some (True, d\<lparr>x_isConnected := True\<rparr>, e)
   })"

definition Max1161x_getLastConversion :: "'e i2c_os \<Rightarrow> int \<Rightarrow> 'e m61_st \<Rightarrow> (int option \<times> 'e m61_st) option" where
  "Max1161x_getLastConversion os errno = (\<lambda>(d, e). do {
     (r, b, e) \<leftarrow> I2cDev_requestFrom os (of_int (mi_addr (x_max d))) 2 True (x_i2c d, e);
     if r = 2 then do {
       (b1, b) \<leftarrow> I2cDev_read1 b;
       (b2, b) \<leftarrow> I2cDev_read1 b;
       Some (Some (push_bit 8 (b1 AND 0x0F) OR b2), d\<lparr>x_i2c := b, x_isConnected := True\<rparr>, e)
     } else Some (None, m61_fail os errno b (d\<lparr>x_i2c := b\<rparr>), e)
   })"

definition m61_referenceMap :: "(int \<times> u8) list" where
  "m61_referenceMap = [(DefaultReference, RefVdd), (InternalReference, RefInt), (VddReference, RefVdd), (ExternalReference, RefExt),
     (Internal1Reference, RefInt1), (Internal2Reference, RefInt2), (Internal3Reference, RefInt3), (Internal4Reference, RefInt4)]"

definition setup_byte :: "max1161x \<Rightarrow> u8" where
  "setup_byte d = M61_REG OR RST OR (case map_of m61_referenceMap (x_referenceId d) of None \<Rightarrow> 0 | Some r \<Rightarrow> r)
     OR (if x_bipolar d then BIP_UNI else 0) OR (if x_clkSetting d = ExternalClock then CLK else 0)"

definition Max1161x_updateSetup :: "'e i2c_os \<Rightarrow> int \<Rightarrow> 'e m61_st \<Rightarrow> (bool \<times> 'e m61_st) option" where
  "Max1161x_updateSetup os errno s = Max1161x_sendByte os errno (setup_byte (fst s)) s"

section \<open>Settings and constructors\<close>

definition Max1161x_setReference :: "'e i2c_os \<Rightarrow> int \<Rightarrow> int \<Rightarrow> real \<Rightarrow> 'e m61_st \<Rightarrow> (bool \<times> 'e m61_st) option" where
  "Max1161x_setReference os errno referenceId fsr = (\<lambda>(d, e).
     let fixed = (if referenceId \<in> {DefaultReference, VddReference} then Some (mi_fsr (x_max d))
       else if referenceId \<in> {InternalReference, Internal1Reference, Internal2Reference, Internal3Reference, Internal4Reference}
       then Some (mi_intref (x_max d))
       else if referenceId = ExternalReference \<and> \<not> fsr \<le> 0 then Some (x_fsr d) else None)
     in case fixed of None \<Rightarrow> Some (False, d, e)
     | Some f \<Rightarrow> let d = d\<lparr>x_fsr := (if fsr > 0 then fsr else f), x_referenceId := referenceId\<rparr>
       in if IoDevice_isOpen d then Max1161x_updateSetup os errno (d, e) else Some (True, d, e))"

definition Max1161x_setBipolar :: "'e i2c_os \<Rightarrow> int \<Rightarrow> bool \<Rightarrow> 'e m61_st \<Rightarrow> (bool \<times> 'e m61_st) option" where
  "Max1161x_setBipolar os errno bipolar = (\<lambda>(d, e). if x_bipolar d \<noteq> bipolar then
       let d = d\<lparr>x_bipolar := bipolar\<rparr> in if x_isConnected d then Max1161x_updateSetup os errno (d, e) else Some (True, d, e)
     else Some (True, d, e))"

definition Max1161x_setClock :: "'e i2c_os \<Rightarrow> int \<Rightarrow> int \<Rightarrow> 'e m61_st \<Rightarrow> (bool \<times> 'e m61_st) option" where
  "Max1161x_setClock os errno clock = (\<lambda>(d, e). if clock \<noteq> x_clkSetting d then
       let d = d\<lparr>x_clkSetting := clock\<rparr> in if x_isConnected d then Max1161x_updateSetup os errno (d, e) else Some (True, d, e)
     else Some (True, d, e))"

definition Max1161x_setFullScaleRange :: "real \<Rightarrow> 'e m61_st \<Rightarrow> bool \<times> 'e m61_st" where
  "Max1161x_setFullScaleRange fsr = (\<lambda>(d, e). (True, d\<lparr>x_fsr := fsr\<rparr>, e))"

definition max1161x_raw :: "i2cdev \<Rightarrow> max_info \<Rightarrow> bool \<Rightarrow> int \<Rightarrow> real \<Rightarrow> max1161x" where
  "max1161x_raw dev info bipolar ref0 fsr0 = iodevice.extend iodevice_new \<lparr>x_i2c = dev, x_max = info, x_referenceId = ref0,
     x_fsr = fsr0, x_bipolar = bipolar, x_isConnected = False, x_clkSetting = InternalClock\<rparr>"

definition Max1161x_new :: "'e i2c_os \<Rightarrow> int \<Rightarrow> i2cdev \<Rightarrow> int \<Rightarrow> int \<Rightarrow> real \<Rightarrow> bool \<Rightarrow> int \<Rightarrow> real \<Rightarrow> 'e \<Rightarrow> 'e m61_st option" where
  "Max1161x_new os errno dev maxId referenceId fsr bipolar ref0 fsr0 e =
     map_option snd (Max1161x_setReference os errno referenceId fsr (max1161x_raw dev (Info_new maxId (info_id (bus dev))) bipolar ref0 fsr0, e))"

definition m61_refNames :: "(string \<times> int) list" where
  "m61_refNames = [(''int'', InternalReference), (''ext'', ExternalReference), (''vdd'', VddReference), (''default'', DefaultReference),
     (''int1'', Internal1Reference), (''int2'', Internal2Reference), (''int3'', Internal3Reference), (''int4'', Internal4Reference)]"

definition Max1161x_new_params :: "'e i2c_os \<Rightarrow> int \<Rightarrow> (int \<Rightarrow> string) \<Rightarrow> (string \<Rightarrow> real res) \<Rightarrow> i2cdev \<Rightarrow> int \<Rightarrow> real \<Rightarrow> string \<Rightarrow> 'e
    \<Rightarrow> 'e m61_st option res" where
  "Max1161x_new_params os errno busPath stod dev ref0 fsr0 params e = (let pm = paramsMap params; info = Info_new 15 (info_id (bus dev)) in
     rbind (int_parameter ''bus'' 0 pm) (\<lambda>busId.
     let (dev, e) = (case busId of None \<Rightarrow> (dev, e) | Some i \<Rightarrow> I2cDev_setBusId os busPath i (dev, e));
       info = (if busId = None then info else info\<lparr>mi_busId := info_id (bus dev)\<rparr>) in
     rbind (int_parameter ''max'' 15 pm) (\<lambda>mx.
     let info = (case mx of None \<Rightarrow> info | Some i \<Rightarrow> Info_setMax i info) in
     rbind (case map_of pm ''fsr'' of None \<Rightarrow> Inr 0 | Some str \<Rightarrow> stod str) (\<lambda>fsr.
     let refId = (case Option.bind (map_of pm ''ref'') (map_of m61_refNames) of None \<Rightarrow> DefaultReference | Some r \<Rightarrow> r) in
     Inr (map_option (\<lambda>(_, d, e). (d\<lparr>x_bipolar := (map_of pm ''bipolar'' \<in> {Some ''true'', Some ''1''}),
         x_clkSetting := (if map_of pm ''clk'' = Some ''ext'' then ExternalClock else InternalClock)\<rparr>, e))
       (Max1161x_setReference os errno refId fsr (max1161x_raw dev info False ref0 fsr0, e)))))))"

section \<open>The methods of the converter\<close>

definition Max1161x_open :: "'e i2c_os \<Rightarrow> int \<Rightarrow> u32 \<Rightarrow> 'e m61_st \<Rightarrow> (bool \<times> 'e m61_st) option" where
  "Max1161x_open os errno mode = (\<lambda>(d, e).
     let (opened, b, e) = I2cDev_open os mode (x_i2c d, e); d = d\<lparr>x_i2c := b\<rparr> in
     if opened then do {
       (ok, d, e) \<leftarrow> Max1161x_updateSetup os errno (d, e);
       if ok then let (r, d) = IoDevice_Private_open mode (d\<lparr>x_isConnected := True\<rparr>) in Some (r, d, e) else Some (False, d, e)
     } else Some (False, (if io_error b \<noteq> 0 then IoDevice_setError (sys_strerror os) errno d
         else IoDevice_setError_code (sys_strerror os) ENODEV d)\<lparr>x_isConnected := False\<rparr>, e))"

definition Max1161x_close :: "'e m61_st \<Rightarrow> 'e m61_st option" where
  "Max1161x_close = (\<lambda>(d, e). Some (IoDevice_Private_close (d\<lparr>x_isConnected := False\<rparr>), e))"

definition sign_extend12 :: "int \<Rightarrow> int" where
  "sign_extend12 r = (let r = r AND 0xFFF in if r AND 2 ^ 11 \<noteq> 0 then r OR NOT 0xFFF else r)"

definition Max1161x_readChannel :: "'e i2c_os \<Rightarrow> int \<Rightarrow> int \<Rightarrow> bool \<Rightarrow> 'e m61_st \<Rightarrow> (int \<times> 'e m61_st) option" where
  "Max1161x_readChannel os errno channel differential = (\<lambda>(d, e).
     if 0 \<le> channel \<and> channel < mi_nchan (x_max d) then do {
       (sent, d, e) \<leftarrow> Max1161x_sendByte os errno (max_config (of_int channel) differential ScanOff) (d, e);
       if sent then do {
         (conversion, d, e) \<leftarrow> Max1161x_getLastConversion os errno (d, e);
         case conversion of None \<Rightarrow> Some (InvalidValue, d, e)
         | Some r \<Rightarrow> Some (if x_bipolar d \<and> differential then sign_extend12 r else r AND 0xFFF,
             (IoDevice_clearError d)\<lparr>x_isConnected := True\<rparr>, e)
       } else Some (InvalidValue, d, e)
     } else Some (InvalidValue, (IoDevice_setError_code (sys_strerror os) EINVAL d)\<lparr>x_isConnected := False\<rparr>, e))"

definition Max1161x_read :: "'e i2c_os \<Rightarrow> int \<Rightarrow> 'e m61_st \<Rightarrow> (int \<times> 'e m61_st) option" where
  "Max1161x_read os errno = Max1161x_readChannel os errno 0 False"

text \<open>The driver inherits \<open>write\<close>, \<open>writeChannel\<close>, \<open>toggle\<close>, \<open>mode\<close> and \<open>setMode\<close> from \<open>Converter::Private\<close>.\<close>

definition Max1161x_vtable :: "'e i2c_os \<Rightarrow> int \<Rightarrow> 'e m61_st conv_vtable" where
  "Max1161x_vtable os errno = \<lparr>v_openMode = (\<lambda>s. openMode (fst s)), v_type = AnalogToDigital, v_flags = 0xA9E,
     v_open = Max1161x_open os errno, v_close = Max1161x_close, v_read = Max1161x_read os errno, v_write = default_write,
     v_toggle = default_toggle, v_readChannel = Max1161x_readChannel os errno, v_writeChannel = (\<lambda>v c df. default_write v),
     v_numberOfChannels = (\<lambda>s. mi_nchan (x_max (fst s))), v_max = (\<lambda>df s. Private_max (2 ^ 12) (x_bipolar (fst s)) df),
     v_min = (\<lambda>df s. Private_min (2 ^ 12) (x_bipolar (fst s)) df),
     v_mode = (\<lambda>c s. Some (NoMode, s)), v_setMode = (\<lambda>m c s. Some (False, s))\<rparr>"

interpretation m61: converter "Max1161x_vtable os errno" "\<lambda>_. True" for os errno
  by unfold_locales (simp add: Max1161x_vtable_def Private_max_def Private_min_def sdiv_nonneg signed_divide_int_def)

section \<open>The chip\<close>

record adc_chip =
  ad_setup :: u8
  ad_config :: u8

definition adc_latch :: "u8 \<Rightarrow> adc_chip \<Rightarrow> adc_chip" where
  "adc_latch b c = (if bit b 7 then c\<lparr>ad_setup := b\<rparr> else c\<lparr>ad_config := b\<rparr>)"

text \<open>The two bytes of a conversion: four ones, then the 12 bits of the code.\<close>

definition adc_bytes :: "int \<Rightarrow> u8 list" where
  "adc_bytes s = [0xF0 OR of_int (s mod 4096 div 256), of_int (s mod 256)]"

text \<open>A sample is the code of an input (channel, differential or not, bipolar or not).\<close>

definition adc_input :: "adc_chip \<Rightarrow> (nat \<Rightarrow> bool \<Rightarrow> bool \<Rightarrow> int) \<Rightarrow> int" where
  "adc_input c smp = smp (unat (drop_bit 1 (ad_config c) AND 0x0F)) (\<not> bit (ad_config c) 0) (bit (ad_setup c) 2)"

definition max1161x_bus :: "'e i2c_os \<Rightarrow> u16 \<Rightarrow> ('e \<Rightarrow> adc_chip) \<Rightarrow> ('e \<Rightarrow> nat \<Rightarrow> bool \<Rightarrow> bool \<Rightarrow> int) \<Rightarrow> bool" where
  "max1161x_bus os a chip smp \<longleftrightarrow> rdwr_law os \<and>
     (\<forall>f b e. \<exists>ret err ins e'. sys_i2c_rdwr os f [XWrite a [b]] e = (ret, err, ins, e') \<and> 0 \<le> ret \<and>
       chip e' = adc_latch b (chip e) \<and> smp e' = smp e) \<and>
     (\<forall>f e. \<exists>ret err e'. sys_i2c_rdwr os f [XRead a 2] e = (ret, err, [adc_bytes (adc_input (chip e) (smp e))], e') \<and> 0 \<le> ret \<and>
       chip e' = chip e)"

definition m61_ok :: "u16 \<Rightarrow> max1161x \<Rightarrow> bool" where
  "m61_ok a d \<longleftrightarrow> i2c_ready (x_i2c d) \<and> of_int (mi_addr (x_max d)) = a \<and> mi_nchan (x_max d) \<le> 16"

definition same_m61 :: "max1161x \<Rightarrow> max1161x \<Rightarrow> bool" where
  "same_m61 d d' \<longleftrightarrow> x_max d' = x_max d \<and> x_referenceId d' = x_referenceId d \<and> x_fsr d' = x_fsr d \<and> x_bipolar d' = x_bipolar d \<and>
     x_clkSetting d' = x_clkSetting d \<and> openMode d' = openMode d"

lemma sendByte_chip:
  assumes bus: "max1161x_bus os a chip smp" and ok: "m61_ok a d"
  shows "\<exists>d' e'. Max1161x_sendByte os errno x (d, e) = Some (True, d', e') \<and> m61_ok a d' \<and> same_m61 d d' \<and> x_isConnected d' \<and>
    chip e' = adc_latch x (chip e) \<and> smp e' = smp e"
proof -
  have ready: "i2c_ready (x_i2c d)" and a: "of_int (mi_addr (x_max d)) = a" using ok by (auto simp: m61_ok_def)
  have law: "rdwr_law os" using bus by (simp add: max1161x_bus_def)
  obtain ret err ins e' where sys: "sys_i2c_rdwr os (fd (x_i2c d)) [XWrite a [x]] e = (ret, err, ins, e')" "0 \<le> ret"
    "chip e' = adc_latch x (chip e)" "smp e' = smp e" using bus unfolding max1161x_bus_def by blast
  from send_byte [OF ready law sys(1)]
  obtain b1 b2 b3 r where b: "I2cDev_beginTransmission a (x_i2c d) = Some b1" "I2cDev_write1 x b1 = Some (r, b2)"
    "I2cDev_endTransmission os True (b2, e) = (0 \<le> ret, b3, e')" "i2c_ready b3" by blast
  have "Max1161x_sendByte os errno x (d, e) = Some (True, d\<lparr>x_i2c := b3, x_isConnected := True\<rparr>, e')"
    using b sys(2) a by (simp add: Max1161x_sendByte_def)
  moreover have "openMode (d\<lparr>x_i2c := b3, x_isConnected := True\<rparr>) = openMode d" by (cases d) simp
  ultimately show ?thesis using b(4) sys(3,4) ok by (auto simp: m61_ok_def same_m61_def)
qed

lemma read1_byte:
  assumes "fifo_inv (rxbuf b)" "fifo_bytes (rxbuf b) = x # xs" "i2c_ready b"
  shows "\<exists>b'. I2cDev_read1 b = Some (uint x, b') \<and> fifo_inv (rxbuf b') \<and> fifo_bytes (rxbuf b') = xs \<and> i2c_ready b'"
proof -
  obtain f where f: "fifo_pull1 (rxbuf b) = Some (uint x, f)" "fifo_inv f" "fifo_bytes f = xs" "f_size f = f_size (rxbuf b)"
    using fifo_pull1_spec [OF assms(1)] assms(2) by auto
  then show ?thesis
    using assms by (auto simp: I2cDev_read1_def i2c_ready_def i2c_storage_def fifo_inv_def)
qed

text \<open>The arithmetic of a conversion.\<close>

lemma int_or_disjoint: "push_bit 8 k OR (b :: int) = k * 256 + b" if "0 \<le> b" "b < 256"
proof -
  have t: "take_bit 8 b = b" using that by (simp add: take_bit_eq_mod)
  have "push_bit 8 k AND b = 0"
    by (rule bit_eqI, subst t [symmetric]) (auto simp: bit_simps)
  then show ?thesis by (simp add: disjunctive_add_eq_or [symmetric] push_bit_eq_mult)
qed

lemma conversion_value:
  "push_bit 8 (uint (0xF0 OR of_int (s mod 4096 div 256) :: u8) AND 0x0F) OR uint (of_int (s mod 256) :: u8) = s mod 4096"
proof -
  define k where "k = s mod 4096 div 256"
  have "0 \<le> s mod 4096" "s mod 4096 < 4096" by simp_all
  then have "0 \<le> k" "k < 16" unfolding k_def by auto
  then have "k \<in> {0, 1, 2, 3, 4, 5, 6, 7, 8, 9, 10, 11, 12, 13, 14, 15}" by simp presburger
  then have k: "uint (0xF0 OR of_int k :: u8) AND 0x0F = k" by auto
  have "uint (of_int (s mod 256) :: u8) = s mod 256" by (simp add: uint_word_of_int)
  moreover have "s mod 4096 mod 256 = s mod 256" by (rule mod_mod_cancel) simp
  ultimately show ?thesis
    using int_or_disjoint [of "s mod 256" k] div_mult_mod_eq [of "s mod 4096" 256] by (simp add: k flip: k_def)
qed

lemma sign_extend12_code:
  assumes "- 2048 \<le> s" "s < 2048"
  shows "sign_extend12 (s mod 4096) = s"
proof -
  define r where "r = s mod 4096"
  have r: "0 \<le> r" "r < 4096" by (simp_all add: r_def)
  have t: "take_bit 12 r = r" using r by (simp add: take_bit_eq_mod)
  have m: "r AND 0xFFF = r"
    using t take_bit_eq_mask [of 12 r] by (simp add: mask_eq_exp_minus_1)
  have b: "r AND 2 ^ 11 \<noteq> 0 \<longleftrightarrow> 2048 \<le> r"
  proof -
    have "bit r 11 \<longleftrightarrow> odd (r div 2048)" by (simp add: bit_iff_odd)
    moreover have "r div 2048 = (if 2048 \<le> r then 1 else 0)" using r by auto
    ultimately show ?thesis using and_exp_eq_0_iff_not_bit [of r 11] by simp
  qed
  have n: "r OR NOT 0xFFF = r - 4096"
  proof -
    have e: "NOT (0xFFF :: int) = NOT (mask 12)" by (simp add: mask_eq_exp_minus_1)
    have "r AND NOT (mask 12) = 0"
      by (rule bit_eqI, subst t [symmetric]) (auto simp: bit_simps)
    then have "r OR NOT (mask 12) = r + NOT (mask 12)" by (simp add: disjunctive_add_eq_or [symmetric])
    then show ?thesis by (simp add: e [unfolded mask_eq_exp_minus_1, simplified] mask_eq_exp_minus_1 not_int_def)
  qed
  have "sign_extend12 r = (if 2048 \<le> r then r - 4096 else r)"
    unfolding sign_extend12_def Let_def m using b n by auto
  moreover have "r = (if s < 0 then s + 4096 else s)"
    using assms mod_pos_pos_trivial [of "s + 4096" 4096] by (simp add: r_def)
  ultimately show ?thesis using assms by (simp add: r_def [symmetric])
qed

lemma getLastConversion_chip:
  assumes bus: "max1161x_bus os a chip smp" and ok: "m61_ok a d" and s: "s = adc_input (chip e) (smp e)"
  shows "\<exists>d' e'. Max1161x_getLastConversion os errno (d, e) = Some (Some (s mod 4096), d', e') \<and> m61_ok a d' \<and> same_m61 d d' \<and>
    x_isConnected d' \<and> chip e' = chip e"
proof -
  have ready: "i2c_ready (x_i2c d)" and a: "of_int (mi_addr (x_max d)) = a" using ok by (auto simp: m61_ok_def)
  have law: "rdwr_law os" using bus by (simp add: max1161x_bus_def)
  obtain ret err e' where sys: "sys_i2c_rdwr os (fd (x_i2c d)) [XRead a 2] e = (ret, err, [adc_bytes s], e')" "0 \<le> ret"
    "chip e' = chip e" using bus s unfolding max1161x_bus_def by blast
  have "2 < I2C_BLOCK_MAX" by (simp add: I2C_BLOCK_MAX_def)
  from receive_frame [OF ready law this sys(1,2)]
  obtain b1 where b1: "I2cDev_requestFrom os a 2 True (x_i2c d, e) = Some (2, b1, e')" "fifo_inv (rxbuf b1)"
    "fifo_bytes (rxbuf b1) = adc_bytes s" "i2c_ready b1" by auto
  obtain b2 where b2: "I2cDev_read1 b1 = Some (uint (0xF0 OR of_int (s mod 4096 div 256) :: u8), b2)" "fifo_inv (rxbuf b2)"
    "fifo_bytes (rxbuf b2) = [of_int (s mod 256)]" "i2c_ready b2"
    using read1_byte [OF b1(2) _ b1(4)] b1(3) unfolding adc_bytes_def by blast
  obtain b3 where b3: "I2cDev_read1 b2 = Some (uint (of_int (s mod 256) :: u8), b3)" "i2c_ready b3"
    using read1_byte [OF b2(2,3,4)] by blast
  let ?d' = "d\<lparr>x_i2c := b3, x_isConnected := True\<rparr>"
  have "Max1161x_getLastConversion os errno (d, e) = Some (Some (s mod 4096), ?d', e')"
    using b1(1) b2(1) b3(1) a conversion_value [of s] by (simp add: Max1161x_getLastConversion_def)
  moreover have "openMode ?d' = openMode d" by (cases d) simp
  ultimately show ?thesis using b3(2) sys(3) ok by (auto simp: m61_ok_def same_m61_def)
qed

lemma config_fields:
  assumes "0 \<le> c" "c < 16"
  shows "\<not> bit (max_config (of_int c) df ScanOff) 7" "unat (drop_bit 1 (max_config (of_int c) df ScanOff) AND 0x0F) = nat c"
    "bit (max_config (of_int c) df ScanOff) 0 = (\<not> df)"
proof -
  have "c \<in> {0, 1, 2, 3, 4, 5, 6, 7, 8, 9, 10, 11, 12, 13, 14, 15}" using assms by simp presburger
  then show "\<not> bit (max_config (of_int c) df ScanOff) 7" "unat (drop_bit 1 (max_config (of_int c) df ScanOff) AND 0x0F) = nat c"
    "bit (max_config (of_int c) df ScanOff) 0 = (\<not> df)"
    by (auto simp: max_config_def bit_simps)
qed

section \<open>Properties\<close>

definition m61_synced :: "max1161x \<Rightarrow> adc_chip \<Rightarrow> bool" where
  "m61_synced d c \<longleftrightarrow> ad_setup c = setup_byte d"

lemma setup_bits: "bit (setup_byte d) 7" "bit (setup_byte d) 2 = x_bipolar d" "bit (setup_byte d) 3 = (x_clkSetting d = ExternalClock)"
proof -
  define r where "r = (case map_of m61_referenceMap (x_referenceId d) of None \<Rightarrow> 0 | Some r \<Rightarrow> r)"
  have "r \<in> {0, 0x20, 0x40, 0x50, 0x60, 0x70}"
    by (auto simp: r_def m61_referenceMap_def)
  then show "bit (setup_byte d) 7" "bit (setup_byte d) 2 = x_bipolar d" "bit (setup_byte d) 3 = (x_clkSetting d = ExternalClock)"
    unfolding setup_byte_def r_def [symmetric] by (auto simp: bit_simps)
qed

lemma setup_byte_cong: "same_m61 d d' \<Longrightarrow> setup_byte d' = setup_byte d"
  by (simp add: setup_byte_def same_m61_def)

lemma readChannel_chip:
  assumes bus: "max1161x_bus os a chip smp" and ok: "m61_ok a d" and c: "0 \<le> c" "c < mi_nchan (x_max d)"
    and s: "s = smp e (nat c) df (bit (ad_setup (chip e)) 2)"
  shows "\<exists>d' e'. Max1161x_readChannel os errno c df (d, e)
      = Some (if x_bipolar d \<and> df then sign_extend12 (s mod 4096) else s mod 4096, d', e') \<and>
    m61_ok a d' \<and> same_m61 d d' \<and> x_isConnected d' \<and> io_error d' = 0 \<and> ad_setup (chip e') = ad_setup (chip e)"
proof -
  let ?x = "max_config (of_int c) df ScanOff"
  have n: "c < 16" using c(2) ok by (simp add: m61_ok_def)
  obtain d1 e1 where w: "Max1161x_sendByte os errno ?x (d, e) = Some (True, d1, e1)" "m61_ok a d1" "same_m61 d d1"
    "chip e1 = adc_latch ?x (chip e)" "smp e1 = smp e" using sendByte_chip [OF bus ok, of errno ?x e] by blast
  have chip: "chip e1 = (chip e)\<lparr>ad_config := ?x\<rparr>" using w(4) config_fields(1) [OF c(1) n] by (simp add: adc_latch_def)
  have "s = adc_input (chip e1) (smp e1)"
    unfolding adc_input_def chip w(5) using s config_fields [OF c(1) n] by simp
  from getLastConversion_chip [OF bus w(2) this, of errno]
  obtain d2 e2 where g: "Max1161x_getLastConversion os errno (d1, e1) = Some (Some (s mod 4096), d2, e2)" "m61_ok a d2" "same_m61 d1 d2"
    "chip e2 = chip e1" by blast
  have "take_bit 12 (s mod 4096) = s mod 4096" by (simp add: take_bit_eq_mod)
  then have m: "s mod 4096 AND 0xFFF = s mod 4096"
    using take_bit_eq_mask [of 12 "s mod 4096"] by (simp add: mask_eq_exp_minus_1)
  let ?d = "(IoDevice_clearError d2)\<lparr>x_isConnected := True\<rparr>"
  have fields: "x_i2c ?d = x_i2c d2" "x_max ?d = x_max d2" "x_referenceId ?d = x_referenceId d2" "x_fsr ?d = x_fsr d2"
    "x_bipolar ?d = x_bipolar d2" "x_clkSetting ?d = x_clkSetting d2" "openMode ?d = openMode d2" "io_error ?d = 0" "x_isConnected ?d"
    by (cases d2, simp add: IoDevice_clearError_def)+
  have "same_m61 d d2" using w(3) g(3) by (simp add: same_m61_def)
  then have "Max1161x_readChannel os errno c df (d, e) = Some (if x_bipolar d \<and> df then sign_extend12 (s mod 4096) else s mod 4096, ?d, e2)"
    using c w(1) g(1) m by (simp add: Max1161x_readChannel_def same_m61_def)
  moreover have "m61_ok a ?d" "same_m61 d ?d"
    using g(2) \<open>same_m61 d d2\<close> unfolding m61_ok_def same_m61_def fields by simp_all
  ultimately show ?thesis using fields(8,9) g(4) chip by (intro exI [of _ ?d] exI [of _ e2]) simp
qed

text \<open>C19. Reading a channel returns the sample of exactly that input: with the setup of the driver on the chip, a single-ended or
  unipolar conversion gives its code and a bipolar differential one its signed value; the object is connected, free of
  error, and still agrees with the chip.\<close>

theorem max1161x_readChannel_samples:
  assumes bus: "max1161x_bus os a chip smp" and ok: "m61_ok a d" and sync: "m61_synced d (chip e)"
    and c: "0 \<le> c" "c < mi_nchan (x_max d)" and s: "s = smp e (nat c) df (x_bipolar d)"
    and range: "if x_bipolar d \<and> df then - 2048 \<le> s \<and> s < 2048 else 0 \<le> s \<and> s < 4096"
  shows "\<exists>d' e'. Max1161x_readChannel os errno c df (d, e) = Some (s, d', e') \<and> m61_ok a d' \<and> m61_synced d' (chip e') \<and>
    x_isConnected d' \<and> io_error d' = 0 \<and> x_bipolar d' = x_bipolar d"
proof -
  have "bit (ad_setup (chip e)) 2 = x_bipolar d" using sync setup_bits(2) by (simp add: m61_synced_def)
  then have "s = smp e (nat c) df (bit (ad_setup (chip e)) 2)" using s by simp
  from readChannel_chip [OF bus ok c this, of errno]
  obtain d' e' where r: "Max1161x_readChannel os errno c df (d, e)
      = Some (if x_bipolar d \<and> df then sign_extend12 (s mod 4096) else s mod 4096, d', e')"
    "m61_ok a d'" "same_m61 d d'" "x_isConnected d'" "io_error d' = 0" "ad_setup (chip e') = ad_setup (chip e)" by blast
  have "(if x_bipolar d \<and> df then sign_extend12 (s mod 4096) else s mod 4096) = s"
    using range sign_extend12_code [of s] by (auto split: if_splits)
  moreover have "m61_synced d' (chip e')" using sync r(6) setup_byte_cong [OF r(3)] by (simp add: m61_synced_def)
  ultimately show ?thesis using r by (auto simp: same_m61_def)
qed

lemma updateSetup_syncs:
  assumes bus: "max1161x_bus os a chip smp" and ok: "m61_ok a d"
  shows "\<exists>d' e'. Max1161x_updateSetup os errno (d, e) = Some (True, d', e') \<and> m61_ok a d' \<and> same_m61 d d' \<and> x_isConnected d' \<and>
    m61_synced d' (chip e')"
proof -
  obtain d' e' where w: "Max1161x_sendByte os errno (setup_byte d) (d, e) = Some (True, d', e')" "m61_ok a d'" "same_m61 d d'"
    "x_isConnected d'" "chip e' = adc_latch (setup_byte d) (chip e)"
    using sendByte_chip [OF bus ok, of errno "setup_byte d" e] by blast
  have "m61_synced d' (chip e')"
    using w(5) setup_bits(1) [of d] setup_byte_cong [OF w(3)] by (simp add: m61_synced_def adc_latch_def)
  then show ?thesis using w by (auto simp: Max1161x_updateSetup_def)
qed


lemma setError_code_m61 [simp]:
  "x_i2c (IoDevice_setError_code se n d) = x_i2c d" "x_max (IoDevice_setError_code se n d) = x_max d"
  "x_referenceId (IoDevice_setError_code se n d) = x_referenceId d" "x_bipolar (IoDevice_setError_code se n d) = x_bipolar d"
  "x_clkSetting (IoDevice_setError_code se n d) = x_clkSetting d"
  by (cases d, simp add: IoDevice_setError_code_def)+

text \<open>A read of a channel that does not exist marks the device as not connected although it stays open. A change
  of polarity after it is accepted but not sent, and from then on the driver misreads the chip: differential codes above half of the range
  come back 4096 too low.\<close>

lemma max1161x_bad_channel_desyncs:
  assumes bus: "max1161x_bus os a chip smp" and ok: "m61_ok a d" and sync: "m61_synced d (chip e)" and uni: "\<not> x_bipolar d"
    and bad: "c < 0 \<or> mi_nchan (x_max d) \<le> c" and good: "0 \<le> c'" "c' < mi_nchan (x_max d)"
    and s: "s = smp e (nat c') True False" "2048 \<le> s" "s < 4096"
  shows "\<exists>d1 d2 d3 e3. Max1161x_readChannel os errno c df (d, e) = Some (InvalidValue, d1, e) \<and>
    Max1161x_setBipolar os errno True (d1, e) = Some (True, d2, e) \<and> x_bipolar d2 \<and> \<not> m61_synced d2 (chip e) \<and>
    Max1161x_readChannel os errno c' True (d2, e) = Some (s - 4096, d3, e3)"
proof -
  let ?d1 = "(IoDevice_setError_code (sys_strerror os) EINVAL d)\<lparr>x_isConnected := False\<rparr>"
  let ?d2 = "?d1\<lparr>x_bipolar := True\<rparr>"
  have r: "Max1161x_readChannel os errno c df (d, e) = Some (InvalidValue, ?d1, e)"
    using bad by (auto simp: Max1161x_readChannel_def)
  have b: "Max1161x_setBipolar os errno True (?d1, e) = Some (True, ?d2, e)"
    using uni by (simp add: Max1161x_setBipolar_def)
  have chip: "bit (ad_setup (chip e)) 2 = False" using sync setup_bits(2) [of d] uni by (simp add: m61_synced_def)
  then have ns: "\<not> m61_synced ?d2 (chip e)" using setup_bits(2) [of ?d2] by (auto simp: m61_synced_def)
  have "m61_ok a ?d2" using ok by (simp add: m61_ok_def)
  moreover have "c' < mi_nchan (x_max ?d2)" using good by simp
  moreover have "s = smp e (nat c') True (bit (ad_setup (chip e)) 2)" using s(1) chip by simp
  ultimately obtain d3 e3 where "Max1161x_readChannel os errno c' True (?d2, e) = Some (sign_extend12 (s mod 4096), d3, e3)"
    using readChannel_chip [OF bus _ good(1), of ?d2 s e True errno] by auto
  moreover have "sign_extend12 (s mod 4096) = s - 4096"
    using sign_extend12_code [of "s - 4096"] s by simp
  ultimately show ?thesis using r b ns by (intro exI [of _ ?d1] exI [of _ ?d2] exI [of _ d3] exI [of _ e3]) simp
qed

text \<open>With an external reference but no full-scale range the constructor leaves the reference and the range
  uninitialised.\<close>

lemma max1161x_new_uninitialised:
  "f \<le> 0 \<Longrightarrow> Max1161x_new os errno dev mx ExternalReference f bip ref0 fsr0 e
    = Some (max1161x_raw dev (Info_new mx (info_id (bus dev))) bip ref0 fsr0, e)"
  by (simp add: Max1161x_new_def Max1161x_setReference_def)

section \<open>A simulated chip\<close>

definition adc_smp :: "adc_chip \<Rightarrow> nat \<Rightarrow> bool \<Rightarrow> bool \<Rightarrow> int" where
  "adc_smp e ch df bip = (if bip \<and> df then - 5 - int ch else if df then 4000 + int ch else 100 + int ch)"

definition adc_os :: "adc_chip i2c_os" where
  "adc_os = \<lparr>sys_open = (\<lambda>p fl e. (3, 0, e)), sys_close = (\<lambda>f e. (0, 0, e)),
     sys_i2c_funcs = (\<lambda>f e. (0, I2C_FUNC_I2C, 0, e)),
     sys_i2c_rdwr = (\<lambda>f xs e. case xs of [XWrite a msg] \<Rightarrow> (1, 0, [], if msg = [] then e else adc_latch (last msg) e)
       | [XRead a n] \<Rightarrow> if n = 2 then (1, 0, [adc_bytes (adc_input e (adc_smp e))], e) else (- 1, 121, [], e)
       | _ \<Rightarrow> (- 1, 121, [], e)),
     sys_strerror = (\<lambda>n. ''error'')\<rparr>"

lemma adc_os_bus: "max1161x_bus adc_os a id adc_smp"
proof -
  have "rdwr_law adc_os"
    by (auto simp: rdwr_law_def adc_os_def adc_bytes_def split: list.splits xfer.splits if_splits)
  moreover have "adc_smp e = adc_smp e'" for e e' by (simp add: fun_eq_iff adc_smp_def)
  ultimately show ?thesis by (auto simp: max1161x_bus_def adc_os_def)
qed

definition demo_m61 :: "bool \<Rightarrow> max1161x" where
  "demo_m61 bip = (max1161x_raw demo_bus (Info_new 15 1) bip VddReference 3.3)\<lparr>openMode := ReadWrite, x_isConnected := True\<rparr>"

lemma demo_m61_ok: "m61_ok 0x33 (demo_m61 bip)" and demo_m61_fields: "x_bipolar (demo_m61 bip) = bip" "mi_nchan (x_max (demo_m61 bip)) = 8"
  "openMode (demo_m61 bip) = ReadWrite" "x_isConnected (demo_m61 bip)"
  using demo_bus_ready
  by (simp_all add: m61_ok_def demo_m61_def max1161x_raw_def iodevice.defs Info_new_def Info_setMax_def maxInfoMap_def)

definition demo_adc :: "bool \<Rightarrow> adc_chip" where
  "demo_adc bip = \<lparr>ad_setup = setup_byte (demo_m61 bip), ad_config = 0\<rparr>"

lemma demo_adc_synced: "m61_synced (demo_m61 bip) (id (demo_adc bip))"
  by (simp add: m61_synced_def demo_adc_def)

theorem max1161x_readChannel_samples_witness:
  "\<exists>d' e'. Max1161x_readChannel adc_os 0 3 True (demo_m61 True, demo_adc True) = Some (- 8, d', e') \<and> x_isConnected d'"
  using max1161x_readChannel_samples [OF adc_os_bus demo_m61_ok [of True] demo_adc_synced [of True], where c = 3 and df = True and s = "- 8" and errno = 0]
    demo_m61_fields by (auto simp: adc_smp_def)


lemma max1161x_bad_channel_desyncs_witness:
  "\<exists>d1 d2 d3 e3. Max1161x_readChannel adc_os 0 99 False (demo_m61 False, demo_adc False) = Some (InvalidValue, d1, demo_adc False) \<and>
    Max1161x_setBipolar adc_os 0 True (d1, demo_adc False) = Some (True, d2, demo_adc False) \<and>
    Max1161x_readChannel adc_os 0 2 True (d2, demo_adc False) = Some (- 94, d3, e3)"
  using max1161x_bad_channel_desyncs [OF adc_os_bus demo_m61_ok [of False] demo_adc_synced [of False], where c = 99 and c' = 2 and s = 4002
      and errno = 0 and df = False] demo_m61_fields
  by (auto simp: adc_smp_def)

end
