(* ===== verification/GpioDevice.thy ===== *)
theory GpioDevice
  imports Prelude
begin

text \<open>
  What the GPIO drivers share: the enumerations of \<open>include/piduino/gpiopin.h\<close>, the memory-mapped
  registers of \<open>include/piduino/iomap.h\<close> and the interface of \<open>GpioDevice\<close> (\<open>src/gpio/gpiodevice.cpp\<close>)
  as a locale, with what its clients use of it.

  The registers are a function from word offsets to 32-bit words. A write stores the word and lets
  the hardware react: the reaction is the parameter \<open>hw\<close> of the drivers, about which each driver
  theory states the documented behaviour it relies on.
\<close>

section \<open>Pins\<close>

datatype pin_mode = ModeInput | ModeOutput | ModeDisabled | ModePwm | ModeAlt0 | ModeAlt1 | ModeAlt2 | ModeAlt3
  | ModeAlt4 | ModeAlt5 | ModeAlt6 | ModeAlt7 | ModeAlt8 | ModeAlt9 | ModeUnknown

datatype pin_pull = PullOff | PullDown | PullUp | PullUnknown

section \<open>Memory-mapped registers\<close>

type_synonym mmio = "nat \<Rightarrow> u32"
type_synonym hw = "nat \<Rightarrow> u32 \<Rightarrow> mmio \<Rightarrow> mmio"

definition atomicRead :: "nat \<Rightarrow> mmio \<Rightarrow> u32" where
  "atomicRead offset m = m offset"

definition atomicWrite :: "hw \<Rightarrow> nat \<Rightarrow> u32 \<Rightarrow> mmio \<Rightarrow> mmio" where
  "atomicWrite hw offset v m = hw offset v (m(offset := v))"

text \<open>A field of \<open>w\<close> bits at position \<open>p\<close>: the masks of the sources are \<open>mask w\<close>.\<close>

lemma field_masks: "(3 :: u32) = mask 2" "(7 :: u32) = mask 3" "(15 :: u32) = mask 4" "(31 :: u32) = mask 5"
  by (simp_all add: mask_eq_exp_minus_1)

lemma mask_field_fits: "p + w \<le> 32 \<Longrightarrow> drop_bit p (push_bit p (mask w)) = (mask w :: u32)"
  by (rule bit_word_eqI) (auto simp: bit_simps)

lemma mask_fields_disjoint: "p + w \<le> q \<or> q + w' \<le> p \<Longrightarrow> push_bit p (mask w) AND push_bit q (mask w') = (0 :: u32)"
  by (rule bit_word_eqI) (auto simp: bit_simps)

lemma field_same [bitfield]:
  fixes r v :: u32
  shows "p + w \<le> 32 \<Longrightarrow> v AND mask w = v \<Longrightarrow> drop_bit p ((r AND NOT (push_bit p (mask w))) OR push_bit p v) AND mask w = v"
  by (rule field_read_back) (simp_all add: mask_field_fits)

lemma field_other [bitfield]:
  fixes r v :: u32
  shows "p + w \<le> q \<or> q + w' \<le> p \<Longrightarrow> v AND mask w = v \<Longrightarrow>
    drop_bit q ((r AND NOT (push_bit p (mask w))) OR push_bit p v) AND mask w' = drop_bit q r AND mask w'"
  by (rule field_read_other) (simp_all add: mask_fields_disjoint)

text \<open>Fields of equal width \<open>w\<close> at the positions \<open>i * w\<close> are apart.\<close>

lemma slots_apart: "i \<noteq> j \<Longrightarrow> i * w + w \<le> j * w \<or> j * w + w \<le> i * (w :: nat)"
proof -
  assume "i \<noteq> j"
  then have "Suc i \<le> j \<or> Suc j \<le> i" by auto
  then show ?thesis by (metis add.commute mult_Suc mult_le_mono1)
qed

lemmas field3_same = field_same [where w = 3, folded field_masks]
lemmas field3_other = field_other [where w = 3 and w' = 3, folded field_masks]
lemmas field2_same = field_same [where w = 2, folded field_masks]
lemmas field2_other = field_other [where w = 2 and w' = 2, folded field_masks]

lemma bit_mask_read: "(r :: u32) AND 2 ^ n \<noteq> 0 \<longleftrightarrow> bit r n"
  by (auto simp: and_single_bit push_bit_of_1 dest: bit_imp_le_length)

lemma word_and7: "(r :: u32) AND 7 \<in> {0, 1, 2, 3, 4, 5, 6, 7}"
proof -
  have "r AND 7 \<le> 7" by (simp add: word_and_le1)
  then have "unat (r AND 7) \<le> 7" by (simp add: word_le_nat_alt)
  then have "unat (r AND 7) \<in> {0, 1, 2, 3, 4, 5, 6, 7}" by auto
  then show ?thesis by (simp add: word_unat_eq_iff)
qed

lemma same_slot: "g mod k = h mod k \<Longrightarrow> g div k = h div k \<Longrightarrow> g = (h :: nat)"
  by (metis div_mult_mod_eq)

section \<open>The interface of a GPIO device\<close>

text \<open>The capabilities a device reports, and the virtual methods of the class.\<close>

abbreviation hasToggle :: u32 where "hasToggle \<equiv> 0x01"
abbreviation hasPullRead :: u32 where "hasPullRead \<equiv> 0x02"
abbreviation hasAltRead :: u32 where "hasAltRead \<equiv> 0x04"
abbreviation hasDrive :: u32 where "hasDrive \<equiv> 0x08"

record 's gpio_vtable =
  g_flags :: "'s \<Rightarrow> u32"
  g_mode :: "nat \<Rightarrow> 's \<Rightarrow> pin_mode res"
  g_setMode :: "nat \<Rightarrow> pin_mode \<Rightarrow> 's \<Rightarrow> 's res"
  g_pull :: "nat \<Rightarrow> 's \<Rightarrow> pin_pull res"
  g_setPull :: "nat \<Rightarrow> pin_pull \<Rightarrow> 's \<Rightarrow> 's res"
  g_read :: "nat \<Rightarrow> 's \<Rightarrow> bool res"
  g_write :: "nat \<Rightarrow> bool \<Rightarrow> 's \<Rightarrow> 's res"
  g_toggle :: "nat \<Rightarrow> 's \<Rightarrow> 's res"
  g_drive :: "nat \<Rightarrow> 's \<Rightarrow> int res"
  g_setDrive :: "nat \<Rightarrow> int \<Rightarrow> 's \<Rightarrow> 's res"

text \<open>The state of a device that works on one register block.\<close>

record mmio_dev =
  isopen :: bool
  isdebug :: bool
  regs :: mmio

text \<open>The default implementations of the optional methods.\<close>

definition GpioDevice_toggle ::
  "(nat \<Rightarrow> 's \<Rightarrow> bool res) \<Rightarrow> (nat \<Rightarrow> bool \<Rightarrow> 's \<Rightarrow> 's res) \<Rightarrow> nat \<Rightarrow> 's \<Rightarrow> 's res" where
  "GpioDevice_toggle rd wr pin s = (case rd pin s of Inl x \<Rightarrow> Inl x | Inr b \<Rightarrow> wr pin (\<not> b) s)"

definition GpioDevice_drive :: "nat \<Rightarrow> 's \<Rightarrow> int res" where
  "GpioDevice_drive pin s = Inr (-1)"

definition GpioDevice_setDrive :: "nat \<Rightarrow> int \<Rightarrow> 's \<Rightarrow> 's res" where
  "GpioDevice_setDrive pin v s = Inr s"

definition GpioDevice_setDebug :: "bool \<Rightarrow> mmio_dev \<Rightarrow> mmio_dev" where
  "GpioDevice_setDebug enable s = s\<lparr>isdebug := enable\<rparr>"

text \<open>
  What a client may rely on. \<open>valid\<close> are the pins of the device, \<open>ok\<close> its usable states and
  \<open>settable g m\<close> the modes that pin \<open>g\<close> can be given and reports back; every mode that a pin reports
  is one of them, unless it is unknown. Reading back a level is promised for pins in output mode only.
\<close>

locale gpio_device =
  fixes vt :: "'s gpio_vtable" and valid :: "nat \<Rightarrow> bool" and ok :: "'s \<Rightarrow> bool"
    and settable :: "nat \<Rightarrow> pin_mode \<Rightarrow> bool"
  assumes setMode_ok: "ok s \<Longrightarrow> valid g \<Longrightarrow> settable g m \<Longrightarrow>
      \<exists>s'. g_setMode vt g m s = Inr s' \<and> ok s' \<and> g_mode vt g s' = Inr m"
    and setMode_inv: "ok s \<Longrightarrow> valid g \<Longrightarrow> g_setMode vt g m s = Inr s' \<Longrightarrow> ok s'"
    and setMode_other: "ok s \<Longrightarrow> valid g \<Longrightarrow> valid h \<Longrightarrow> h \<noteq> g \<Longrightarrow> g_setMode vt g m s = Inr s' \<Longrightarrow>
      g_mode vt h s' = g_mode vt h s"
    and mode_settable: "ok s \<Longrightarrow> valid g \<Longrightarrow> g_mode vt g s = Inr m \<Longrightarrow> m \<noteq> ModeUnknown \<Longrightarrow> settable g m"
    and read_ok: "ok s \<Longrightarrow> valid g \<Longrightarrow> \<exists>b. g_read vt g s = Inr b"
    and write_ok: "ok s \<Longrightarrow> valid g \<Longrightarrow> \<exists>s'. g_write vt g v s = Inr s' \<and> ok s' \<and>
      (\<forall>h. valid h \<longrightarrow> g_mode vt h s' = g_mode vt h s) \<and>
      (g_mode vt g s = Inr ModeOutput \<longrightarrow> g_read vt g s' = Inr v) \<and>
      (\<forall>h. valid h \<and> h \<noteq> g \<and> g_mode vt h s = Inr ModeOutput \<longrightarrow> g_read vt h s' = g_read vt h s)"
    and toggle_ok: "ok s \<Longrightarrow> valid g \<Longrightarrow> g_read vt g s = Inr b \<Longrightarrow> \<exists>s'. g_toggle vt g s = Inr s' \<and> ok s' \<and>
      (\<forall>h. valid h \<longrightarrow> g_mode vt h s' = g_mode vt h s) \<and>
      (g_mode vt g s = Inr ModeOutput \<longrightarrow> g_read vt g s' = Inr (\<not> b)) \<and>
      (\<forall>h. valid h \<and> h \<noteq> g \<and> g_mode vt h s = Inr ModeOutput \<longrightarrow> g_read vt h s' = g_read vt h s)"

text \<open>Devices whose pull resistors can be read back and are independent of the modes and levels.\<close>

locale gpio_pull_device = gpio_device +
  assumes pull_ok: "ok s \<Longrightarrow> valid g \<Longrightarrow> \<exists>p. g_pull vt g s = Inr p"
    and setPull_ok: "ok s \<Longrightarrow> valid g \<Longrightarrow> \<exists>s'. g_setPull vt g p s = Inr s' \<and> ok s' \<and>
      (\<forall>h. valid h \<longrightarrow> g_mode vt h s' = g_mode vt h s) \<and>
      g_pull vt g s' = (if p = PullUnknown then g_pull vt g s else Inr p) \<and>
      (\<forall>h. valid h \<and> h \<noteq> g \<longrightarrow> g_pull vt h s' = g_pull vt h s) \<and>
      (\<forall>h. valid h \<and> g_mode vt h s = Inr ModeOutput \<longrightarrow> g_read vt h s' = g_read vt h s)"
    and setMode_pull: "ok s \<Longrightarrow> valid g \<Longrightarrow> valid h \<Longrightarrow> g_setMode vt g m s = Inr s' \<Longrightarrow> g_pull vt h s' = g_pull vt h s"
    and write_pull: "ok s \<Longrightarrow> valid g \<Longrightarrow> valid h \<Longrightarrow> g_write vt g v s = Inr s' \<Longrightarrow> g_pull vt h s' = g_pull vt h s"
    and toggle_pull: "ok s \<Longrightarrow> valid g \<Longrightarrow> valid h \<Longrightarrow> g_toggle vt g s = Inr s' \<Longrightarrow> g_pull vt h s' = g_pull vt h s"

text \<open>Setting up several pins and writing several levels, one after the other, stopping at an exception.\<close>

fun configure :: "'s gpio_vtable \<Rightarrow> (nat \<times> pin_mode) list \<Rightarrow> 's \<Rightarrow> 's res" where
  "configure vt [] s = Inr s"
| "configure vt ((g, m) # cfg) s = (case g_setMode vt g m s of Inl x \<Rightarrow> Inl x | Inr s' \<Rightarrow> configure vt cfg s')"

fun write_all :: "'s gpio_vtable \<Rightarrow> (nat \<times> bool) list \<Rightarrow> 's \<Rightarrow> 's res" where
  "write_all vt [] s = Inr s"
| "write_all vt ((g, v) # ps) s = (case g_write vt g v s of Inl x \<Rightarrow> Inl x | Inr s' \<Rightarrow> write_all vt ps s')"

context gpio_device
begin

lemma configure_modes:
  "ok s \<Longrightarrow> distinct (map fst cfg) \<Longrightarrow> (\<forall>(g, m) \<in> set cfg. valid g \<and> settable g m) \<Longrightarrow>
    \<exists>s'. configure vt cfg s = Inr s' \<and> ok s' \<and> (\<forall>(g, m) \<in> set cfg. g_mode vt g s' = Inr m) \<and>
      (\<forall>h. valid h \<and> h \<notin> fst ` set cfg \<longrightarrow> g_mode vt h s' = g_mode vt h s)"
proof (induction cfg arbitrary: s)
  case (Cons p cfg)
  obtain g m where p: "p = (g, m)" by (cases p)
  have rest: "distinct (map fst cfg)" "\<forall>(g, m) \<in> set cfg. valid g \<and> settable g m" "valid g" "g \<notin> fst ` set cfg"
    using Cons.prems p by auto
  obtain s1 where s1: "g_setMode vt g m s = Inr s1" "ok s1" "g_mode vt g s1 = Inr m"
    using setMode_ok [of s g m] Cons.prems p by auto
  obtain s' where s': "configure vt cfg s1 = Inr s'" "ok s'" "\<forall>(g, m) \<in> set cfg. g_mode vt g s' = Inr m"
    "\<forall>h. valid h \<and> h \<notin> fst ` set cfg \<longrightarrow> g_mode vt h s' = g_mode vt h s1"
    using Cons.IH [of s1] rest s1(2) by blast
  have "g_mode vt h s' = g_mode vt h s" if "valid h" "h \<notin> fst ` set (p # cfg)" for h
    using that s'(4) setMode_other [OF Cons.prems(1) rest(3) that(1) _ s1(1)] p by simp
  moreover have "g_mode vt g s' = Inr m" using s'(4) s1(3) rest by simp
  ultimately show ?case using s1 s' p by auto
qed simp

lemma write_all_levels:
  "ok s \<Longrightarrow> distinct (map fst ps) \<Longrightarrow> (\<forall>(g, v) \<in> set ps. valid g \<and> g_mode vt g s = Inr ModeOutput) \<Longrightarrow>
    \<exists>s'. write_all vt ps s = Inr s' \<and> ok s' \<and> (\<forall>h. valid h \<longrightarrow> g_mode vt h s' = g_mode vt h s) \<and>
      (\<forall>(g, v) \<in> set ps. g_read vt g s' = Inr v) \<and>
      (\<forall>h. valid h \<and> h \<notin> fst ` set ps \<and> g_mode vt h s = Inr ModeOutput \<longrightarrow> g_read vt h s' = g_read vt h s)"
proof (induction ps arbitrary: s)
  case (Cons p ps)
  obtain g v where p: "p = (g, v)" by (cases p)
  have g: "valid g" "g_mode vt g s = Inr ModeOutput" "g \<notin> fst ` set ps" "distinct (map fst ps)"
    using Cons.prems p by auto
  obtain s1 where s1: "g_write vt g v s = Inr s1" "ok s1" "\<forall>h. valid h \<longrightarrow> g_mode vt h s1 = g_mode vt h s"
    "g_read vt g s1 = Inr v"
    "\<forall>h. valid h \<and> h \<noteq> g \<and> g_mode vt h s = Inr ModeOutput \<longrightarrow> g_read vt h s1 = g_read vt h s"
    using write_ok [OF Cons.prems(1) g(1), of v] g(2) by blast
  have rest: "\<forall>(h, w) \<in> set ps. valid h \<and> g_mode vt h s1 = Inr ModeOutput"
    using Cons.prems(3) s1(3) p by auto
  obtain s' where s': "write_all vt ps s1 = Inr s'" "ok s'" "\<forall>h. valid h \<longrightarrow> g_mode vt h s' = g_mode vt h s1"
    "\<forall>(g, v) \<in> set ps. g_read vt g s' = Inr v"
    "\<forall>h. valid h \<and> h \<notin> fst ` set ps \<and> g_mode vt h s1 = Inr ModeOutput \<longrightarrow> g_read vt h s' = g_read vt h s1"
    using Cons.IH [OF s1(2) g(4) rest] by blast
  have "g_read vt g s' = Inr v" using s'(5) s1(3,4) g by simp
  moreover have "g_read vt h s' = g_read vt h s"
    if "valid h" "h \<notin> fst ` set (p # ps)" "g_mode vt h s = Inr ModeOutput" for h
    using that s'(5) s1(3,5) p by simp
  ultimately show ?case using s1 s' p by auto
qed simp

end

end
