(* ===== verification/Bcm2835Gpio.thy ===== *)
theory Bcm2835Gpio
  imports GpioDevice
begin

text \<open>
  The GPIO driver of the BCM2835 to BCM2711 (\<open>src/arch/arm/broadcom/gpio_bcm2835.cpp\<close>). A pin is its
  MCU number \<open>g\<close>, 0 to 53. The register block is accessed while the device is open. \<open>is2711\<close> is
  the static flag of the class that tells the BCM2711 from the others.
\<close>

unbundle bit_operations_syntax

section \<open>Register offsets\<close>

abbreviation (input) GFPSEL0 :: nat where "GFPSEL0 \<equiv> 0"
abbreviation (input) GPSET0 :: nat where "GPSET0 \<equiv> 7"
abbreviation (input) GPCLR0 :: nat where "GPCLR0 \<equiv> 10"
abbreviation (input) GPLEV0 :: nat where "GPLEV0 \<equiv> 13"
abbreviation (input) GPPUD :: nat where "GPPUD \<equiv> 37"
abbreviation (input) GPPUDCLK0 :: nat where "GPPUDCLK0 \<equiv> 38"
abbreviation (input) GPPUPPDN0 :: nat where "GPPUPPDN0 \<equiv> 57"

section \<open>Tables\<close>

definition bcm_int2mode :: "(u32 \<times> pin_mode) list" where
  "bcm_int2mode = [(0, ModeInput), (1, ModeOutput), (4, ModeAlt0), (5, ModeAlt1), (6, ModeAlt2), (7, ModeAlt3),
     (3, ModeAlt4), (2, ModeAlt5)]"

definition bcm_mode2int :: "(pin_mode \<times> u32) list" where
  "bcm_mode2int = [(ModeInput, 0), (ModeOutput, 1), (ModeAlt0, 4), (ModeAlt1, 5), (ModeAlt2, 6), (ModeAlt3, 7),
     (ModeAlt4, 3), (ModeAlt5, 2)]"

definition bcm_modes :: "(pin_mode \<times> string) list" where
  "bcm_modes = [(ModeInput, ''in''), (ModeOutput, ''out''), (ModeAlt0, ''alt0''), (ModeAlt1, ''alt1''),
     (ModeAlt2, ''alt2''), (ModeAlt3, ''alt3''), (ModeAlt4, ''alt4''), (ModeAlt5, ''alt5''), (ModePwm, ''pwm'')]"

section \<open>Operations\<close>

text \<open>The result of mapping the registers is that of the kernel: an exception or the block.\<close>

definition Bcm2835Gpio_open :: "mmio res \<Rightarrow> mmio_dev \<Rightarrow> (bool \<times> mmio_dev) res" where
  "Bcm2835Gpio_open mapped d =
    (if \<not> isopen d
     then case mapped of Inl x \<Rightarrow> Inl x | Inr m \<Rightarrow> Inr (True, d\<lparr>regs := m, isopen := True\<rparr>)
     else Inr (isopen d, d))"

definition Bcm2835Gpio_close :: "mmio_dev \<Rightarrow> mmio_dev" where
  "Bcm2835Gpio_close d = (if isopen d then d\<lparr>isopen := False\<rparr> else d)"

definition Bcm2835Gpio_flags :: "bool \<Rightarrow> u32" where
  "Bcm2835Gpio_flags is2711 = hasAltRead OR (if is2711 then hasPullRead else 0)"

definition Bcm2835Gpio_mode :: "nat \<Rightarrow> mmio_dev \<Rightarrow> pin_mode res" where
  "Bcm2835Gpio_mode g d =
    (let r = drop_bit ((g mod 10) * 3) (atomicRead (GFPSEL0 + g div 10) (regs d)) AND 7
     in case map_at bcm_int2mode r of
          Inl x \<Rightarrow> Inl x
        | Inr m \<Rightarrow>
            (if m = ModeAlt0 \<and> (g = 12 \<or> g = 13) \<or> m = ModeAlt5 \<and> (g = 18 \<or> g = 19)
             then Inr ModePwm else Inr m))"

definition bcm_setFsel :: "hw \<Rightarrow> nat \<Rightarrow> pin_mode \<Rightarrow> mmio_dev \<Rightarrow> mmio_dev res" where
  "bcm_setFsel hw g m d =
    (let offset = GFPSEL0 + g div 10; lsr = (g mod 10) * 3;
         rval = atomicRead offset (regs d) AND NOT (push_bit lsr 7)
     in case map_at bcm_mode2int m of
          Inl x \<Rightarrow> Inl x
        | Inr mval \<Rightarrow> Inr (d\<lparr>regs := atomicWrite hw offset (rval OR push_bit lsr mval) (regs d)\<rparr>))"

definition Bcm2835Gpio_setMode :: "hw \<Rightarrow> nat \<Rightarrow> pin_mode \<Rightarrow> mmio_dev \<Rightarrow> mmio_dev res" where
  "Bcm2835Gpio_setMode hw g m d =
    (if m = ModePwm
     then (if g = 12 \<or> g = 13 then bcm_setFsel hw g ModeAlt0 d
           else if g = 18 \<or> g = 19 then bcm_setFsel hw g ModeAlt5 d
           else Inl Invalid_argument)
     else bcm_setFsel hw g m d)"

definition Bcm2835Gpio_pull :: "bool \<Rightarrow> nat \<Rightarrow> mmio_dev \<Rightarrow> pin_pull res" where
  "Bcm2835Gpio_pull is2711 g d =
    (if is2711
     then let v = drop_bit ((g mod 16) * 2) (atomicRead (GPPUPPDN0 + g div 16) (regs d)) AND 3
          in Inr (if v = 0 then PullOff else if v = 2 then PullDown else if v = 1 then PullUp else PullUnknown)
     else Inr PullUnknown)"

text \<open>On the older chips the control value is clocked into the pad of the pin; the delays have no effect on the registers.\<close>

definition Bcm2835Gpio_setPull :: "hw \<Rightarrow> bool \<Rightarrow> nat \<Rightarrow> pin_pull \<Rightarrow> mmio_dev \<Rightarrow> mmio_dev res" where
  "Bcm2835Gpio_setPull hw is2711 g p d =
    (if p = PullUnknown then Inr d
     else if is2711
     then let r = GPPUPPDN0 + g div 16; pullshift = (g mod 16) * 2;
              pval = (if p = PullOff then 0 else if p = PullUp then 1 else 2);
              pullbits = (atomicRead r (regs d) AND NOT (push_bit pullshift 3)) OR push_bit pullshift pval
          in Inr (d\<lparr>regs := atomicWrite hw r pullbits (regs d)\<rparr>)
     else let pclk = (if g > 31 then GPPUDCLK0 + 1 else GPPUDCLK0); n = (if g > 31 then g - 32 else g);
              pval = (if p = PullOff then 0 else if p = PullDown then 1 else 2)
          in Inr (d\<lparr>regs := atomicWrite hw pclk 0 (atomicWrite hw GPPUD 0
               (atomicWrite hw pclk (push_bit n 1) (atomicWrite hw GPPUD pval (regs d))))\<rparr>))"

definition Bcm2835Gpio_write :: "hw \<Rightarrow> nat \<Rightarrow> bool \<Rightarrow> mmio_dev \<Rightarrow> mmio_dev res" where
  "Bcm2835Gpio_write hw g v d =
    (let offset = (if v then GPSET0 else GPCLR0)
     in if g > 31 then Inr (d\<lparr>regs := atomicWrite hw (offset + 1) (push_bit (g - 32) 1) (regs d)\<rparr>)
        else Inr (d\<lparr>regs := atomicWrite hw offset (push_bit g 1) (regs d)\<rparr>))"

definition Bcm2835Gpio_read :: "nat \<Rightarrow> mmio_dev \<Rightarrow> bool res" where
  "Bcm2835Gpio_read g d =
    (if g > 31 then Inr (atomicRead (GPLEV0 + 1) (regs d) AND push_bit (g - 32) 1 \<noteq> 0)
     else Inr (atomicRead GPLEV0 (regs d) AND push_bit g 1 \<noteq> 0))"

definition Bcm2835Gpio_vtable :: "hw \<Rightarrow> bool \<Rightarrow> mmio_dev gpio_vtable" where
  "Bcm2835Gpio_vtable hw is2711 = \<lparr>
     g_flags = (\<lambda>_. Bcm2835Gpio_flags is2711),
     g_mode = Bcm2835Gpio_mode, g_setMode = Bcm2835Gpio_setMode hw,
     g_pull = Bcm2835Gpio_pull is2711, g_setPull = Bcm2835Gpio_setPull hw is2711,
     g_read = Bcm2835Gpio_read, g_write = Bcm2835Gpio_write hw,
     g_toggle = GpioDevice_toggle Bcm2835Gpio_read (Bcm2835Gpio_write hw),
     g_drive = GpioDevice_drive, g_setDrive = GpioDevice_setDrive\<rparr>"

section \<open>What the driver relies on of the hardware\<close>

text \<open>
  The function select and pull registers hold what is written to them. A write to a set (clear)
  register raises (lowers) the pins of the bits that are set, as far as they are outputs, and leaves the
  level of the other outputs alone; so does a write to a pull register.
\<close>

definition bcm_plain :: "nat \<Rightarrow> bool" where
  "bcm_plain i \<longleftrightarrow> i < GPSET0 \<or> GPPUPPDN0 \<le> i \<and> i < GPPUPPDN0 + 4"

definition bcm_is_output :: "nat \<Rightarrow> mmio \<Rightarrow> bool" where
  "bcm_is_output g m \<longleftrightarrow> drop_bit ((g mod 10) * 3) (m (GFPSEL0 + g div 10)) AND 7 = 1"

definition bcm_level :: "nat \<Rightarrow> mmio \<Rightarrow> bool" where
  "bcm_level g m = bit (m (GPLEV0 + g div 32)) (g mod 32)"

locale bcm_hw =
  fixes hw :: hw
  assumes plain: "bcm_plain i \<Longrightarrow> hw off v m i = m i"
    and set_level: "g < 54 \<Longrightarrow> k < 2 \<Longrightarrow> bcm_is_output g m \<Longrightarrow>
      bcm_level g (hw (GPSET0 + k) v m) = (g div 32 = k \<and> bit v (g mod 32) \<or> bcm_level g m)"
    and clr_level: "g < 54 \<Longrightarrow> k < 2 \<Longrightarrow> bcm_is_output g m \<Longrightarrow>
      bcm_level g (hw (GPCLR0 + k) v m) = (\<not> (g div 32 = k \<and> bit v (g mod 32)) \<and> bcm_level g m)"
    and plain_level: "g < 54 \<Longrightarrow> bcm_is_output g m \<Longrightarrow> GPPUPPDN0 \<le> i \<Longrightarrow> i < GPPUPPDN0 + 4 \<Longrightarrow>
      bcm_level g (hw i v m) = bcm_level g m"

text \<open>
  A simulation of the chip that has these properties: the level register follows the set and clear
  registers.
\<close>

definition bcm_sim :: hw where
  "bcm_sim off v m =
    (if off = GPSET0 \<or> off = GPSET0 + 1
     then m(GPLEV0 + (off - GPSET0) := m (GPLEV0 + (off - GPSET0)) OR v)
     else if off = GPCLR0 \<or> off = GPCLR0 + 1
     then m(GPLEV0 + (off - GPCLR0) := m (GPLEV0 + (off - GPCLR0)) AND NOT v)
     else m)"

section \<open>Fields\<close>

text \<open>The function select field of a pin and the mode it stands for.\<close>

definition bcm_fsel :: "nat \<Rightarrow> mmio \<Rightarrow> u32" where
  "bcm_fsel g m = drop_bit ((g mod 10) * 3) (m (GFPSEL0 + g div 10)) AND 7"

definition bcm_mode_of :: "nat \<Rightarrow> u32 \<Rightarrow> pin_mode res" where
  "bcm_mode_of g r = (case map_at bcm_int2mode r of Inl x \<Rightarrow> Inl x
     | Inr m \<Rightarrow> (if m = ModeAlt0 \<and> (g = 12 \<or> g = 13) \<or> m = ModeAlt5 \<and> (g = 18 \<or> g = 19) then Inr ModePwm else Inr m))"

lemma bcm_mode_fsel: "Bcm2835Gpio_mode g d = bcm_mode_of g (bcm_fsel g (regs d))"
  by (simp add: Bcm2835Gpio_mode_def bcm_mode_of_def bcm_fsel_def atomicRead_def Let_def)

lemma bcm_mode_output: "Bcm2835Gpio_mode g d = Inr ModeOutput \<longleftrightarrow> bcm_is_output g (regs d)"
proof -
  have "bcm_mode_of g r = Inr ModeOutput \<longleftrightarrow> r = 1" for r
    by (simp add: bcm_mode_of_def map_at_def bcm_int2mode_def)
  then show ?thesis by (simp add: bcm_mode_fsel bcm_is_output_def bcm_fsel_def)
qed

lemma bcm_read_level: "g < 54 \<Longrightarrow> Bcm2835Gpio_read g d = Inr (bcm_level g (regs d))"
proof -
  assume "g < 54"
  then have "g \<le> 31 \<Longrightarrow> g div 32 = 0 \<and> g mod 32 = g" "g > 31 \<Longrightarrow> g div 32 = 1 \<and> g mod 32 = g - 32"
    by (simp_all add: div_nat_eqI mod_nat_eqI)
  then show ?thesis
    by (cases "g > 31") (simp_all add: Bcm2835Gpio_read_def bcm_level_def atomicRead_def bit_mask_read)
qed

lemma bcm_mode_known: "\<exists>m. Bcm2835Gpio_mode g d = Inr m \<and> m \<noteq> ModeUnknown"
proof -
  have "bcm_fsel g (regs d) \<in> {0, 1, 2, 3, 4, 5, 6, 7}" unfolding bcm_fsel_def by (rule word_and7)
  then show ?thesis by (auto simp: bcm_mode_fsel bcm_mode_of_def map_at_def bcm_int2mode_def)
qed

definition bcm_settable :: "nat \<Rightarrow> pin_mode \<Rightarrow> bool" where
  "bcm_settable g m \<longleftrightarrow> m = ModePwm \<and> (g = 12 \<or> g = 13 \<or> g = 18 \<or> g = 19) \<or>
    m \<in> set (map fst bcm_mode2int) \<and> \<not> (m = ModeAlt0 \<and> (g = 12 \<or> g = 13)) \<and> \<not> (m = ModeAlt5 \<and> (g = 18 \<or> g = 19))"

definition bcm_ok :: "mmio_dev \<Rightarrow> bool" where
  "bcm_ok d = isopen d"

definition bcm_valid :: "nat \<Rightarrow> bool" where
  "bcm_valid g = (g < 54)"

lemma bcm_mode_of_settable: "bcm_mode_of g r = Inr m \<Longrightarrow> bcm_settable g m"
  by (auto simp: bcm_mode_of_def bcm_settable_def map_at_def bcm_int2mode_def bcm_mode2int_def
      split: if_splits)

section \<open>The driver implements the interface\<close>

lemma bcm_sel_plain: "g < 54 \<Longrightarrow> bcm_plain (GFPSEL0 + g div 10)"
  by (simp add: bcm_plain_def div_less_iff_less_mult)

lemma bcm_pul_plain: "g < 54 \<Longrightarrow> bcm_plain (GPPUPPDN0 + g div 16)"
  by (simp add: bcm_plain_def div_less_iff_less_mult)

lemma bcm_bank: "g < 54 \<Longrightarrow> g div 32 < (2 :: nat)"
  by (simp add: div_less_iff_less_mult)

lemma bcm_write_bank:
  "g < 54 \<Longrightarrow> Bcm2835Gpio_write hw g v d =
    Inr (d\<lparr>regs := atomicWrite hw ((if v then GPSET0 else GPCLR0) + g div 32) (push_bit (g mod 32) 1) (regs d)\<rparr>)"
proof -
  assume "g < 54"
  then have "g \<le> 31 \<Longrightarrow> g div 32 = 0 \<and> g mod 32 = g" "g > 31 \<Longrightarrow> g div 32 = 1 \<and> g mod 32 = g - 32"
    by (simp_all add: div_nat_eqI mod_nat_eqI)
  then show ?thesis by (cases "g > 31") (simp_all add: Bcm2835Gpio_write_def)
qed

definition bcm_pul :: "nat \<Rightarrow> mmio \<Rightarrow> u32" where
  "bcm_pul g m = drop_bit ((g mod 16) * 2) (m (GPPUPPDN0 + g div 16)) AND 3"

context bcm_hw
begin

lemma plain_write: "bcm_plain i \<Longrightarrow> atomicWrite hw off v m i = (if i = off then v else m i)"
  by (simp add: atomicWrite_def plain)

text \<open>A write to the function select register of pin \<open>g\<close> changes the field of \<open>g\<close> alone, as does one of the pull field.\<close>

lemma fsel_write:
  assumes "g < 54" "h < 54" "mval AND 7 = mval"
  shows "bcm_fsel h (atomicWrite hw (GFPSEL0 + g div 10) ((m (GFPSEL0 + g div 10) AND NOT (push_bit ((g mod 10) * 3) 7)) OR
    push_bit ((g mod 10) * 3) mval) m) = (if h = g then mval else bcm_fsel h m)"
proof (cases "h div 10 = g div 10")
  case True
  have p: "(g mod 10) * 3 + 3 \<le> 32" using mod_less_divisor [of 10 g] by linarith
  show ?thesis
  proof (cases "h = g")
    case True
    with field3_same [OF p assms(3)] assms show ?thesis by (simp add: bcm_fsel_def plain_write bcm_sel_plain [simplified])
  next
    case False
    then have "g mod 10 \<noteq> h mod 10" using same_slot [of g 10 h] True by auto
    then have "(g mod 10) * 3 + 3 \<le> (h mod 10) * 3 \<or> (h mod 10) * 3 + 3 \<le> (g mod 10) * 3" by (rule slots_apart)
    from field3_other [OF this assms(3)] False True assms show ?thesis
      by (simp add: bcm_fsel_def plain_write bcm_sel_plain [simplified])
  qed
next
  case False
  with assms show ?thesis by (auto simp: bcm_fsel_def plain_write bcm_sel_plain [simplified])
qed

lemma pul_write:
  assumes "g < 54" "h < 54" "pval AND 3 = pval"
  shows "bcm_pul h (atomicWrite hw (GPPUPPDN0 + g div 16) ((m (GPPUPPDN0 + g div 16) AND NOT (push_bit ((g mod 16) * 2) 3)) OR
    push_bit ((g mod 16) * 2) pval) m) = (if h = g then pval else bcm_pul h m)"
proof (cases "h div 16 = g div 16")
  case True
  have p: "(g mod 16) * 2 + 2 \<le> 32" using mod_less_divisor [of 16 g] by linarith
  show ?thesis
  proof (cases "h = g")
    case True
    with field2_same [OF p assms(3)] assms show ?thesis by (simp add: bcm_pul_def plain_write bcm_pul_plain)
  next
    case False
    then have "g mod 16 \<noteq> h mod 16" using same_slot [of g 16 h] True by auto
    then have "(g mod 16) * 2 + 2 \<le> (h mod 16) * 2 \<or> (h mod 16) * 2 + 2 \<le> (g mod 16) * 2" by (rule slots_apart)
    from field2_other [OF this assms(3)] False True assms show ?thesis
      by (simp add: bcm_pul_def plain_write bcm_pul_plain)
  qed
next
  case False
  with assms show ?thesis by (auto simp: bcm_pul_def plain_write bcm_pul_plain)
qed

lemma fsel_keep: "h < 54 \<Longrightarrow> off \<ge> GPSET0 \<Longrightarrow> bcm_fsel h (atomicWrite hw off v m) = bcm_fsel h m"
proof -
  assume h: "h < 54" "off \<ge> GPSET0"
  then have "GFPSEL0 + h div 10 < GPSET0" by (simp add: div_less_iff_less_mult)
  with h show ?thesis by (simp add: bcm_fsel_def plain_write bcm_sel_plain [simplified])
qed

lemma pul_keep: "h < 54 \<Longrightarrow> off < GPPUPPDN0 \<Longrightarrow> bcm_pul h (atomicWrite hw off v m) = bcm_pul h m"
  by (simp add: bcm_pul_def plain_write bcm_pul_plain)

lemma output_fsel: "bcm_is_output g m \<longleftrightarrow> bcm_fsel g m = 1"
  by (simp add: bcm_is_output_def bcm_fsel_def)

lemma stored_output: "h < 54 \<Longrightarrow> off \<ge> GPSET0 \<Longrightarrow> bcm_is_output h (m(off := v)) = bcm_is_output h m"
proof -
  assume h: "h < 54" "off \<ge> GPSET0"
  then have "GFPSEL0 + h div 10 < GPSET0" by (simp add: div_less_iff_less_mult)
  with h show ?thesis by (simp add: bcm_is_output_def)
qed

lemma stored_level: "h < 54 \<Longrightarrow> off \<noteq> GPLEV0 \<Longrightarrow> off \<noteq> GPLEV0 + 1 \<Longrightarrow> bcm_level h (m(off := v)) = bcm_level h m"
proof -
  assume h: "h < 54" "off \<noteq> GPLEV0" "off \<noteq> GPLEV0 + 1"
  then have "h div 32 = 0 \<or> h div 32 = 1" using bcm_bank [OF h(1)] by auto
  with h show ?thesis by (auto simp: bcm_level_def)
qed

lemma level_write:
  assumes "g < 54" "h < 54" "bcm_is_output h m"
  shows "bcm_level h (atomicWrite hw ((if v then GPSET0 else GPCLR0) + g div 32) (push_bit (g mod 32) 1) m) =
    (if h = g then v else bcm_level h m)"
proof -
  let ?off = "(if v then GPSET0 else GPCLR0) + g div 32" and ?w = "push_bit (g mod 32) 1 :: u32"
  have k: "g div 32 < 2" by (rule bcm_bank [OF assms(1)])
  have off: "?off \<ge> GPSET0" "?off \<noteq> GPLEV0" "?off \<noteq> GPLEV0 + 1" using k by auto
  have hit: "h div 32 = g div 32 \<and> bit ?w (h mod 32) \<longleftrightarrow> h = g"
    using same_slot [of h 32 g] by (auto simp: bit_simps)
  have o: "bcm_is_output h (m(?off := ?w))" "bcm_level h (m(?off := ?w)) = bcm_level h m"
    using stored_output [OF assms(2) off(1), where v = ?w and m = m] stored_level [OF assms(2) off(2,3), where v = ?w and m = m] assms(3) by simp_all
  show ?thesis
    using set_level [OF assms(2) k o(1)] clr_level [OF assms(2) k o(1)] hit o(2)
    by (cases v) (auto simp: atomicWrite_def)
qed

end

lemma bcm_mode2int_fits: "map_at bcm_mode2int m = Inr v \<Longrightarrow> v AND 7 = v"
  by (auto simp: map_at_def bcm_mode2int_def split: if_splits)

lemma bcm_mode_of_mode2int:
  "map_at bcm_mode2int m = Inr v \<Longrightarrow>
    bcm_mode_of g v = Inr (if m = ModeAlt0 \<and> (g = 12 \<or> g = 13) \<or> m = ModeAlt5 \<and> (g = 18 \<or> g = 19) then ModePwm else m)"
  by (auto simp: map_at_def bcm_mode2int_def bcm_mode_of_def bcm_int2mode_def split: if_splits)

lemma bcm_mode2int_total: "m \<in> set (map fst bcm_mode2int) \<Longrightarrow> \<exists>v. map_at bcm_mode2int m = Inr v"
  by (auto simp: map_at_def bcm_mode2int_def)

context bcm_hw
begin

lemma setFsel_eq:
  "bcm_setFsel hw g m d = Inr d' \<longleftrightarrow> (\<exists>v. map_at bcm_mode2int m = Inr v \<and>
    d' = d\<lparr>regs := atomicWrite hw (GFPSEL0 + g div 10) ((regs d (GFPSEL0 + g div 10) AND NOT (push_bit ((g mod 10) * 3) 7)) OR
      push_bit ((g mod 10) * 3) v) (regs d)\<rparr>)"
  by (cases "map_at bcm_mode2int m") (auto simp: bcm_setFsel_def Let_def atomicRead_def)

text \<open>Every successful \<open>setMode\<close> stores the field of one mode of the table, in the field of its pin only.\<close>

lemma setMode_field:
  assumes "Bcm2835Gpio_setMode hw g m d = Inr d'" "g < 54"
  obtains m' v where "map_at bcm_mode2int m' = Inr v" "isopen d' = isopen d"
    "m \<noteq> ModePwm \<Longrightarrow> m' = m" "\<And>h. h < 54 \<Longrightarrow> bcm_fsel h (regs d') = (if h = g then v else bcm_fsel h (regs d))"
    "\<And>h. h < 54 \<Longrightarrow> bcm_pul h (regs d') = bcm_pul h (regs d)"
    "m = ModePwm \<Longrightarrow> m' = ModeAlt0 \<and> (g = 12 \<or> g = 13) \<or> m' = ModeAlt5 \<and> (g = 18 \<or> g = 19)"
proof -
  obtain m' where m': "bcm_setFsel hw g m' d = Inr d'" "m \<noteq> ModePwm \<Longrightarrow> m' = m"
    "m = ModePwm \<Longrightarrow> m' = ModeAlt0 \<and> (g = 12 \<or> g = 13) \<or> m' = ModeAlt5 \<and> (g = 18 \<or> g = 19)"
    using assms(1) by (auto simp: Bcm2835Gpio_setMode_def split: if_splits)
  then obtain v where v: "map_at bcm_mode2int m' = Inr v"
    "d' = d\<lparr>regs := atomicWrite hw (GFPSEL0 + g div 10) ((regs d (GFPSEL0 + g div 10) AND NOT (push_bit ((g mod 10) * 3) 7)) OR
      push_bit ((g mod 10) * 3) v) (regs d)\<rparr>"
    by (auto simp: setFsel_eq)
  have "GFPSEL0 + g div 10 < GPPUPPDN0" using assms(2) by (simp add: div_less_iff_less_mult)
  with that [OF v(1) _ m'(2) _ _ m'(3)] v(2) fsel_write [OF assms(2) _ bcm_mode2int_fits [OF v(1)]] pul_keep
  show ?thesis by simp
qed

lemma bcm_setMode_ok:
  assumes "bcm_ok d" "bcm_valid g" "bcm_settable g m"
  shows "\<exists>d'. Bcm2835Gpio_setMode hw g m d = Inr d' \<and> bcm_ok d' \<and> Bcm2835Gpio_mode g d' = Inr m"
proof -
  have "\<exists>d'. Bcm2835Gpio_setMode hw g m d = Inr d'"
  proof (cases "m = ModePwm")
    case True
    with assms(3) show ?thesis
      by (auto simp: Bcm2835Gpio_setMode_def setFsel_eq bcm_settable_def map_at_def bcm_mode2int_def)
  next
    case False
    with assms(3) bcm_mode2int_total [of m] show ?thesis
      by (auto simp: Bcm2835Gpio_setMode_def setFsel_eq bcm_settable_def)
  qed
  then obtain d' where d': "Bcm2835Gpio_setMode hw g m d = Inr d'" by blast
  from assms(2) have g: "g < 54" by (simp add: bcm_valid_def)
  show ?thesis
  proof (rule setMode_field [OF d' g])
    fix m' v
    assume v: "map_at bcm_mode2int m' = Inr v" "isopen d' = isopen d" "m \<noteq> ModePwm \<Longrightarrow> m' = m"
      "\<And>h. h < 54 \<Longrightarrow> bcm_fsel h (regs d') = (if h = g then v else bcm_fsel h (regs d))"
      "m = ModePwm \<Longrightarrow> m' = ModeAlt0 \<and> (g = 12 \<or> g = 13) \<or> m' = ModeAlt5 \<and> (g = 18 \<or> g = 19)"
    have "bcm_fsel g (regs d') = v" using v(4) [OF g] by simp
    then have "Bcm2835Gpio_mode g d' = Inr m"
      using assms(3) bcm_mode_of_mode2int [OF v(1), of g] v(3,5) by (cases "m = ModePwm") (auto simp: bcm_mode_fsel bcm_settable_def)
    with d' v(2) assms(1) show ?thesis by (simp add: bcm_ok_def)
  qed
qed

end

lemma bcm_write_ok':
  fixes hw :: hw
  assumes "bcm_hw hw" "bcm_ok d" "bcm_valid g"
  shows "\<exists>d'. Bcm2835Gpio_write hw g v d = Inr d' \<and> bcm_ok d' \<and>
    (\<forall>h. bcm_valid h \<longrightarrow> Bcm2835Gpio_mode h d' = Bcm2835Gpio_mode h d) \<and>
    (Bcm2835Gpio_mode g d = Inr ModeOutput \<longrightarrow> Bcm2835Gpio_read g d' = Inr v) \<and>
    (\<forall>h. bcm_valid h \<and> h \<noteq> g \<and> Bcm2835Gpio_mode h d = Inr ModeOutput \<longrightarrow> Bcm2835Gpio_read h d' = Bcm2835Gpio_read h d)"
proof -
  from assms(3) have g: "g < 54" by (simp add: bcm_valid_def)
  define off where "off = (if v then GPSET0 else GPCLR0) + g div 32"
  define w where "w = (push_bit (g mod 32) 1 :: u32)"
  have off: "GPSET0 \<le> off" by (simp add: off_def)
  have level: "bcm_level h (atomicWrite hw off w (regs d)) = (if h = g then v else bcm_level h (regs d))"
    if "h < 54" "bcm_is_output h (regs d)" for h
    unfolding off_def w_def by (rule bcm_hw.level_write [OF assms(1) g that])
  have wr: "Bcm2835Gpio_write hw g v d = Inr (d\<lparr>regs := atomicWrite hw off w (regs d)\<rparr>)"
    unfolding off_def w_def by (rule bcm_write_bank [OF g])
  have mode: "Bcm2835Gpio_mode h (d\<lparr>regs := atomicWrite hw off w (regs d)\<rparr>) = Bcm2835Gpio_mode h d" if "h < 54" for h
    using bcm_hw.fsel_keep [OF assms(1) that off] by (simp add: bcm_mode_fsel)
  show ?thesis
    using assms(2) g level by (simp add: wr mode bcm_ok_def bcm_valid_def bcm_mode_output bcm_read_level)
qed

context bcm_hw
begin

lemma gpio: "gpio_device (Bcm2835Gpio_vtable hw is2711) bcm_valid bcm_ok bcm_settable"
proof
  fix s g m
  assume "bcm_ok s" "bcm_valid g" "bcm_settable g m"
  then show "\<exists>s'. g_setMode (Bcm2835Gpio_vtable hw is2711) g m s = Inr s' \<and> bcm_ok s' \<and>
      g_mode (Bcm2835Gpio_vtable hw is2711) g s' = Inr m"
    by (simp add: Bcm2835Gpio_vtable_def bcm_setMode_ok)
next
  fix s g m s'
  assume "bcm_ok s" "bcm_valid g" "g_setMode (Bcm2835Gpio_vtable hw is2711) g m s = Inr s'"
  then show "bcm_ok s'"
    by (auto simp: Bcm2835Gpio_vtable_def bcm_ok_def bcm_valid_def elim!: setMode_field)
next
  fix s g h m s'
  assume "bcm_ok s" "bcm_valid g" "bcm_valid h" "h \<noteq> g" "g_setMode (Bcm2835Gpio_vtable hw is2711) g m s = Inr s'"
  then show "g_mode (Bcm2835Gpio_vtable hw is2711) h s' = g_mode (Bcm2835Gpio_vtable hw is2711) h s"
    by (auto simp: Bcm2835Gpio_vtable_def bcm_mode_fsel bcm_valid_def elim!: setMode_field)
next
  fix s g m
  assume "g_mode (Bcm2835Gpio_vtable hw is2711) g s = Inr m"
  then show "bcm_settable g m"
    by (simp add: Bcm2835Gpio_vtable_def bcm_mode_fsel bcm_mode_of_settable)
next
  fix s g
  assume "bcm_valid g"
  then show "\<exists>b. g_read (Bcm2835Gpio_vtable hw is2711) g s = Inr b"
    by (simp add: Bcm2835Gpio_vtable_def bcm_valid_def bcm_read_level)
next
  fix s g v
  assume "bcm_ok s" "bcm_valid g"
  from bcm_write_ok' [OF bcm_hw_axioms this, of v]
  show "\<exists>s'. g_write (Bcm2835Gpio_vtable hw is2711) g v s = Inr s' \<and> bcm_ok s' \<and>
      (\<forall>h. bcm_valid h \<longrightarrow> g_mode (Bcm2835Gpio_vtable hw is2711) h s' = g_mode (Bcm2835Gpio_vtable hw is2711) h s) \<and>
      (g_mode (Bcm2835Gpio_vtable hw is2711) g s = Inr ModeOutput \<longrightarrow> g_read (Bcm2835Gpio_vtable hw is2711) g s' = Inr v) \<and>
      (\<forall>h. bcm_valid h \<and> h \<noteq> g \<and> g_mode (Bcm2835Gpio_vtable hw is2711) h s = Inr ModeOutput \<longrightarrow>
        g_read (Bcm2835Gpio_vtable hw is2711) h s' = g_read (Bcm2835Gpio_vtable hw is2711) h s)"
    by (simp add: Bcm2835Gpio_vtable_def)
next
  fix s g b
  assume b: "bcm_ok s" "bcm_valid g" "g_read (Bcm2835Gpio_vtable hw is2711) g s = Inr b"
  from bcm_write_ok' [OF bcm_hw_axioms b(1,2), of "\<not> b"] b(3)
  show "\<exists>s'. g_toggle (Bcm2835Gpio_vtable hw is2711) g s = Inr s' \<and> bcm_ok s' \<and>
      (\<forall>h. bcm_valid h \<longrightarrow> g_mode (Bcm2835Gpio_vtable hw is2711) h s' = g_mode (Bcm2835Gpio_vtable hw is2711) h s) \<and>
      (g_mode (Bcm2835Gpio_vtable hw is2711) g s = Inr ModeOutput \<longrightarrow> g_read (Bcm2835Gpio_vtable hw is2711) g s' = Inr (\<not> b)) \<and>
      (\<forall>h. bcm_valid h \<and> h \<noteq> g \<and> g_mode (Bcm2835Gpio_vtable hw is2711) h s = Inr ModeOutput \<longrightarrow>
        g_read (Bcm2835Gpio_vtable hw is2711) h s' = g_read (Bcm2835Gpio_vtable hw is2711) h s)"
    by (simp add: Bcm2835Gpio_vtable_def GpioDevice_toggle_def)
qed

end

lemma bcm_pull_pul:
  "Bcm2835Gpio_pull True g d = Inr (if bcm_pul g (regs d) = 0 then PullOff else if bcm_pul g (regs d) = 2 then PullDown
    else if bcm_pul g (regs d) = 1 then PullUp else PullUnknown)"
  by (simp add: Bcm2835Gpio_pull_def bcm_pul_def atomicRead_def Let_def)

text \<open>On the BCM2711 the pull field of the pin is written and nothing else changes.\<close>

lemma bcm_setPull_field:
  assumes "bcm_hw hw" "g < 54" "p \<noteq> PullUnknown"
  obtains d' where "Bcm2835Gpio_setPull hw True g p d = Inr d'" "isopen d' = isopen d"
    "\<And>h. h < 54 \<Longrightarrow> Bcm2835Gpio_mode h d' = Bcm2835Gpio_mode h d"
    "\<And>h. h < 54 \<Longrightarrow> bcm_pul h (regs d') =
      (if h = g then (if p = PullOff then 0 else if p = PullUp then 1 else 2) else bcm_pul h (regs d))"
    "\<And>h. h < 54 \<Longrightarrow> bcm_is_output h (regs d) \<Longrightarrow> bcm_level h (regs d') = bcm_level h (regs d)"
proof -
  define off where "off = GPPUPPDN0 + g div 16"
  define pval :: u32 where "pval = (if p = PullOff then 0 else if p = PullUp then 1 else 2)"
  define w where "w = (regs d off AND NOT (push_bit ((g mod 16) * 2) 3)) OR push_bit ((g mod 16) * 2) pval"
  have off: "GPPUPPDN0 \<le> off" "off < GPPUPPDN0 + 4" "GPSET0 \<le> off" "off \<noteq> GPLEV0" "off \<noteq> GPLEV0 + 1"
    using assms(2) by (simp_all add: off_def div_less_iff_less_mult)
  have set_pull: "Bcm2835Gpio_setPull hw True g p d = Inr (d\<lparr>regs := atomicWrite hw off w (regs d)\<rparr>)"
    using assms(3) by (simp add: Bcm2835Gpio_setPull_def Let_def off_def w_def pval_def atomicRead_def)
  have pul: "bcm_pul h (atomicWrite hw off w (regs d)) = (if h = g then pval else bcm_pul h (regs d))" if "h < 54" for h
    unfolding off_def w_def by (rule bcm_hw.pul_write [OF assms(1,2) that]) (simp add: pval_def)
  have mode: "Bcm2835Gpio_mode h (d\<lparr>regs := atomicWrite hw off w (regs d)\<rparr>) = Bcm2835Gpio_mode h d" if "h < 54" for h
    using bcm_hw.fsel_keep [OF assms(1) that off(3)] by (simp add: bcm_mode_fsel)
  have level: "bcm_level h (atomicWrite hw off w (regs d)) = bcm_level h (regs d)"
    if h: "h < 54" "bcm_is_output h (regs d)" for h
    using bcm_hw.plain_level [OF assms(1) h(1) _ off(1,2)] h(2)
      bcm_hw.stored_output [OF assms(1) h(1) off(3), of "regs d" w] bcm_hw.stored_level [OF assms(1) h(1) off(4,5), of "regs d" w]
    by (simp add: atomicWrite_def)
  show ?thesis using that [OF set_pull] mode pul level by (simp add: pval_def)
qed

context bcm_hw
begin

lemma pull_gpio: "gpio_pull_device (Bcm2835Gpio_vtable hw True) bcm_valid bcm_ok bcm_settable"
proof -
  let ?vt = "Bcm2835Gpio_vtable hw True"
  have sp: "\<exists>s'. g_setPull ?vt g p s = Inr s' \<and> bcm_ok s' \<and>
      (\<forall>h. bcm_valid h \<longrightarrow> g_mode ?vt h s' = g_mode ?vt h s) \<and>
      g_pull ?vt g s' = (if p = PullUnknown then g_pull ?vt g s else Inr p) \<and>
      (\<forall>h. bcm_valid h \<and> h \<noteq> g \<longrightarrow> g_pull ?vt h s' = g_pull ?vt h s) \<and>
      (\<forall>h. bcm_valid h \<and> g_mode ?vt h s = Inr ModeOutput \<longrightarrow> g_read ?vt h s' = g_read ?vt h s)"
    if s: "bcm_ok s" "bcm_valid g" for s g p
  proof (cases "p = PullUnknown")
    case True
    with s show ?thesis by (simp add: Bcm2835Gpio_vtable_def Bcm2835Gpio_setPull_def)
  next
    case False
    from s have g: "g < 54" by (simp add: bcm_valid_def)
    obtain s' where s': "Bcm2835Gpio_setPull hw True g p s = Inr s'" "isopen s' = isopen s"
      "\<And>h. h < 54 \<Longrightarrow> Bcm2835Gpio_mode h s' = Bcm2835Gpio_mode h s"
      "\<And>h. h < 54 \<Longrightarrow> bcm_pul h (regs s') =
        (if h = g then (if p = PullOff then 0 else if p = PullUp then 1 else 2) else bcm_pul h (regs s))"
      "\<And>h. h < 54 \<Longrightarrow> bcm_is_output h (regs s) \<Longrightarrow> bcm_level h (regs s') = bcm_level h (regs s)"
      using bcm_setPull_field [OF bcm_hw_axioms g False] by blast
    with s g False show ?thesis
      by (cases p) (simp_all add: Bcm2835Gpio_vtable_def bcm_ok_def bcm_valid_def bcm_pull_pul bcm_mode_output bcm_read_level)
  qed
  have mp: "g_pull ?vt h s' = g_pull ?vt h s" if "bcm_valid g" "bcm_valid h" "g_setMode ?vt g m s = Inr s'" for g h m s s'
    using that by (auto simp: Bcm2835Gpio_vtable_def bcm_pull_pul bcm_valid_def elim!: setMode_field)
  have wr: "g_pull ?vt h s' = g_pull ?vt h s" if "bcm_valid g" "bcm_valid h" "g_write ?vt g v s = Inr s'" for g h v s s'
  proof -
    have "(if v then GPSET0 else GPCLR0) + g div 32 < GPPUPPDN0"
      using that(1) by (auto simp: bcm_valid_def div_less_iff_less_mult)
    from pul_keep [OF _ this] that show ?thesis
      by (auto simp: Bcm2835Gpio_vtable_def bcm_pull_pul bcm_valid_def bcm_write_bank)
  qed
  have tg: "g_pull ?vt h s' = g_pull ?vt h s" if "bcm_valid g" "bcm_valid h" "g_toggle ?vt g s = Inr s'" for g h s s'
    using wr [OF that(1,2)] that(3)
    by (auto simp: Bcm2835Gpio_vtable_def GpioDevice_toggle_def split: sum.splits)
  have pl: "\<exists>p. g_pull ?vt g s = Inr p" for g s
    by (simp add: Bcm2835Gpio_vtable_def Bcm2835Gpio_pull_def Let_def)
  show ?thesis
    by (intro gpio_pull_device.intro gpio gpio_pull_device_axioms.intro) (rule pl sp mp wr tg; assumption)+
qed

end

sublocale bcm_hw \<subseteq> old: gpio_device "Bcm2835Gpio_vtable hw False" bcm_valid bcm_ok bcm_settable
  by (rule gpio)

sublocale bcm_hw \<subseteq> bcm2711: gpio_pull_device "Bcm2835Gpio_vtable hw True" bcm_valid bcm_ok bcm_settable
  by (rule pull_gpio)

interpretation bcm_chip: bcm_hw bcm_sim
proof
  show "bcm_sim off v m i = m i" if "bcm_plain i" for off v m i
    using that by (auto simp: bcm_sim_def bcm_plain_def)
next
  fix g k :: nat and v :: u32 and m :: mmio
  assume g: "g < 54" "k < 2"
  have n: "g div 32 < 2" by (rule bcm_bank [OF g(1)])
  have "k = 0 \<or> k = 1" using g(2) by auto
  then show "bcm_level g (bcm_sim (GPSET0 + k) v m) = (g div 32 = k \<and> bit v (g mod 32) \<or> bcm_level g m)"
    "bcm_level g (bcm_sim (GPCLR0 + k) v m) = (\<not> (g div 32 = k \<and> bit v (g mod 32)) \<and> bcm_level g m)"
    by (auto simp: bcm_sim_def bcm_level_def bit_or_iff bit_and_iff bit_not_iff)
next
  show "bcm_level g (bcm_sim i v m) = bcm_level g m" if "GPPUPPDN0 \<le> i" for g i v m
    using that by (simp add: bcm_sim_def)
qed

section \<open>Properties\<close>

text \<open>The mode a pin reports after it was given a mode of the table: the PWM functions of the four PWM pins read as PWM.\<close>

definition bcm_reported :: "nat \<Rightarrow> pin_mode \<Rightarrow> pin_mode" where
  "bcm_reported g m = (if m = ModeAlt0 \<and> (g = 12 \<or> g = 13) \<or> m = ModeAlt5 \<and> (g = 18 \<or> g = 19) then ModePwm else m)"

text \<open>C16. \<open>setMode\<close> of the BCM2835 driver throws \<open>invalid_argument\<close> for PWM on a pin without PWM and
  \<open>out_of_range\<close> for a mode the chip does not have; otherwise the pin reports the mode afterwards
  (the alternate function of a PWM pin as PWM) and every other pin keeps its mode.\<close>

theorem bcm2835_setMode_reported:
  assumes "bcm_hw hw" "g < 54"
  shows "case Bcm2835Gpio_setMode hw g m d of
      Inl x \<Rightarrow> x = (if m = ModePwm then Invalid_argument else Out_of_range) \<and>
        (if m = ModePwm then g \<notin> {12, 13, 18, 19} else m \<in> {ModeDisabled, ModeAlt6, ModeAlt7, ModeAlt8, ModeAlt9, ModeUnknown})
    | Inr d' \<Rightarrow> Bcm2835Gpio_mode g d' = Inr (bcm_reported g m) \<and>
        (\<forall>h < 54. h \<noteq> g \<longrightarrow> Bcm2835Gpio_mode h d' = Bcm2835Gpio_mode h d)"
proof (cases "Bcm2835Gpio_setMode hw g m d")
  case (Inl x)
  then show ?thesis
    unfolding Bcm2835Gpio_setMode_def bcm_setFsel_def map_at_def bcm_mode2int_def Let_def
    by (cases m) (simp_all split: if_splits)
next
  case (Inr d')
  show ?thesis
  proof (rule bcm_hw.setMode_field [OF assms(1) Inr assms(2)])
    fix m' v
    assume v: "map_at bcm_mode2int m' = Inr v" "m \<noteq> ModePwm \<Longrightarrow> m' = m"
      "\<And>h. h < 54 \<Longrightarrow> bcm_fsel h (regs d') = (if h = g then v else bcm_fsel h (regs d))"
      "m = ModePwm \<Longrightarrow> m' = ModeAlt0 \<and> (g = 12 \<or> g = 13) \<or> m' = ModeAlt5 \<and> (g = 18 \<or> g = 19)"
    have "Bcm2835Gpio_mode g d' = Inr (bcm_reported g m)"
      using bcm_mode_of_mode2int [OF v(1), of g] v(2-4) assms(2)
      by (cases "m = ModePwm") (auto simp: bcm_mode_fsel bcm_reported_def)
    moreover have "\<forall>h < 54. h \<noteq> g \<longrightarrow> Bcm2835Gpio_mode h d' = Bcm2835Gpio_mode h d"
      using v(3) by (simp add: bcm_mode_fsel)
    ultimately show ?thesis using Inr by simp
  qed
qed

definition bcm_new :: mmio_dev where
  "bcm_new = \<lparr>isopen = True, isdebug = False, regs = \<lambda>_. 0\<rparr>"

theorem bcm2835_setMode_reported_witness:
  "\<exists>d'. Bcm2835Gpio_setMode bcm_sim 18 ModePwm bcm_new = Inr d' \<and> Bcm2835Gpio_mode 18 d' = Inr ModePwm \<and>
    Bcm2835Gpio_mode 17 d' = Inr ModeInput"
proof -
  have "isl (Bcm2835Gpio_setMode bcm_sim 18 ModePwm bcm_new) = False" "Bcm2835Gpio_mode 17 bcm_new = Inr ModeInput"
    by (simp_all add: Bcm2835Gpio_setMode_def bcm_setFsel_def map_at_def bcm_mode2int_def Let_def bcm_new_def
        Bcm2835Gpio_mode_def atomicRead_def bcm_int2mode_def)
  with bcm2835_setMode_reported [OF bcm_chip.bcm_hw_axioms, of 18 ModePwm bcm_new] show ?thesis
    by (auto simp: bcm_reported_def split: sum.splits)
qed

text \<open>C4. Pins can be used independently: after a program has given any number of distinct pins a mode that
  they report back and has then written a level to some of its outputs, every configured pin has its
  mode, every written pin reads its level, and the pins it did not configure keep their modes.\<close>

theorem bcm2835_pins_independent:
  assumes "bcm_hw hw" "isopen d" "distinct (map fst cfg)" "distinct (map fst levels)"
    and "\<forall>(g, m) \<in> set cfg. g < 54 \<and> bcm_settable g m" "\<forall>(g, v) \<in> set levels. (g, ModeOutput) \<in> set cfg"
  shows "\<exists>d1 d2. configure (Bcm2835Gpio_vtable hw False) cfg d = Inr d1 \<and> write_all (Bcm2835Gpio_vtable hw False) levels d1 = Inr d2 \<and>
    (\<forall>(g, m) \<in> set cfg. Bcm2835Gpio_mode g d2 = Inr m) \<and> (\<forall>(g, v) \<in> set levels. Bcm2835Gpio_read g d2 = Inr v) \<and>
    (\<forall>h < 54. h \<notin> fst ` set cfg \<longrightarrow> Bcm2835Gpio_mode h d2 = Bcm2835Gpio_mode h d)"
proof -
  let ?vt = "Bcm2835Gpio_vtable hw False"
  have vt: "g_mode ?vt = Bcm2835Gpio_mode" "g_read ?vt = Bcm2835Gpio_read" by (simp_all add: Bcm2835Gpio_vtable_def)
  have valid: "\<forall>(g, m) \<in> set cfg. bcm_valid g \<and> bcm_settable g m" using assms(5) by (simp add: bcm_valid_def)
  obtain d1 where d1: "configure ?vt cfg d = Inr d1" "bcm_ok d1" "\<forall>(g, m) \<in> set cfg. Bcm2835Gpio_mode g d1 = Inr m"
    "\<forall>h. bcm_valid h \<and> h \<notin> fst ` set cfg \<longrightarrow> Bcm2835Gpio_mode h d1 = Bcm2835Gpio_mode h d"
    using gpio_device.configure_modes [OF bcm_hw.gpio [OF assms(1)] _ assms(3) valid, of d False] assms(2)
    unfolding vt bcm_ok_def by blast
  have outs: "\<forall>(g, v) \<in> set levels. bcm_valid g \<and> g_mode ?vt g d1 = Inr ModeOutput"
    using assms(6) valid d1(3) vt by fastforce
  obtain d2 where d2: "write_all ?vt levels d1 = Inr d2" "\<forall>h. bcm_valid h \<longrightarrow> Bcm2835Gpio_mode h d2 = Bcm2835Gpio_mode h d1"
    "\<forall>(g, v) \<in> set levels. Bcm2835Gpio_read g d2 = Inr v"
    using gpio_device.write_all_levels [OF bcm_hw.gpio [OF assms(1)] d1(2) assms(4) outs] unfolding vt by blast
  have "\<forall>(g, m) \<in> set cfg. Bcm2835Gpio_mode g d2 = Inr m" using d1(3) d2(2) valid by fastforce
  with d1 d2 show ?thesis by (auto simp: bcm_valid_def)
qed

theorem bcm2835_pins_independent_witness:
  "\<exists>d1 d2. configure (Bcm2835Gpio_vtable bcm_sim False) [(17, ModeOutput), (40, ModeOutput), (4, ModeAlt0)] bcm_new = Inr d1 \<and>
    write_all (Bcm2835Gpio_vtable bcm_sim False) [(40, True), (17, False)] d1 = Inr d2 \<and>
    Bcm2835Gpio_mode 4 d2 = Inr ModeAlt0 \<and> Bcm2835Gpio_read 40 d2 = Inr True \<and> Bcm2835Gpio_read 17 d2 = Inr False"
proof -
  have "distinct (map fst [(17 :: nat, ModeOutput), (40, ModeOutput), (4, ModeAlt0)])" "distinct (map fst [(40 :: nat, True), (17, False)])"
    "\<forall>(g, m) \<in> set [(17, ModeOutput), (40, ModeOutput), (4, ModeAlt0)]. g < 54 \<and> bcm_settable g m"
    "\<forall>(g, v) \<in> set [(40 :: nat, True), (17, False)]. (g, ModeOutput) \<in> set [(17, ModeOutput), (40, ModeOutput), (4, ModeAlt0)]"
    by (simp_all add: bcm_settable_def bcm_mode2int_def)
  from bcm2835_pins_independent [OF bcm_chip.bcm_hw_axioms _ this, of bcm_new] show ?thesis
    by (auto simp: bcm_new_def)
qed

end
