(* ===== verification/HxGpio.thy ===== *)
theory HxGpio
  imports GpioDevice IoDevice
begin

text \<open>
  The GPIO driver of the Allwinner H3 and H5 (\<open>src/arch/arm/allwinner/gpio_hx.cpp\<close>). A pin is its MCU
  number, which \<open>pinBank\<close> turns into a bank of registers and a number in the bank. The driver maps two
  blocks of 1024 words: word \<open>i\<close> of the second one is at offset \<open>1024 + i\<close> of the model's block.
\<close>

unbundle bit_operations_syntax

section \<open>Tables\<close>

definition hx_portSize :: "int list" where
  "hx_portSize = [22, 0, 17, 18, 16, 7, 14, 12, -1]"

definition hx_int2mode :: "(u32 \<times> pin_mode) list" where
  "hx_int2mode = [(0, ModeInput), (1, ModeOutput), (2, ModeAlt2), (3, ModeAlt3), (4, ModeAlt4), (5, ModeAlt5),
     (6, ModeAlt6), (7, ModeDisabled)]"

definition hx_mode2int :: "(pin_mode \<times> u32) list" where
  "hx_mode2int = [(ModeInput, 0), (ModeOutput, 1), (ModeAlt2, 2), (ModeAlt3, 3), (ModeAlt4, 4), (ModeAlt5, 5),
     (ModeAlt6, 6), (ModeDisabled, 7)]"

definition hx_modes :: "(pin_mode \<times> string) list" where
  "hx_modes = [(ModeInput, ''in''), (ModeOutput, ''out''), (ModeAlt2, ''alt2''), (ModeAlt3, ''alt3''),
     (ModeAlt4, ''alt4''), (ModeAlt5, ''alt5''), (ModeAlt6, ''alt6''), (ModeDisabled, ''off''), (ModePwm, ''pwm'')]"

section \<open>Banks\<close>

abbreviation (input) Pio1Offset :: nat where "Pio1Offset \<equiv> 0x800"
abbreviation (input) Pio2Offset :: nat where "Pio2Offset \<equiv> 0xC00"

text \<open>The fields of \<open>PioBank\<close>, in words from the start of the bank.\<close>

definition CFG :: "nat \<Rightarrow> nat \<Rightarrow> nat" where "CFG b r = b + r"
definition DAT :: "nat \<Rightarrow> nat" where "DAT b = b + 4"
definition DRV :: "nat \<Rightarrow> nat \<Rightarrow> nat" where "DRV b r = b + 5 + r"
definition PUL :: "nat \<Rightarrow> nat \<Rightarrow> nat" where "PUL b r = b + 7 + r"

definition hx_bank :: "mmio_dev \<Rightarrow> nat \<Rightarrow> nat option res" where
  "hx_bank d bkindex =
    (if isopen d
     then if bkindex < 7 then Inr (Some ((Pio1Offset + bkindex * 0x24) div 4))
          else if bkindex = 7 then Inr (Some (1024 + Pio2Offset div 4))
          else Inr None
     else Inl (System_error ENODEV))"

text \<open>The loop of \<open>pinBank\<close>: from bank \<open>bk\<close> on, the bank of the pin and its number there.\<close>

function hx_walk :: "nat \<Rightarrow> int \<Rightarrow> nat \<times> int" where
  "hx_walk bk ng =
    (if bk < length hx_portSize \<and> hx_portSize ! bk \<ge> 0 \<and> ng \<ge> hx_portSize ! bk
     then hx_walk (if bk + 1 = 1 then bk + 2 else bk + 1) (ng - hx_portSize ! bk)
     else (bk, ng))"
  by auto
termination by (relation "measure (\<lambda>(bk, ng). length hx_portSize - bk)") auto

declare hx_walk.simps [simp del]

definition hx_pinBank :: "mmio_dev \<Rightarrow> nat \<Rightarrow> (nat option \<times> nat) res" where
  "hx_pinBank d mcupin =
    (case hx_walk 0 (int mcupin) of (bkindex, ng) \<Rightarrow>
       if bkindex < 8 then (case hx_bank d bkindex of Inl x \<Rightarrow> Inl x | Inr bk \<Rightarrow> Inr (bk, nat ng))
       else Inl Out_of_range)"

section \<open>Operations\<close>

definition HxGpio_open :: "mmio res \<Rightarrow> mmio_dev \<Rightarrow> (bool \<times> mmio_dev) res" where
  "HxGpio_open mapped d =
    (if \<not> isopen d
     then case mapped of Inl x \<Rightarrow> Inl x | Inr m \<Rightarrow> Inr (True, d\<lparr>regs := m, isopen := True\<rparr>)
     else Inr (isopen d, d))"

definition HxGpio_close :: "mmio_dev \<Rightarrow> mmio_dev" where
  "HxGpio_close d = (if isopen d then d\<lparr>isopen := False\<rparr> else d)"

definition HxGpio_flags :: u32 where
  "HxGpio_flags = hasPullRead OR hasToggle OR hasDrive"

text \<open>Runs a piece of driver code on the bank and number of a pin; \<open>pinBank\<close> never gives a null bank.\<close>

definition with_pin :: "mmio_dev \<Rightarrow> nat \<Rightarrow> (nat \<Rightarrow> nat \<Rightarrow> 'a res) \<Rightarrow> 'a res" where
  "with_pin d g body = (case hx_pinBank d g of Inr (Some b, f) \<Rightarrow> body b f | Inr (None, f) \<Rightarrow> Inl Runtime_error | Inl x \<Rightarrow> Inl x)"

text \<open>A store to a register, through \<open>&=\<close>, \<open>|=\<close> and \<open>^=\<close> of the source.\<close>

definition hx_update :: "hw \<Rightarrow> nat \<Rightarrow> (u32 \<Rightarrow> u32) \<Rightarrow> mmio_dev \<Rightarrow> mmio_dev" where
  "hx_update hw off f d = d\<lparr>regs := hw off (f (regs d off)) ((regs d)(off := f (regs d off)))\<rparr>"

definition HxGpio_mode :: "nat \<Rightarrow> mmio_dev \<Rightarrow> pin_mode res" where
  "HxGpio_mode g d = with_pin d g (\<lambda>b f.
     let r = f div 8; i = (f - r * 8) * 4; m = drop_bit i (regs d (CFG b r)) AND 7
     in case map_at hx_int2mode m of
          Inl x \<Rightarrow> Inl x
        | Inr ret \<Rightarrow> Inr (if ret = ModeAlt3 \<and> g = 5 then ModePwm else ret))"

definition hx_setCfg :: "hw \<Rightarrow> nat \<Rightarrow> nat \<Rightarrow> pin_mode \<Rightarrow> mmio_dev \<Rightarrow> mmio_dev res" where
  "hx_setCfg hw b f m d =
    (let r = f div 8; i = (f - r * 8) * 4
     in case map_at hx_mode2int m of
          Inl x \<Rightarrow> Inl x
        | Inr v \<Rightarrow> Inr (hx_update hw (CFG b r) (\<lambda>w. w OR push_bit i v)
                     (hx_update hw (CFG b r) (\<lambda>w. w AND NOT (push_bit i 15)) d)))"

definition HxGpio_setMode :: "hw \<Rightarrow> nat \<Rightarrow> pin_mode \<Rightarrow> mmio_dev \<Rightarrow> mmio_dev res" where
  "HxGpio_setMode hw g m d = with_pin d g (\<lambda>b f.
     if m = ModePwm then (if g = 5 then hx_setCfg hw b f ModeAlt3 d else Inl Invalid_argument)
     else hx_setCfg hw b f m d)"

definition HxGpio_pull :: "nat \<Rightarrow> mmio_dev \<Rightarrow> pin_pull res" where
  "HxGpio_pull g d = with_pin d g (\<lambda>b f.
     let r = f div 16; i = (f - r * 16) * 2; v = drop_bit i (regs d (PUL b r)) AND 3
     in Inr (if v = 0 then PullOff else if v = 2 then PullDown else if v = 1 then PullUp else PullUnknown))"

definition HxGpio_setPull :: "hw \<Rightarrow> nat \<Rightarrow> pin_pull \<Rightarrow> mmio_dev \<Rightarrow> mmio_dev res" where
  "HxGpio_setPull hw g p d = with_pin d g (\<lambda>b f.
     case (case p of PullOff \<Rightarrow> Some 0 | PullDown \<Rightarrow> Some 2 | PullUp \<Rightarrow> Some 1 | PullUnknown \<Rightarrow> None) of
       None \<Rightarrow> Inr d
     | Some v \<Rightarrow>
         (let r = f div 16; i = (f - r * 16) * 2
          in Inr (hx_update hw (PUL b r) (\<lambda>w. w OR push_bit i v)
               (hx_update hw (PUL b r) (\<lambda>w. w AND NOT (push_bit i 3)) d))))"

definition HxGpio_write :: "hw \<Rightarrow> nat \<Rightarrow> bool \<Rightarrow> mmio_dev \<Rightarrow> mmio_dev res" where
  "HxGpio_write hw g v d = with_pin d g (\<lambda>b f.
     if v then Inr (hx_update hw (DAT b) (\<lambda>w. w OR push_bit f 1) d)
     else Inr (hx_update hw (DAT b) (\<lambda>w. w AND NOT (push_bit f 1)) d))"

definition HxGpio_toggle :: "hw \<Rightarrow> nat \<Rightarrow> mmio_dev \<Rightarrow> mmio_dev res" where
  "HxGpio_toggle hw g d = with_pin d g (\<lambda>b f. Inr (hx_update hw (DAT b) (\<lambda>w. w XOR push_bit f 1) d))"

definition HxGpio_read :: "nat \<Rightarrow> mmio_dev \<Rightarrow> bool res" where
  "HxGpio_read g d = with_pin d g (\<lambda>b f. Inr (regs d (DAT b) AND push_bit f 1 \<noteq> 0))"

definition HxGpio_drive :: "nat \<Rightarrow> mmio_dev \<Rightarrow> int res" where
  "HxGpio_drive g d = with_pin d g (\<lambda>b f.
     let r = f div 16; i = (f - r * 16) * 2 in Inr (uint (drop_bit i (regs d (DRV b r)) AND 3)))"

definition HxGpio_setDrive :: "hw \<Rightarrow> nat \<Rightarrow> int \<Rightarrow> mmio_dev \<Rightarrow> mmio_dev res" where
  "HxGpio_setDrive hw g v d = with_pin d g (\<lambda>b f.
     if v \<ge> 0 \<and> v \<le> 3
     then let r = f div 16; i = (f - r * 16) * 2
          in Inr (hx_update hw (DRV b r) (\<lambda>w. w OR push_bit i (word_of_int v))
               (hx_update hw (DRV b r) (\<lambda>w. w AND NOT (push_bit i 3)) d))
     else Inl Invalid_argument)"

definition HxGpio_vtable :: "hw \<Rightarrow> mmio_dev gpio_vtable" where
  "HxGpio_vtable hw = \<lparr>
     g_flags = (\<lambda>_. HxGpio_flags), g_mode = HxGpio_mode, g_setMode = HxGpio_setMode hw,
     g_pull = HxGpio_pull, g_setPull = HxGpio_setPull hw, g_read = HxGpio_read, g_write = HxGpio_write hw,
     g_toggle = HxGpio_toggle hw, g_drive = HxGpio_drive, g_setDrive = HxGpio_setDrive hw\<rparr>"

section \<open>The pins\<close>

text \<open>Where \<open>pinBank\<close> finds each pin.\<close>

definition hx_pin :: "nat \<Rightarrow> nat \<times> nat" where
  "hx_pin g = (if g < 22 then (0, g) else if g < 39 then (2, g - 22) else if g < 57 then (3, g - 39)
     else if g < 73 then (4, g - 57) else if g < 80 then (5, g - 73) else if g < 94 then (6, g - 80)
     else if g < 106 then (7, g - 94) else (8, g - 106))"

lemma hx_walk_pin: "hx_walk 0 (int g) = (fst (hx_pin g), int (snd (hx_pin g)))"
  by (simp add: hx_walk.simps [of 0] hx_walk.simps [of 2] hx_walk.simps [of 3] hx_walk.simps [of 4] hx_walk.simps [of 5]
      hx_walk.simps [of 6] hx_walk.simps [of 7] hx_walk.simps [of 8] hx_portSize_def hx_pin_def
      numeral_2_eq_2 [symmetric])

definition hx_off :: "nat \<Rightarrow> nat" where
  "hx_off bk = (if bk < 7 then 512 + 9 * bk else 1792)"

lemma hx_pin_bounds: "g < 106 \<Longrightarrow> fst (hx_pin g) < 8 \<and> snd (hx_pin g) < 22"
  by (auto simp: hx_pin_def)

lemma hx_pin_inj: "g < 106 \<Longrightarrow> h < 106 \<Longrightarrow> hx_pin g = hx_pin h \<Longrightarrow> g = h"
  by (simp add: hx_pin_def split: if_splits)

lemma hx_pinBank_open:
  "isopen d \<Longrightarrow> g < 106 \<Longrightarrow> hx_pinBank d g = Inr (Some (hx_off (fst (hx_pin g))), snd (hx_pin g))"
  using hx_pin_bounds [of g]
  by (auto simp: hx_pinBank_def hx_walk_pin hx_bank_def hx_off_def)

lemma with_pin_open:
  "isopen d \<Longrightarrow> g < 106 \<Longrightarrow> with_pin d g body = body (hx_off (fst (hx_pin g))) (snd (hx_pin g))"
  by (simp add: with_pin_def hx_pinBank_open)

section \<open>What the driver relies on of the hardware\<close>

text \<open>
  The registers of a bank hold what is stored in them, except that the data register shows the pin
  itself for a pin that is not an output.
\<close>

definition hx_cfg :: "nat \<Rightarrow> mmio \<Rightarrow> u32" where
  "hx_cfg g m = (let (bk, n) = hx_pin g in drop_bit ((n mod 8) * 4) (m (CFG (hx_off bk) (n div 8))) AND 7)"

text \<open>The pull and drive registers hold two bits per pin, from the words 7 and 5 of the bank on.\<close>

definition hx_two :: "nat \<Rightarrow> nat \<Rightarrow> mmio \<Rightarrow> u32" where
  "hx_two c g m = (let (bk, n) = hx_pin g in drop_bit ((n mod 16) * 2) (m (hx_off bk + c + n div 16)) AND 3)"

abbreviation hx_pul :: "nat \<Rightarrow> mmio \<Rightarrow> u32" where
  "hx_pul \<equiv> hx_two 7"

abbreviation hx_drv :: "nat \<Rightarrow> mmio \<Rightarrow> u32" where
  "hx_drv \<equiv> hx_two 5"

definition hx_level :: "nat \<Rightarrow> mmio \<Rightarrow> bool" where
  "hx_level g m = (let (bk, n) = hx_pin g in bit (m (DAT (hx_off bk))) n)"

definition hx_plain :: "nat \<Rightarrow> bool" where
  "hx_plain i \<longleftrightarrow> (\<forall>bk \<in> {0..<8}. i \<noteq> DAT (hx_off bk))"

locale hx_hw =
  fixes hw :: hw
  assumes plain: "hx_plain i \<Longrightarrow> hw off v m i = m i"
    and level: "g < 106 \<Longrightarrow> hx_cfg g m = 1 \<Longrightarrow> hx_level g (hw off v m) = hx_level g m"

text \<open>Memory without inputs is such hardware.\<close>

definition hx_sim :: hw where
  "hx_sim off v m = m"

interpretation hx_chip: hx_hw hx_sim
  by unfold_locales (simp_all add: hx_sim_def)

section \<open>The driver implements the interface\<close>

text \<open>The registers of different banks, and the different registers of a bank, do not overlap.\<close>

lemmas hx_regs = CFG_def DAT_def DRV_def PUL_def hx_off_def

lemma hx_off_eq:
  assumes "bk < 8" "bk' < 8" "i < 9" "j < 9" "hx_off bk + i = hx_off bk' + j"
  shows "bk = bk' \<and> i = j"
proof -
  have "bk < 7 \<longleftrightarrow> bk' < 7" using assms unfolding hx_off_def by (cases "bk < 7"; cases "bk' < 7") simp_all
  then consider "bk < 7" "bk' < 7" | "bk = 7" "bk' = 7" using assms by linarith
  then show ?thesis
  proof cases
    case 1
    with assms have "9 * bk + i = 9 * bk' + j" by (simp add: hx_off_def)
    with assms(3,4) show ?thesis by presburger
  next
    case 2
    with assms show ?thesis by (simp add: hx_off_def)
  qed
qed

lemma hx_plainI:
  assumes "bk < 8" "i < 9" "i \<noteq> 4"
  shows "hx_plain (hx_off bk + i)"
  unfolding hx_plain_def DAT_def
proof
  fix bk'
  assume "bk' \<in> {0 ..< 8 :: nat}"
  then have "bk' < 8" by simp
  with hx_off_eq [OF assms(1) this assms(2), of 4] assms(3) show "hx_off bk + i \<noteq> hx_off bk' + 4" by linarith
qed

lemma hx_cfg_plain: "bk < 8 \<Longrightarrow> n < 22 \<Longrightarrow> hx_plain (CFG (hx_off bk) (n div 8))"
  unfolding CFG_def by (rule hx_plainI) simp_all

lemma hx_two_plain: "c = 5 \<or> c = 7 \<Longrightarrow> bk < 8 \<Longrightarrow> n < 22 \<Longrightarrow> hx_plain (hx_off bk + c + n div 16)"
  unfolding add.assoc by (rule hx_plainI) auto

lemma hx_cfg_eq:
  assumes "bk < 8" "n < 22" "bk' < 8" "n' < 22" "CFG (hx_off bk) (n div 8) = CFG (hx_off bk') (n' div 8)"
  shows "bk = bk' \<and> n div 8 = n' div 8"
proof -
  have "n div 8 < 9" "n' div 8 < 9" using assms(2,4) by simp_all
  with hx_off_eq [OF assms(1,3)] assms(5) show ?thesis by (simp add: CFG_def)
qed

lemma hx_two_eq:
  assumes "bk < 8" "n < 22" "bk' < 8" "n' < 22" "hx_off bk + c + n div 16 = hx_off bk' + c' + n' div 16"
    and c: "c = 5 \<or> c = 7" "c' = 5 \<or> c' = 7"
  shows "bk = bk' \<and> c = c' \<and> n div 16 = n' div 16"
proof -
  have n: "n div 16 < 2" "n' div 16 < 2" using assms(2,4) by simp_all
  then have "c + n div 16 < 9" "c' + n' div 16 < 9" using c by auto
  from hx_off_eq [OF assms(1,3) this] assms(5) have "bk = bk' \<and> c + n div 16 = c' + n' div 16" by (simp add: add.assoc)
  with n c show ?thesis by auto
qed

lemma hx_cfg_two:
  assumes "bk < 8" "n < 22" "bk' < 8" "n' < 22" "c = 5 \<or> c = 7"
  shows "CFG (hx_off bk) (n div 8) \<noteq> hx_off bk' + c + n' div 16"
proof
  assume "CFG (hx_off bk) (n div 8) = hx_off bk' + c + n' div 16"
  then have "hx_off bk + n div 8 = hx_off bk' + (c + n' div 16)" by (simp add: CFG_def)
  moreover have "n div 8 < 3" "c + n' div 16 < 9" using assms(2,4,5) by auto
  ultimately show False using hx_off_eq [OF assms(1,3), of "n div 8" "c + n' div 16"] assms(5) by auto
qed

text \<open>A field of four bits of which three are used.\<close>

lemma field_4_3_same:
  fixes r v :: u32
  assumes "p + 4 \<le> 32" "v AND 7 = v"
  shows "drop_bit p ((r AND NOT (push_bit p 15)) OR push_bit p v) AND 7 = v"
proof -
  have "(v AND 7) AND 15 = v AND 7" by (simp add: and.assoc)
  then have v: "v AND 15 = v" by (simp only: assms(2))
  have "drop_bit p ((r AND NOT (push_bit p 15)) OR push_bit p v) AND 15 = v"
    by (rule field_same [where w = 4, folded field_masks, OF assms(1) v])
  then have "(drop_bit p ((r AND NOT (push_bit p 15)) OR push_bit p v) AND 15) AND 7 = v" by (simp only: assms(2))
  then show ?thesis by (simp only: and.assoc) simp
qed

lemma field_4_3_other:
  fixes r v :: u32
  assumes "p + 4 \<le> q \<or> q + 4 \<le> p" "v AND 7 = v"
  shows "drop_bit q ((r AND NOT (push_bit p 15)) OR push_bit p v) AND 7 = drop_bit q r AND 7"
proof -
  have "(v AND 7) AND 15 = v AND 7" by (simp add: and.assoc)
  then have v: "v AND 15 = v" by (simp only: assms(2))
  show ?thesis
    by (rule field_other [where w = 4 and w' = 3, folded field_masks, OF _ v]) (use assms(1) in auto)
qed

text \<open>The same, as two stores to a register that holds what is stored in it.\<close>

lemma sub_div_mult: "n - n div k * k = n mod (k :: nat)"
  by (simp add: minus_div_mult_eq_mod)

context hx_hw
begin

lemma update_plain: "hx_plain i \<Longrightarrow> regs (hx_update hw off f d) i = (if i = off then f (regs d off) else regs d i)"
  by (simp add: hx_update_def plain)

lemma update_isopen [simp]: "isopen (hx_update hw off f d) = isopen d"
  by (simp add: hx_update_def)

lemma cfg_write:
  assumes "g < 106" "h < 106" "v AND 7 = v" "hx_pin g = (bk, n)"
  shows "hx_cfg h (regs (hx_update hw (CFG (hx_off bk) (n div 8)) (\<lambda>w. w OR push_bit ((n mod 8) * 4) v)
      (hx_update hw (CFG (hx_off bk) (n div 8)) (\<lambda>w. w AND NOT (push_bit ((n mod 8) * 4) 15)) d))) =
    (if h = g then v else hx_cfg h (regs d))"
proof -
  obtain bk' n' where h: "hx_pin h = (bk', n')" by (cases "hx_pin h")
  have b: "bk < 8" "n < 22" "bk' < 8" "n' < 22"
    using hx_pin_bounds [OF assms(1)] hx_pin_bounds [OF assms(2)] assms(4) h by simp_all
  note plains = update_plain [OF hx_cfg_plain [OF b(1,2)]] update_plain [OF hx_cfg_plain [OF b(3,4)]]
  show ?thesis
  proof (cases "CFG (hx_off bk') (n' div 8) = CFG (hx_off bk) (n div 8)")
    case False
    moreover from False have "h \<noteq> g" using h assms(4) by auto
    ultimately show ?thesis using h by (simp add: hx_cfg_def plains)
  next
    case True
    then have same: "bk' = bk" "n' div 8 = n div 8" using hx_cfg_eq [OF b(3,4,1,2)] by simp_all
    have p: "(n mod 8) * 4 + 4 \<le> 32" using mod_less_divisor [of 8 n] by linarith
    show ?thesis
    proof (cases "h = g")
      case True
      with field_4_3_same [OF p assms(3)] assms(4) show ?thesis by (simp add: hx_cfg_def plains)
    next
      case False
      then have "n \<noteq> n'" using hx_pin_inj [OF assms(1,2)] assms(4) h same by auto
      then have "n mod 8 \<noteq> n' mod 8" using same_slot [of n 8 n'] same by auto
      from field_4_3_other [OF slots_apart [OF this] assms(3)] h same False show ?thesis by (simp add: hx_cfg_def plains)
    qed
  qed
qed

lemma two_write:
  assumes "g < 106" "h < 106" "v AND 3 = v" "hx_pin g = (bk, n)" and c: "c = 5 \<or> c = 7" "c' = 5 \<or> c' = 7"
  shows "hx_two c' h (regs (hx_update hw (hx_off bk + c + n div 16) (\<lambda>w. w OR push_bit ((n mod 16) * 2) v)
      (hx_update hw (hx_off bk + c + n div 16) (\<lambda>w. w AND NOT (push_bit ((n mod 16) * 2) 3)) d))) =
    (if h = g \<and> c' = c then v else hx_two c' h (regs d))"
proof -
  obtain bk' n' where h: "hx_pin h = (bk', n')" by (cases "hx_pin h")
  have b: "bk < 8" "n < 22" "bk' < 8" "n' < 22"
    using hx_pin_bounds [OF assms(1)] hx_pin_bounds [OF assms(2)] assms(4) h by simp_all
  note plains = update_plain [OF hx_two_plain [OF c(1) b(1,2)]] update_plain [OF hx_two_plain [OF c(2) b(3,4)]]
  show ?thesis
  proof (cases "hx_off bk' + c' + n' div 16 = hx_off bk + c + n div 16")
    case False
    moreover from False have "\<not> (h = g \<and> c' = c)" using h assms(4) by auto
    ultimately show ?thesis using h by (auto simp: hx_two_def plains)
  next
    case True
    then have same: "bk' = bk" "c' = c" "n' div 16 = n div 16" using hx_two_eq [OF b(3,4,1,2) True c(2,1)] by simp_all
    have p: "(n mod 16) * 2 + 2 \<le> 32" using mod_less_divisor [of 16 n] by linarith
    show ?thesis
    proof (cases "h = g")
      case True
      with field2_same [OF p assms(3)] assms(4) same show ?thesis by (simp add: hx_two_def plains)
    next
      case False
      then have "n \<noteq> n'" using hx_pin_inj [OF assms(1,2)] assms(4) h same by auto
      then have "n mod 16 \<noteq> n' mod 16" using same_slot [of n 16 n'] same by auto
      from field2_other [OF slots_apart [OF this] assms(3)] h same False show ?thesis by (simp add: hx_two_def plains)
    qed
  qed
qed

text \<open>Writes to one kind of register keep the others.\<close>

lemma cfg_keep:
  assumes "h < 106" "\<And>bk n. bk < 8 \<Longrightarrow> n < 22 \<Longrightarrow> off \<noteq> CFG (hx_off bk) (n div 8)"
  shows "hx_cfg h (regs (hx_update hw off f d)) = hx_cfg h (regs d)"
  using hx_pin_bounds [OF assms(1)] assms(2) [symmetric]
  by (cases "hx_pin h") (simp add: hx_cfg_def update_plain hx_cfg_plain)

lemma two_keep:
  assumes "h < 106" "c = 5 \<or> c = 7" "\<And>bk n. bk < 8 \<Longrightarrow> n < 22 \<Longrightarrow> off \<noteq> hx_off bk + c + n div 16"
  shows "hx_two c h (regs (hx_update hw off f d)) = hx_two c h (regs d)"
  using hx_pin_bounds [OF assms(1)] assms(3) [symmetric]
  by (cases "hx_pin h") (simp add: hx_two_def update_plain hx_two_plain [OF assms(2)])

end

lemma hx_dat_not_cfg: "bk < 8 \<Longrightarrow> bk' < 8 \<Longrightarrow> n < 22 \<Longrightarrow> DAT (hx_off bk) \<noteq> CFG (hx_off bk') (n div 8)"
  using hx_cfg_plain [of bk' n] unfolding hx_plain_def by force

lemma hx_dat_not_two: "c = 5 \<or> c = 7 \<Longrightarrow> bk < 8 \<Longrightarrow> bk' < 8 \<Longrightarrow> n < 22 \<Longrightarrow> DAT (hx_off bk) \<noteq> hx_off bk' + c + n div 16"
  using hx_two_plain [of c bk' n] unfolding hx_plain_def by force

lemma hx_dat_eq: "bk < 8 \<Longrightarrow> bk' < 8 \<Longrightarrow> DAT (hx_off bk) = DAT (hx_off bk') \<longleftrightarrow> bk = bk'"
  using hx_off_eq [of bk bk' 4 4] by (auto simp: DAT_def)

context hx_hw
begin

lemma level_update:
  assumes "h < 106" "hx_cfg h (regs d) = 1" "\<And>bk n. bk < 8 \<Longrightarrow> n < 22 \<Longrightarrow> off \<noteq> CFG (hx_off bk) (n div 8)"
  shows "hx_level h (regs (hx_update hw off f d)) = hx_level h ((regs d)(off := f (regs d off)))"
proof -
  obtain bk n where h: "hx_pin h = (bk, n)" by (cases "hx_pin h")
  then have "off \<noteq> CFG (hx_off bk) (n div 8)" using hx_pin_bounds [OF assms(1)] assms(3) by simp
  with assms(2) h have "hx_cfg h ((regs d)(off := f (regs d off))) = 1" by (simp add: hx_cfg_def)
  with level [OF assms(1)] show ?thesis by (simp add: hx_update_def)
qed

text \<open>A store to the data register of pin \<open>g\<close> that changes its bit only changes the level of that pin only.\<close>

lemma dat_update:
  assumes g: "g < 106" "hx_pin g = (bk, n)" and h: "h < 106" "hx_cfg h (regs d) = 1"
    and f: "\<And>w k. k < 32 \<Longrightarrow> bit (f w :: u32) k = (if k = n then b w else bit w k)"
  shows "hx_level h (regs (hx_update hw (DAT (hx_off bk)) f d)) = (if h = g then b (regs d (DAT (hx_off bk))) else hx_level h (regs d))"
proof -
  obtain bk' n' where p: "hx_pin h = (bk', n')" by (cases "hx_pin h")
  have bd: "bk < 8" "n < 22" "bk' < 8" "n' < 22"
    using hx_pin_bounds [OF g(1)] hx_pin_bounds [OF h(1)] g(2) p by simp_all
  have "hx_level h (regs (hx_update hw (DAT (hx_off bk)) f d)) =
      hx_level h ((regs d)(DAT (hx_off bk) := f (regs d (DAT (hx_off bk)))))"
    by (rule level_update [OF h]) (simp add: hx_dat_not_cfg bd)
  moreover have "h = g \<longleftrightarrow> bk' = bk \<and> n' = n" using hx_pin_inj [OF h(1) g(1)] p g(2) by auto
  ultimately show ?thesis using bd f p by (auto simp: hx_level_def hx_dat_eq)
qed

end

text \<open>The modes and levels a pin reports, in terms of its fields.\<close>

definition hx_mode_of :: "nat \<Rightarrow> u32 \<Rightarrow> pin_mode res" where
  "hx_mode_of g m = (case map_at hx_int2mode m of Inl x \<Rightarrow> Inl x
     | Inr ret \<Rightarrow> Inr (if ret = ModeAlt3 \<and> g = 5 then ModePwm else ret))"

definition hx_pull_of :: "u32 \<Rightarrow> pin_pull" where
  "hx_pull_of v = (if v = 0 then PullOff else if v = 2 then PullDown else if v = 1 then PullUp else PullUnknown)"

lemma hx_mode_cfg: "isopen d \<Longrightarrow> g < 106 \<Longrightarrow> HxGpio_mode g d = hx_mode_of g (hx_cfg g (regs d))"
  by (simp add: HxGpio_mode_def with_pin_open hx_mode_of_def hx_cfg_def Let_def sub_div_mult split: prod.splits)

lemma hx_pull_pul: "isopen d \<Longrightarrow> g < 106 \<Longrightarrow> HxGpio_pull g d = Inr (hx_pull_of (hx_pul g (regs d)))"
  by (simp add: HxGpio_pull_def with_pin_open hx_pull_of_def hx_two_def PUL_def Let_def sub_div_mult split: prod.splits)

lemma hx_read_level: "isopen d \<Longrightarrow> g < 106 \<Longrightarrow> HxGpio_read g d = Inr (hx_level g (regs d))"
  by (simp add: HxGpio_read_def with_pin_open hx_level_def bit_mask_read split: prod.splits)

lemma hx_mode_of_output: "hx_mode_of g r = Inr ModeOutput \<longleftrightarrow> r = 1"
  by (simp add: hx_mode_of_def map_at_def hx_int2mode_def)

lemma hx_mode_known: "isopen d \<Longrightarrow> g < 106 \<Longrightarrow> \<exists>m. HxGpio_mode g d = Inr m \<and> m \<noteq> ModeUnknown"
proof -
  assume d: "isopen d" "g < 106"
  have "hx_cfg g (regs d) \<in> {0, 1, 2, 3, 4, 5, 6, 7}" unfolding hx_cfg_def Let_def case_prod_unfold by (rule word_and7)
  with d show ?thesis by (auto simp: hx_mode_cfg hx_mode_of_def map_at_def hx_int2mode_def)
qed

definition hx_settable :: "nat \<Rightarrow> pin_mode \<Rightarrow> bool" where
  "hx_settable g m \<longleftrightarrow> m = ModePwm \<and> g = 5 \<or> m \<in> set (map fst hx_mode2int) \<and> \<not> (m = ModeAlt3 \<and> g = 5)"

definition hx_ok :: "mmio_dev \<Rightarrow> bool" where
  "hx_ok d = isopen d"

definition hx_valid :: "nat \<Rightarrow> bool" where
  "hx_valid g = (g < 106)"

lemma hx_mode_of_settable: "hx_mode_of g r = Inr m \<Longrightarrow> hx_settable g m"
  by (auto simp: hx_mode_of_def hx_settable_def map_at_def hx_int2mode_def hx_mode2int_def split: if_splits)

lemma hx_mode2int_fits: "map_at hx_mode2int m = Inr v \<Longrightarrow> v AND 7 = v"
  by (auto simp: map_at_def hx_mode2int_def split: if_splits)

lemma hx_mode_of_mode2int: "map_at hx_mode2int m = Inr v \<Longrightarrow> hx_mode_of g v = Inr (if m = ModeAlt3 \<and> g = 5 then ModePwm else m)"
  by (auto simp: map_at_def hx_mode2int_def hx_mode_of_def hx_int2mode_def split: if_splits)

lemma hx_mode2int_total: "m \<in> set (map fst hx_mode2int) \<Longrightarrow> \<exists>v. map_at hx_mode2int m = Inr v"
  by (auto simp: map_at_def hx_mode2int_def)

context hx_hw
begin

lemma setMode_field:
  assumes "isopen d" "g < 106" "HxGpio_setMode hw g m d = Inr d'"
  shows "\<exists>m' v. map_at hx_mode2int m' = Inr v \<and> (if m = ModePwm then m' = ModeAlt3 \<and> g = 5 else m' = m) \<and> isopen d' \<and>
    (\<forall>h < 106. hx_cfg h (regs d') = (if h = g then v else hx_cfg h (regs d))) \<and>
    (\<forall>h < 106. hx_pul h (regs d') = hx_pul h (regs d))"
proof -
  obtain bk n where pin: "hx_pin g = (bk, n)" by (cases "hx_pin g")
  then have b: "bk < 8" "n < 22" using hx_pin_bounds [OF assms(2)] by simp_all
  obtain m' where m': "hx_setCfg hw (hx_off bk) n m' d = Inr d'" "if m = ModePwm then m' = ModeAlt3 \<and> g = 5 else m' = m"
    using assms pin by (auto simp: HxGpio_setMode_def with_pin_open split: if_splits)
  then obtain v where v: "map_at hx_mode2int m' = Inr v"
    and d': "d' = hx_update hw (CFG (hx_off bk) (n div 8)) (\<lambda>w. w OR push_bit ((n mod 8) * 4) v)
      (hx_update hw (CFG (hx_off bk) (n div 8)) (\<lambda>w. w AND NOT (push_bit ((n mod 8) * 4) 15)) d)"
    by (auto simp: hx_setCfg_def Let_def sub_div_mult split: sum.splits)
  have "\<forall>h < 106. hx_cfg h (regs d') = (if h = g then v else hx_cfg h (regs d))"
    using cfg_write [OF assms(2) _ hx_mode2int_fits [OF v] pin] unfolding d' by blast
  moreover have "\<forall>h < 106. hx_pul h (regs d') = hx_pul h (regs d)"
    unfolding d' using hx_cfg_two [OF b] by (simp add: two_keep)
  ultimately show ?thesis using v m'(2) assms(1) d' by auto
qed

lemma setMode_total:
  assumes "isopen d" "g < 106" "hx_settable g m"
  shows "\<exists>d'. HxGpio_setMode hw g m d = Inr d'"
proof (cases "m = ModePwm")
  case True
  with assms show ?thesis
    by (auto simp: HxGpio_setMode_def with_pin_open hx_setCfg_def Let_def hx_settable_def map_at_def hx_mode2int_def)
next
  case False
  with assms hx_mode2int_total [of m] show ?thesis
    by (auto simp: HxGpio_setMode_def with_pin_open hx_setCfg_def Let_def hx_settable_def)
qed

text \<open>Writes and toggles are stores to the data register that change the bit of the pin.\<close>

lemma dat_ok:
  assumes d: "hx_ok d" and g: "hx_valid g" "hx_pin g = (bk, n)"
    and f: "\<And>w k. k < 32 \<Longrightarrow> bit (f w :: u32) k = (if k = n then b w else bit w k)"
    and d': "d' = hx_update hw (DAT (hx_off bk)) f d"
  shows "hx_ok d' \<and> (\<forall>h. hx_valid h \<longrightarrow> HxGpio_mode h d' = HxGpio_mode h d) \<and>
    (\<forall>h. hx_valid h \<longrightarrow> HxGpio_pull h d' = HxGpio_pull h d) \<and>
    (HxGpio_mode g d = Inr ModeOutput \<longrightarrow> HxGpio_read g d' = Inr (b (regs d (DAT (hx_off bk))))) \<and>
    (\<forall>h. hx_valid h \<and> h \<noteq> g \<and> HxGpio_mode h d = Inr ModeOutput \<longrightarrow> HxGpio_read h d' = HxGpio_read h d)"
proof -
  from d g have o: "isopen d" "isopen d'" "g < 106" by (simp_all add: hx_ok_def hx_valid_def d')
  then have bk: "bk < 8" using hx_pin_bounds [OF o(3)] g(2) by simp
  have cfg: "hx_cfg h (regs d') = hx_cfg h (regs d)" if "h < 106" for h
    unfolding d' by (rule cfg_keep [OF that]) (simp add: hx_dat_not_cfg bk)
  have pul: "hx_pul h (regs d') = hx_pul h (regs d)" if "h < 106" for h
    unfolding d' by (rule two_keep [OF that]) (simp_all add: hx_dat_not_two bk)
  have lev: "hx_level h (regs d') = (if h = g then b (regs d (DAT (hx_off bk))) else hx_level h (regs d))"
    if "h < 106" "hx_cfg h (regs d) = 1" for h
    unfolding d' by (rule dat_update [OF o(3) g(2) that f])
  show ?thesis
    using o cfg pul lev by (auto simp: hx_ok_def hx_valid_def hx_mode_of_output hx_read_level hx_pull_pul hx_mode_cfg)
qed

lemma write_dat:
  assumes "hx_ok d" "hx_valid g" "hx_pin g = (bk, n)"
  shows "HxGpio_write hw g v d = Inr (hx_update hw (DAT (hx_off bk)) (\<lambda>w. if v then w OR push_bit n 1 else w AND NOT (push_bit n 1)) d)"
  using assms by (simp add: HxGpio_write_def with_pin_open hx_ok_def hx_valid_def)

lemma write_bits: "k < 32 \<Longrightarrow> bit (if v then w OR push_bit n 1 else w AND NOT (push_bit n 1 :: u32)) k = (if k = n then v else bit w k)"
  by (auto simp: bit_simps)

lemma toggle_dat:
  assumes "hx_ok d" "hx_valid g" "hx_pin g = (bk, n)"
  shows "HxGpio_toggle hw g d = Inr (hx_update hw (DAT (hx_off bk)) (\<lambda>w. w XOR push_bit n 1) d)"
  using assms by (simp add: HxGpio_toggle_def with_pin_open hx_ok_def hx_valid_def)

lemma toggle_bits: "k < 32 \<Longrightarrow> bit (w XOR push_bit n 1 :: u32) k = (if k = n then \<not> bit w n else bit w k)"
  by (auto simp: bit_simps)

text \<open>Writing a pull or drive field leaves the rest alone.\<close>

definition two_set :: "nat \<Rightarrow> nat \<Rightarrow> u32 \<Rightarrow> mmio_dev \<Rightarrow> mmio_dev" where
  "two_set c g v d = (let (bk, n) = hx_pin g; off = hx_off bk + c + n div 16
     in hx_update hw off (\<lambda>w. w OR push_bit ((n mod 16) * 2) v)
          (hx_update hw off (\<lambda>w. w AND NOT (push_bit ((n mod 16) * 2) 3)) d))"

lemma two_set_fields:
  assumes "g < 106" "h < 106" "v AND 3 = v" and c: "c = 5 \<or> c = 7"
  shows "hx_pul h (regs (two_set c g v d)) = (if h = g \<and> c = 7 then v else hx_pul h (regs d))"
    and "hx_drv h (regs (two_set c g v d)) = (if h = g \<and> c = 5 then v else hx_drv h (regs d))"
    and "hx_cfg h (regs (two_set c g v d)) = hx_cfg h (regs d)"
    and "hx_cfg h (regs d) = 1 \<Longrightarrow> hx_level h (regs (two_set c g v d)) = hx_level h (regs d)"
    and "isopen (two_set c g v d) = isopen d"
proof -
  obtain bk n where pin: "hx_pin g = (bk, n)" by (cases "hx_pin g")
  then have b: "bk < 8" "n < 22" using hx_pin_bounds [OF assms(1)] by simp_all
  define off where "off = hx_off bk + c + n div 16"
  have off: "off \<noteq> CFG (hx_off bk') (n' div 8)" "off \<noteq> DAT (hx_off bk')" if "bk' < 8" "n' < 22" for bk' n'
    using hx_cfg_two [OF that b c] hx_dat_not_two [OF c that(1) b] by (simp_all add: off_def)
  define d1 where "d1 = hx_update hw off (\<lambda>w. w AND NOT (push_bit ((n mod 16) * 2) 3)) d"
  have set_eq: "two_set c g v d = hx_update hw off (\<lambda>w. w OR push_bit ((n mod 16) * 2) v) d1"
    by (simp add: two_set_def pin off_def d1_def Let_def)
  show "hx_pul h (regs (two_set c g v d)) = (if h = g \<and> c = 7 then v else hx_pul h (regs d))"
    using two_write [OF assms(1-3) pin c, of 7 d] by (auto simp: set_eq d1_def off_def)
  show "hx_drv h (regs (two_set c g v d)) = (if h = g \<and> c = 5 then v else hx_drv h (regs d))"
    using two_write [OF assms(1-3) pin c, of 5 d] by (auto simp: set_eq d1_def off_def)
  have cfg1: "hx_cfg h (regs d1) = hx_cfg h (regs d)"
    unfolding d1_def by (rule cfg_keep [OF assms(2) off(1)])
  show "hx_cfg h (regs (two_set c g v d)) = hx_cfg h (regs d)"
    by (simp add: set_eq cfg_keep [OF assms(2) off(1)] cfg1)
  show "isopen (two_set c g v d) = isopen d" by (simp add: set_eq d1_def)
  assume out: "hx_cfg h (regs d) = 1"
  obtain bk' n' where p: "hx_pin h = (bk', n')" by (cases "hx_pin h")
  then have "off \<noteq> DAT (hx_off bk')" using hx_pin_bounds [OF assms(2)] off(2) [of bk' n'] by simp
  then have dat: "hx_level h ((regs e)(off := w)) = hx_level h (regs e)" for e w using p by (simp add: hx_level_def)
  have "hx_level h (regs d1) = hx_level h (regs d)"
    unfolding d1_def by (subst level_update [OF assms(2) out off(1)]) (simp_all add: dat)
  then show "hx_level h (regs (two_set c g v d)) = hx_level h (regs d)"
    unfolding set_eq using out by (subst level_update [OF assms(2) _ off(1)]) (simp_all add: dat cfg1)
qed

lemma hx_setPull_ok:
  assumes d: "hx_ok d" "hx_valid g"
  shows "\<exists>d'. HxGpio_setPull hw g p d = Inr d' \<and> hx_ok d' \<and>
    (\<forall>h. hx_valid h \<longrightarrow> HxGpio_mode h d' = HxGpio_mode h d) \<and>
    HxGpio_pull g d' = (if p = PullUnknown then HxGpio_pull g d else Inr p) \<and>
    (\<forall>h. hx_valid h \<and> h \<noteq> g \<longrightarrow> HxGpio_pull h d' = HxGpio_pull h d) \<and>
    (\<forall>h. hx_valid h \<and> HxGpio_mode h d = Inr ModeOutput \<longrightarrow> HxGpio_read h d' = HxGpio_read h d)"
proof (cases "p = PullUnknown")
  case True
  with d show ?thesis by (simp add: HxGpio_setPull_def with_pin_open hx_ok_def hx_valid_def)
next
  case False
  from d have o: "isopen d" "g < 106" by (simp_all add: hx_ok_def hx_valid_def)
  define v :: u32 where "v = (case p of PullOff \<Rightarrow> 0 | PullDown \<Rightarrow> 2 | PullUp \<Rightarrow> 1 | PullUnknown \<Rightarrow> 0)"
  have v: "v AND 3 = v" "hx_pull_of v = p" using False by (cases p; simp add: v_def hx_pull_of_def)+
  have "HxGpio_setPull hw g p d = Inr (two_set 7 g v d)"
    using False o by (cases "hx_pin g"; cases p)
      (simp_all add: HxGpio_setPull_def with_pin_open Let_def sub_div_mult two_set_def PUL_def v_def)
  with two_set_fields [OF o(2) _ v(1), of _ 7 d] o v(2) False show ?thesis
    by (auto simp: hx_ok_def hx_valid_def hx_mode_of_output hx_read_level hx_pull_pul hx_mode_cfg)
qed

end

lemma HxGpio_vtable_simps [simp]:
  "g_mode (HxGpio_vtable hw) = HxGpio_mode" "g_setMode (HxGpio_vtable hw) = HxGpio_setMode hw"
  "g_pull (HxGpio_vtable hw) = HxGpio_pull" "g_setPull (HxGpio_vtable hw) = HxGpio_setPull hw"
  "g_read (HxGpio_vtable hw) = HxGpio_read" "g_write (HxGpio_vtable hw) = HxGpio_write hw"
  "g_toggle (HxGpio_vtable hw) = HxGpio_toggle hw"
  by (simp_all add: HxGpio_vtable_def)

context hx_hw
begin

lemma hx_gpio: "gpio_pull_device (HxGpio_vtable hw) hx_valid hx_ok hx_settable"
proof (intro gpio_pull_device.intro gpio_device.intro gpio_pull_device_axioms.intro; unfold HxGpio_vtable_simps)
  fix s g m
  assume s: "hx_ok s" "hx_valid g" "hx_settable g m"
  then have o: "isopen s" "g < 106" by (simp_all add: hx_ok_def hx_valid_def)
  from setMode_total [OF o s(3)] obtain s' where s': "HxGpio_setMode hw g m s = Inr s'" by blast
  from setMode_field [OF o s'] obtain m' v where v: "map_at hx_mode2int m' = Inr v"
    "if m = ModePwm then m' = ModeAlt3 \<and> g = 5 else m' = m" "isopen s'" "hx_cfg g (regs s') = v"
    using o(2) by auto
  then have "HxGpio_mode g s' = Inr m"
    using o(2) s(3) hx_mode_of_mode2int [OF v(1), of g] by (auto simp: hx_mode_cfg hx_settable_def split: if_splits)
  with s' v(3) show "\<exists>s'. HxGpio_setMode hw g m s = Inr s' \<and> hx_ok s' \<and> HxGpio_mode g s' = Inr m"
    by (simp add: hx_ok_def)
next
  fix s g m s'
  assume "hx_ok s" "hx_valid g" "HxGpio_setMode hw g m s = Inr s'"
  with setMode_field [of s g m s'] show "hx_ok s'" by (auto simp: hx_ok_def hx_valid_def)
next
  fix s g h m s'
  assume "hx_ok s" "hx_valid g" "hx_valid h" "h \<noteq> g" "HxGpio_setMode hw g m s = Inr s'"
  with setMode_field [of s g m s'] show "HxGpio_mode h s' = HxGpio_mode h s"
    by (auto simp: hx_ok_def hx_valid_def hx_mode_cfg)
next
  fix s g m
  assume "hx_ok s" "hx_valid g" "HxGpio_mode g s = Inr m"
  then show "hx_settable g m" by (simp add: hx_ok_def hx_valid_def hx_mode_cfg hx_mode_of_settable)
next
  fix s g
  assume "hx_ok s" "hx_valid g"
  then show "\<exists>b. HxGpio_read g s = Inr b" by (simp add: hx_ok_def hx_valid_def hx_read_level)
next
  fix s g v
  assume s: "hx_ok s" "hx_valid g"
  obtain bk n where pin: "hx_pin g = (bk, n)" by (cases "hx_pin g")
  show "\<exists>s'. HxGpio_write hw g v s = Inr s' \<and> hx_ok s' \<and> (\<forall>h. hx_valid h \<longrightarrow> HxGpio_mode h s' = HxGpio_mode h s) \<and>
      (HxGpio_mode g s = Inr ModeOutput \<longrightarrow> HxGpio_read g s' = Inr v) \<and>
      (\<forall>h. hx_valid h \<and> h \<noteq> g \<and> HxGpio_mode h s = Inr ModeOutput \<longrightarrow> HxGpio_read h s' = HxGpio_read h s)"
    using dat_ok [OF s pin write_bits [where v = v] refl] write_dat [OF s pin, of v] by blast
next
  fix s g b
  assume s: "hx_ok s" "hx_valid g" "HxGpio_read g s = Inr b"
  obtain bk n where pin: "hx_pin g = (bk, n)" by (cases "hx_pin g")
  have "bit (regs s (DAT (hx_off bk))) n = b"
    using s pin by (simp add: hx_ok_def hx_valid_def hx_read_level hx_level_def)
  with dat_ok [OF s(1,2) pin toggle_bits refl] toggle_dat [OF s(1,2) pin]
  show "\<exists>s'. HxGpio_toggle hw g s = Inr s' \<and> hx_ok s' \<and> (\<forall>h. hx_valid h \<longrightarrow> HxGpio_mode h s' = HxGpio_mode h s) \<and>
      (HxGpio_mode g s = Inr ModeOutput \<longrightarrow> HxGpio_read g s' = Inr (\<not> b)) \<and>
      (\<forall>h. hx_valid h \<and> h \<noteq> g \<and> HxGpio_mode h s = Inr ModeOutput \<longrightarrow> HxGpio_read h s' = HxGpio_read h s)"
    by blast
next
  fix s g
  assume "hx_ok s" "hx_valid g"
  then show "\<exists>p. HxGpio_pull g s = Inr p" by (simp add: hx_ok_def hx_valid_def hx_pull_pul)
next
  fix s g p
  assume "hx_ok s" "hx_valid g"
  then show "\<exists>s'. HxGpio_setPull hw g p s = Inr s' \<and> hx_ok s' \<and> (\<forall>h. hx_valid h \<longrightarrow> HxGpio_mode h s' = HxGpio_mode h s) \<and>
      HxGpio_pull g s' = (if p = PullUnknown then HxGpio_pull g s else Inr p) \<and>
      (\<forall>h. hx_valid h \<and> h \<noteq> g \<longrightarrow> HxGpio_pull h s' = HxGpio_pull h s) \<and>
      (\<forall>h. hx_valid h \<and> HxGpio_mode h s = Inr ModeOutput \<longrightarrow> HxGpio_read h s' = HxGpio_read h s)"
    by (rule hx_setPull_ok)
next
  fix s g h m s'
  assume "hx_ok s" "hx_valid g" "hx_valid h" "HxGpio_setMode hw g m s = Inr s'"
  with setMode_field [of s g m s'] show "HxGpio_pull h s' = HxGpio_pull h s"
    by (auto simp: hx_ok_def hx_valid_def hx_pull_pul)
next
  fix s g h v s'
  assume s: "hx_ok s" "hx_valid g" "hx_valid h" "HxGpio_write hw g v s = Inr s'"
  obtain bk n where pin: "hx_pin g = (bk, n)" by (cases "hx_pin g")
  show "HxGpio_pull h s' = HxGpio_pull h s"
    using dat_ok [OF s(1,2) pin write_bits [where v = v] refl] write_dat [OF s(1,2) pin, of v] s(3,4) by simp
next
  fix s g h s'
  assume s: "hx_ok s" "hx_valid g" "hx_valid h" "HxGpio_toggle hw g s = Inr s'"
  obtain bk n where pin: "hx_pin g = (bk, n)" by (cases "hx_pin g")
  show "HxGpio_pull h s' = HxGpio_pull h s"
    using dat_ok [OF s(1,2) pin toggle_bits refl] toggle_dat [OF s(1,2) pin] s(3,4) by simp
qed

end

sublocale hx_hw \<subseteq> hx: gpio_pull_device "HxGpio_vtable hw" hx_valid hx_ok hx_settable
  by (rule hx_gpio)

section \<open>Properties\<close>

text \<open>C12. \<open>pinBank\<close> of the Allwinner driver ends for every pin number and finds a place of its own for every
  pin: of an open device each of the 106 pins has a bank and a bit below the size of a port, and no other
  pin has the same ones; a larger number is \<open>out_of_range\<close>, and a closed device raises \<open>ENODEV\<close>.\<close>

theorem hx_pinBank_unique:
  "if 106 \<le> g then hx_pinBank d g = Inl Out_of_range
   else if \<not> isopen d then hx_pinBank d g = Inl (System_error ENODEV)
   else \<exists>b n. hx_pinBank d g = Inr (Some b, n) \<and> n < 22 \<and> (\<forall>h. hx_pinBank d h = Inr (Some b, n) \<longrightarrow> h = g)"
proof -
  have big: "hx_pinBank d k = Inl Out_of_range" if "106 \<le> k" for k
    using that by (simp add: hx_pinBank_def hx_walk_pin hx_pin_def)
  have closed: "hx_pinBank d g = Inl (System_error ENODEV)" if "g < 106" "\<not> isopen d"
    using that hx_pin_bounds [OF that(1)] by (simp add: hx_pinBank_def hx_walk_pin hx_bank_def)
  have uniq: "h = g" if "g < 106" "isopen d" "hx_pinBank d h = hx_pinBank d g" for h
  proof (cases "h < 106")
    case True
    with that have "hx_off (fst (hx_pin h)) + 0 = hx_off (fst (hx_pin g)) + 0" "snd (hx_pin h) = snd (hx_pin g)"
      by (simp_all add: hx_pinBank_open)
    with hx_off_eq [of "fst (hx_pin h)" "fst (hx_pin g)" 0 0] hx_pin_bounds [OF True] hx_pin_bounds [OF that(1)]
    have "hx_pin h = hx_pin g" by (simp add: prod_eq_iff)
    with hx_pin_inj [OF True that(1)] show ?thesis by simp
  next
    case False
    with that big [of h] show ?thesis by (simp add: hx_pinBank_open)
  qed
  show ?thesis
    using big closed uniq hx_pin_bounds [of g] by (auto simp: hx_pinBank_open not_le)
qed

definition hx_new :: mmio_dev where
  "hx_new = \<lparr>isopen = True, isdebug = False, regs = \<lambda>_. 0\<rparr>"

theorem hx_pinBank_unique_witness:
  "hx_pinBank hx_new 105 = Inr (Some 1792, 11) \<and> hx_pinBank hx_new 106 = Inl Out_of_range \<and>
   (hx_pinBank hx_new 22 = Inr (Some 530, 0)) \<and> hx_pinBank hx_new 21 \<noteq> hx_pinBank hx_new 22"
proof -
  have open_new: "isopen hx_new" by (simp add: hx_new_def)
  have "hx_pinBank hx_new 105 = Inr (Some 1792, 11)" "hx_pinBank hx_new 22 = Inr (Some 530, 0)"
    using open_new by (simp_all add: hx_pinBank_open hx_pin_def hx_off_def)
  moreover have "hx_pinBank hx_new 106 = Inl Out_of_range" using hx_pinBank_unique [of 106 hx_new] by simp
  moreover have "hx_pinBank hx_new 21 \<noteq> hx_pinBank hx_new 22"
  proof
    assume same: "hx_pinBank hx_new 21 = hx_pinBank hx_new 22"
    obtain b n where bn: "hx_pinBank hx_new 22 = Inr (Some b, n)" "\<And>h. hx_pinBank hx_new h = Inr (Some b, n) \<Longrightarrow> h = 22"
      using hx_pinBank_unique [of 22 hx_new] open_new by auto
    have "(21 :: nat) = 22" by (rule bn(2)) (simp only: same bn(1))
    then show False by simp
  qed
  ultimately show ?thesis by blast
qed

text \<open>The drive strength of an Allwinner pin can be set to the values 0 to 3, any other value throws
  \<open>invalid_argument\<close>; the pin then reports it, the other pins keep theirs and every pin keeps its mode and pull.\<close>

lemma hx_setDrive_drive:
  assumes "hx_hw hw" "isopen d" "g < 106"
  shows "case HxGpio_setDrive hw g v d of Inl x \<Rightarrow> x = Invalid_argument \<and> v \<notin> {0..3}
    | Inr d' \<Rightarrow> HxGpio_drive g d' = Inr v \<and> (\<forall>h < 106. h \<noteq> g \<longrightarrow> HxGpio_drive h d' = HxGpio_drive h d) \<and>
        (\<forall>h < 106. HxGpio_mode h d' = HxGpio_mode h d \<and> HxGpio_pull h d' = HxGpio_pull h d)"
proof (cases "v \<in> {0..3}")
  case False
  then have "HxGpio_setDrive hw g v d = Inl Invalid_argument" using assms by (auto simp: HxGpio_setDrive_def with_pin_open)
  with False show ?thesis by simp
next
  case True
  define w :: u32 where "w = word_of_int v"
  have "v \<in> {0, 1, 2, 3}" using True by auto
  then have w: "w AND 3 = w" "uint w = v" by (auto simp: w_def)
  have drv: "HxGpio_drive h e = Inr (uint (hx_drv h (regs e)))" if "isopen e" "h < 106" for h e
    using that by (cases "hx_pin h") (simp add: HxGpio_drive_def with_pin_open hx_two_def DRV_def Let_def sub_div_mult)
  have "HxGpio_setDrive hw g v d = Inr (hx_hw.two_set hw 5 g w d)"
    using True assms by (cases "hx_pin g")
      (simp add: HxGpio_setDrive_def with_pin_open Let_def sub_div_mult hx_hw.two_set_def DRV_def w_def)
  with hx_hw.two_set_fields [OF assms(1,3) _ w(1), of _ 5 d] assms w(2) show ?thesis
    by (auto simp: drv hx_mode_cfg hx_pull_pul)
qed

lemma hx_setDrive_drive_witness:
  "\<exists>d'. HxGpio_setDrive hx_sim 40 2 hx_new = Inr d' \<and> HxGpio_drive 40 d' = Inr 2 \<and> HxGpio_drive 41 d' = Inr 0"
proof -
  have "isopen hx_new" "HxGpio_drive 41 hx_new = Inr 0"
    by (simp_all add: HxGpio_drive_def with_pin_open hx_new_def hx_pin_def Let_def)
  moreover have "(40 :: nat) < 106" by simp
  ultimately show ?thesis
    using hx_setDrive_drive [OF hx_chip.hx_hw_axioms, of hx_new 40 2] by (auto split: sum.splits)
qed

end
