(* ===== verification/Rp1Gpio.thy ===== *)
theory Rp1Gpio
  imports GpioDevice
begin

text \<open>
  The GPIO driver of the RP1 (\<open>src/arch/arm/broadcom/gpio_rp1.cpp\<close>), the I/O controller of the
  Raspberry Pi 5. A pin is its MCU number, 0 to 27. Offsets are in words from the pointer \<open>gpio\<close> of the
  driver; \<open>pad\<close> and \<open>rio\<close> point into the same block.
\<close>

unbundle bit_operations_syntax

section \<open>Registers\<close>

abbreviation (input) useGpioMem :: u32 where "useGpioMem \<equiv> 0x00010000"

abbreviation (input) GpioOffset :: nat where "GpioOffset \<equiv> 0x34000"
abbreviation (input) PadsOffset :: nat where "PadsOffset \<equiv> 0x8000"
abbreviation (input) RioOffset :: nat where "RioOffset \<equiv> 0x4000"

abbreviation (input) FselAlt0 :: u32 where "FselAlt0 \<equiv> 0"
abbreviation (input) FselAlt1 :: u32 where "FselAlt1 \<equiv> 1"
abbreviation (input) FselAlt2 :: u32 where "FselAlt2 \<equiv> 2"
abbreviation (input) FselAlt3 :: u32 where "FselAlt3 \<equiv> 3"
abbreviation (input) FselAlt4 :: u32 where "FselAlt4 \<equiv> 4"
abbreviation (input) FselAlt5 :: u32 where "FselAlt5 \<equiv> 5"
abbreviation (input) FselAlt6 :: u32 where "FselAlt6 \<equiv> 6"
abbreviation (input) FselAlt7 :: u32 where "FselAlt7 \<equiv> 7"
abbreviation (input) FselAlt8 :: u32 where "FselAlt8 \<equiv> 8"
abbreviation (input) FselNone :: u32 where "FselNone \<equiv> 9"
abbreviation (input) FselGpio :: u32 where "FselGpio \<equiv> FselAlt5"
abbreviation (input) FselNoneHw :: u32 where "FselNoneHw \<equiv> 0x1f"

abbreviation (input) GPIO_RIO_OUT :: nat where "GPIO_RIO_OUT \<equiv> 0"
abbreviation (input) GPIO_RIO_OE :: nat where "GPIO_RIO_OE \<equiv> 1"
abbreviation (input) GPIO_RIO_IN :: nat where "GPIO_RIO_IN \<equiv> 2"
abbreviation (input) GPIO_RIO_SET_OFFSET :: nat where "GPIO_RIO_SET_OFFSET \<equiv> 0x800"
abbreviation (input) GPIO_RIO_CLR_OFFSET :: nat where "GPIO_RIO_CLR_OFFSET \<equiv> 0xC00"
abbreviation (input) GPIO_RIO_XOR_OFFSET :: nat where "GPIO_RIO_XOR_OFFSET \<equiv> 0x400"

abbreviation (input) GPIO_PAD_DRIVE_LSB :: nat where "GPIO_PAD_DRIVE_LSB \<equiv> 4"
abbreviation (input) GPIO_PAD_SLEWFAST :: u32 where "GPIO_PAD_SLEWFAST \<equiv> 0x01"
abbreviation (input) GPIO_PAD_SCHMITT :: u32 where "GPIO_PAD_SCHMITT \<equiv> 0x02"
abbreviation (input) GPIO_PAD_PULL_OFF :: u32 where "GPIO_PAD_PULL_OFF \<equiv> 0x00"
abbreviation (input) GPIO_PAD_PULL_DOWN :: u32 where "GPIO_PAD_PULL_DOWN \<equiv> 0x04"
abbreviation (input) GPIO_PAD_PULL_UP :: u32 where "GPIO_PAD_PULL_UP \<equiv> 0x08"
abbreviation (input) GPIO_PAD_DRIVE_4MA :: u32 where "GPIO_PAD_DRIVE_4MA \<equiv> 0x10"
abbreviation (input) GPIO_PAD_IN_ENABLE :: u32 where "GPIO_PAD_IN_ENABLE \<equiv> 0x40"
abbreviation (input) GPIO_PAD_OUT_DISABLE :: u32 where "GPIO_PAD_OUT_DISABLE \<equiv> 0x80"
abbreviation (input) GPIO_PAD_PULL_MASK :: u32 where "GPIO_PAD_PULL_MASK \<equiv> GPIO_PAD_PULL_UP OR GPIO_PAD_PULL_DOWN"
abbreviation (input) GPIO_PAD_DRIVE_MASK :: u32 where "GPIO_PAD_DRIVE_MASK \<equiv> 0x30"
abbreviation (input) GPIO_PAD_HW_0TO8 :: u32 where "GPIO_PAD_HW_0TO8 \<equiv> (GPIO_PAD_OUT_DISABLE OR GPIO_PAD_DRIVE_4MA OR GPIO_PAD_PULL_UP OR GPIO_PAD_SCHMITT)"
abbreviation (input) GPIO_PAD_HW_FROM9 :: u32 where "GPIO_PAD_HW_FROM9 \<equiv> (GPIO_PAD_OUT_DISABLE OR GPIO_PAD_DRIVE_4MA OR GPIO_PAD_PULL_DOWN OR GPIO_PAD_SCHMITT)"

abbreviation (input) GPIO_STATUS_OE :: u32 where "GPIO_STATUS_OE \<equiv> push_bit 12 1 OR push_bit 13 1"
abbreviation (input) GPIO_CTRL_FUNCSEL_MASK :: u32 where "GPIO_CTRL_FUNCSEL_MASK \<equiv> 0x1f"
abbreviation (input) GPIO_CTRL_DEBOUNCE_DEFAULT :: u32 where "GPIO_CTRL_DEBOUNCE_DEFAULT \<equiv> push_bit 5 4"
abbreviation (input) GPIO_CTRL_IRQRESET :: u32 where "GPIO_CTRL_IRQRESET \<equiv> push_bit 28 1"

section \<open>Tables\<close>

text \<open>The initialiser of \<open>fsel2mode\<close> names the key \<open>FselGpio\<close> three times; a map keeps the first.\<close>

definition fsel2mode :: "(u32 \<times> pin_mode) list" where
  "fsel2mode = [(FselGpio, ModeInput), (FselGpio, ModeOutput), (FselAlt0, ModeAlt0), (FselAlt1, ModeAlt1),
     (FselAlt2, ModeAlt2), (FselAlt3, ModeAlt3), (FselAlt4, ModeAlt4), (FselAlt5, ModeAlt5), (FselAlt6, ModeAlt6),
     (FselAlt7, ModeAlt7), (FselAlt8, ModeAlt8), (FselNoneHw, ModeDisabled), (FselNone, ModeUnknown)]"

definition mode2fsel :: "(pin_mode \<times> u32) list" where
  "mode2fsel = [(ModeInput, FselGpio), (ModeOutput, FselGpio), (ModeAlt0, FselAlt0), (ModeAlt1, FselAlt1),
     (ModeAlt2, FselAlt2), (ModeAlt3, FselAlt3), (ModeAlt4, FselAlt4), (ModeAlt5, FselAlt5), (ModeAlt6, FselAlt6),
     (ModeAlt7, FselAlt7), (ModeAlt8, FselAlt8), (ModeDisabled, FselNoneHw), (ModeUnknown, FselNone)]"

definition rp1_modes :: "(pin_mode \<times> string) list" where
  "rp1_modes = [(ModeInput, ''in''), (ModeOutput, ''out''), (ModeAlt0, ''alt0''), (ModeAlt1, ''alt1''),
     (ModeAlt2, ''alt2''), (ModeAlt3, ''alt3''), (ModeAlt4, ''alt4''), (ModeAlt6, ''alt6''), (ModeAlt7, ''alt7''),
     (ModeAlt8, ''alt8''), (ModeDisabled, ''off''), (ModePwm, ''pwm'')]"

section \<open>Operations\<close>

record rp1_dev = mmio_dev +
  rp1_flags :: u32

definition rp1_new :: rp1_dev where
  "rp1_new = \<lparr>isopen = False, isdebug = False, regs = \<lambda>_. 0, rp1_flags = hasAltRead OR hasPullRead OR hasDrive OR hasToggle\<rparr>"

definition reg_store :: "hw \<Rightarrow> nat \<Rightarrow> u32 \<Rightarrow> rp1_dev \<Rightarrow> rp1_dev" where
  "reg_store hw off v d = d\<lparr>regs := hw off v ((regs d)(off := v))\<rparr>"

definition setCtrlReg :: "hw \<Rightarrow> nat \<Rightarrow> u32 \<Rightarrow> rp1_dev \<Rightarrow> rp1_dev" where
  "setCtrlReg hw p v = reg_store hw (p * 2 + 1) v"

definition ctrlReg :: "nat \<Rightarrow> rp1_dev \<Rightarrow> u32" where
  "ctrlReg p d = regs d (p * 2 + 1)"

definition statusReg :: "nat \<Rightarrow> rp1_dev \<Rightarrow> u32" where
  "statusReg p d = regs d (p * 2)"

definition setPadReg :: "hw \<Rightarrow> nat \<Rightarrow> u32 \<Rightarrow> rp1_dev \<Rightarrow> rp1_dev" where
  "setPadReg hw p v = reg_store hw (PadsOffset + (p + 1)) v"

definition padReg :: "nat \<Rightarrow> rp1_dev \<Rightarrow> u32" where
  "padReg p d = regs d (PadsOffset + (p + 1))"

text \<open>
  \<open>pcie\<close> is the path that \<open>findPCIeDevice\<close> returns; \<open>gpiomem\<close> and \<open>bar\<close> are the results of mapping
  \<open>/dev/gpiomem0\<close> and the PCIe resource.
\<close>

definition Rp1Gpio_open :: "string \<Rightarrow> mmio res \<Rightarrow> mmio res \<Rightarrow> rp1_dev \<Rightarrow> (bool \<times> rp1_dev) res" where
  "Rp1Gpio_open pcie gpiomem bar d =
    (if \<not> isopen d
     then if pcie = '''' \<or> rp1_flags d AND useGpioMem \<noteq> 0
          then case gpiomem of Inl x \<Rightarrow> Inl x
               | Inr m \<Rightarrow> Inr (True, d\<lparr>regs := m, rp1_flags := rp1_flags d OR useGpioMem, isopen := True\<rparr>)
          else case bar of Inl x \<Rightarrow> Inl x
               | Inr m \<Rightarrow> Inr (True, d\<lparr>regs := (\<lambda>i. m (GpioOffset + i)), rp1_flags := rp1_flags d AND NOT useGpioMem, isopen := True\<rparr>)
     else Inr (isopen d, d))"

definition Rp1Gpio_close :: "rp1_dev \<Rightarrow> rp1_dev" where
  "Rp1Gpio_close d = (if isopen d then d\<lparr>isopen := False\<rparr> else d)"

definition Rp1Gpio_mode :: "nat \<Rightarrow> rp1_dev \<Rightarrow> pin_mode res" where
  "Rp1Gpio_mode p d =
    (let fsel = ctrlReg p d AND GPIO_CTRL_FUNCSEL_MASK
     in case map_at fsel2mode fsel of
          Inl x \<Rightarrow> Inl x
        | Inr m \<Rightarrow>
            (if fsel = FselGpio
             then Inr (if statusReg p d AND GPIO_STATUS_OE = GPIO_STATUS_OE then ModeOutput else ModeInput)
             else if m = ModeAlt0 \<and> (p = 12 \<or> p = 13) \<or> m = ModeAlt3 \<and> (p = 18 \<or> p = 19) then Inr ModePwm
             else Inr m))"

text \<open>The switch of \<open>setMode\<close>, with the mode that stands for PWM and the flag that it does.\<close>

definition rp1_apply :: "hw \<Rightarrow> nat \<Rightarrow> bool \<Rightarrow> pin_mode \<Rightarrow> rp1_dev \<Rightarrow> rp1_dev res" where
  "rp1_apply hw p isPwm m d =
    (case map_at mode2fsel m of
       Inl x \<Rightarrow> Inl x
     | Inr fsel \<Rightarrow>
         (let pad = (padReg p d AND (GPIO_PAD_PULL_MASK OR GPIO_PAD_DRIVE_MASK))
                      OR (GPIO_PAD_IN_ENABLE OR GPIO_PAD_SCHMITT OR GPIO_PAD_SLEWFAST);
              hwpad = (if p \<le> 8 then GPIO_PAD_HW_0TO8 else GPIO_PAD_HW_FROM9);
              oe_set = RioOffset + GPIO_RIO_OE + GPIO_RIO_SET_OFFSET;
              oe_clr = RioOffset + GPIO_RIO_OE + GPIO_RIO_CLR_OFFSET
          in Inr (if m = ModeInput then
                    reg_store hw oe_clr (push_bit p 1)
                      (setCtrlReg hw p (FselGpio OR GPIO_CTRL_DEBOUNCE_DEFAULT) (setPadReg hw p pad d))
                  else if m = ModeOutput then
                    reg_store hw oe_set (push_bit p 1)
                      (setCtrlReg hw p (FselGpio OR GPIO_CTRL_DEBOUNCE_DEFAULT) (setPadReg hw p pad d))
                  else if m = ModeDisabled then
                    reg_store hw oe_clr (push_bit p 1)
                      (setCtrlReg hw p (GPIO_CTRL_IRQRESET OR FselNoneHw OR GPIO_CTRL_DEBOUNCE_DEFAULT) (setPadReg hw p hwpad d))
                  else if (m = ModeAlt0 \<or> m = ModeAlt3) \<and> isPwm then
                    setCtrlReg hw p (fsel OR GPIO_CTRL_DEBOUNCE_DEFAULT) (setPadReg hw p pad d)
                  else if m \<in> {ModeAlt0, ModeAlt1, ModeAlt2, ModeAlt3, ModeAlt4, ModeAlt6, ModeAlt7, ModeAlt8} then
                    (let ctrl = (ctrlReg p d AND NOT GPIO_CTRL_FUNCSEL_MASK) OR fsel
                     in reg_store hw oe_clr (push_bit p 1) (setCtrlReg hw p ctrl (setPadReg hw p hwpad d)))
                  else d)))"

definition Rp1Gpio_setMode :: "hw \<Rightarrow> nat \<Rightarrow> pin_mode \<Rightarrow> rp1_dev \<Rightarrow> rp1_dev res" where
  "Rp1Gpio_setMode hw p m d =
    (if m = ModePwm
     then (if p = 12 \<or> p = 13 then rp1_apply hw p True ModeAlt0 d
           else if p = 18 \<or> p = 19 then rp1_apply hw p True ModeAlt3 d
           else Inl Invalid_argument)
     else rp1_apply hw p False m d)"

definition Rp1Gpio_setPull :: "hw \<Rightarrow> nat \<Rightarrow> pin_pull \<Rightarrow> rp1_dev \<Rightarrow> rp1_dev res" where
  "Rp1Gpio_setPull hw g p d =
    (let pull = padReg g d AND NOT GPIO_PAD_PULL_MASK
     in case p of
          PullOff \<Rightarrow> Inr (setPadReg hw g (pull OR GPIO_PAD_PULL_OFF) d)
        | PullDown \<Rightarrow> Inr (setPadReg hw g (pull OR GPIO_PAD_PULL_DOWN) d)
        | PullUp \<Rightarrow> Inr (setPadReg hw g (pull OR GPIO_PAD_PULL_UP) d)
        | PullUnknown \<Rightarrow> Inr d)"

definition Rp1Gpio_write :: "hw \<Rightarrow> nat \<Rightarrow> bool \<Rightarrow> rp1_dev \<Rightarrow> rp1_dev res" where
  "Rp1Gpio_write hw p v d =
    Inr (reg_store hw (RioOffset + (GPIO_RIO_OUT + (if v then GPIO_RIO_SET_OFFSET else GPIO_RIO_CLR_OFFSET))) (push_bit p 1) d)"

definition Rp1Gpio_toggle :: "hw \<Rightarrow> nat \<Rightarrow> rp1_dev \<Rightarrow> rp1_dev res" where
  "Rp1Gpio_toggle hw p d = Inr (reg_store hw (RioOffset + (GPIO_RIO_OUT + GPIO_RIO_XOR_OFFSET)) (push_bit p 1) d)"

definition Rp1Gpio_read :: "nat \<Rightarrow> rp1_dev \<Rightarrow> bool res" where
  "Rp1Gpio_read p d = Inr (regs d (RioOffset + GPIO_RIO_IN) AND push_bit p 1 \<noteq> 0)"

definition Rp1Gpio_pull :: "nat \<Rightarrow> rp1_dev \<Rightarrow> pin_pull res" where
  "Rp1Gpio_pull p d =
    (let v = padReg p d AND GPIO_PAD_PULL_MASK
     in Inr (if v = GPIO_PAD_PULL_OFF then PullOff else if v = GPIO_PAD_PULL_DOWN then PullDown
             else if v = GPIO_PAD_PULL_UP then PullUp else PullUnknown))"

definition Rp1Gpio_setDrive :: "hw \<Rightarrow> nat \<Rightarrow> int \<Rightarrow> rp1_dev \<Rightarrow> rp1_dev res" where
  "Rp1Gpio_setDrive hw p drv d =
    (let pad = (padReg p d AND NOT GPIO_PAD_DRIVE_MASK)
                 OR (push_bit GPIO_PAD_DRIVE_LSB (word_of_int drv) AND GPIO_PAD_DRIVE_MASK)
     in Inr (setPadReg hw p pad d))"

definition Rp1Gpio_drive :: "nat \<Rightarrow> rp1_dev \<Rightarrow> int res" where
  "Rp1Gpio_drive p d = Inr (uint (drop_bit GPIO_PAD_DRIVE_LSB (padReg p d AND GPIO_PAD_DRIVE_MASK)))"

definition Rp1Gpio_vtable :: "hw \<Rightarrow> rp1_dev gpio_vtable" where
  "Rp1Gpio_vtable hw = \<lparr>
     g_flags = rp1_flags, g_mode = Rp1Gpio_mode, g_setMode = Rp1Gpio_setMode hw,
     g_pull = Rp1Gpio_pull, g_setPull = Rp1Gpio_setPull hw, g_read = Rp1Gpio_read, g_write = Rp1Gpio_write hw,
     g_toggle = Rp1Gpio_toggle hw, g_drive = Rp1Gpio_drive, g_setDrive = Rp1Gpio_setDrive hw\<rparr>"

section \<open>What the driver relies on of the hardware\<close>

text \<open>
  Control and pad registers hold what is stored in them. The output and output enable registers of the
  RIO block change by stores to their set, clear and toggle aliases. In a consistent state the status of a
  pin under GPIO control shows its output enable, and an enabled output whose pad has its input buffer
  on reads as it is driven.
\<close>

definition rp1_plain :: "nat \<Rightarrow> bool" where
  "rp1_plain i \<longleftrightarrow> (\<exists>p < 28. i = p * 2 + 1 \<or> i = PadsOffset + (p + 1))"

definition rp1_alias :: "nat \<Rightarrow> nat \<Rightarrow> u32 \<Rightarrow> u32 \<Rightarrow> u32" where
  "rp1_alias r off v old =
    (if off = RioOffset + (r + GPIO_RIO_SET_OFFSET) then old OR v
     else if off = RioOffset + (r + GPIO_RIO_CLR_OFFSET) then old AND NOT v
     else if off = RioOffset + (r + GPIO_RIO_XOR_OFFSET) then old XOR v
     else old)"

definition rp1_consistent :: "mmio \<Rightarrow> bool" where
  "rp1_consistent m \<longleftrightarrow> (\<forall>p < 28. m (p * 2 + 1) AND GPIO_CTRL_FUNCSEL_MASK = FselGpio \<longrightarrow>
     (m (p * 2) AND GPIO_STATUS_OE = GPIO_STATUS_OE \<longleftrightarrow> bit (m (RioOffset + GPIO_RIO_OE)) p) \<and>
     (bit (m (RioOffset + GPIO_RIO_OE)) p \<and> m (PadsOffset + (p + 1)) AND GPIO_PAD_IN_ENABLE \<noteq> 0 \<longrightarrow>
       bit (m (RioOffset + GPIO_RIO_IN)) p = bit (m (RioOffset + GPIO_RIO_OUT)) p))"

locale rp1_hw =
  fixes hw :: hw
  assumes plain: "rp1_plain i \<Longrightarrow> hw off v m i = m i"
    and oe: "hw off v m (RioOffset + GPIO_RIO_OE) = rp1_alias GPIO_RIO_OE off v (m (RioOffset + GPIO_RIO_OE))"
    and out: "hw off v m (RioOffset + GPIO_RIO_OUT) = rp1_alias GPIO_RIO_OUT off v (m (RioOffset + GPIO_RIO_OUT))"
    and consistent: "rp1_consistent (hw off v m)"

text \<open>A simulation of the block with these properties.\<close>

definition rp1_sim :: hw where
  "rp1_sim off v m =
    (let oe' = rp1_alias GPIO_RIO_OE off v (m (RioOffset + GPIO_RIO_OE));
         out' = rp1_alias GPIO_RIO_OUT off v (m (RioOffset + GPIO_RIO_OUT))
     in (\<lambda>i. if i = RioOffset + GPIO_RIO_OE then oe'
             else if i = RioOffset + GPIO_RIO_OUT then out'
             else if i = RioOffset + GPIO_RIO_IN then out'
             else if i < 56 \<and> even i then (if bit oe' (i div 2) then GPIO_STATUS_OE else 0)
             else m i))"

interpretation rp1_chip: rp1_hw rp1_sim
proof
  fix off :: nat and v :: u32 and m :: mmio and i :: nat
  show "rp1_sim off v m i = m i" if "rp1_plain i"
    using that by (auto simp: rp1_plain_def rp1_sim_def Let_def)
  show "rp1_sim off v m (RioOffset + GPIO_RIO_OE) = rp1_alias GPIO_RIO_OE off v (m (RioOffset + GPIO_RIO_OE))"
    "rp1_sim off v m (RioOffset + GPIO_RIO_OUT) = rp1_alias GPIO_RIO_OUT off v (m (RioOffset + GPIO_RIO_OUT))"
    by (simp_all add: rp1_sim_def Let_def)
  show "rp1_consistent (rp1_sim off v m)"
    by (auto simp: rp1_consistent_def rp1_sim_def Let_def)
qed

section \<open>Effects of the stores\<close>

definition rp1_fsel :: "nat \<Rightarrow> rp1_dev \<Rightarrow> u32" where
  "rp1_fsel p d = ctrlReg p d AND GPIO_CTRL_FUNCSEL_MASK"

definition rp1_oe :: "nat \<Rightarrow> rp1_dev \<Rightarrow> bool" where
  "rp1_oe p d = bit (regs d (RioOffset + GPIO_RIO_OE)) p"

definition rp1_out :: "nat \<Rightarrow> rp1_dev \<Rightarrow> bool" where
  "rp1_out p d = bit (regs d (RioOffset + GPIO_RIO_OUT)) p"

definition rp1_ok :: "rp1_dev \<Rightarrow> bool" where
  "rp1_ok d \<longleftrightarrow> isopen d \<and> rp1_consistent (regs d) \<and>
    (\<forall>p < 28. rp1_fsel p d = FselGpio \<and> rp1_oe p d \<longrightarrow> padReg p d AND GPIO_PAD_IN_ENABLE \<noteq> 0)"

lemma rp1_ctrl_plain: "p < 28 \<Longrightarrow> rp1_plain (p * 2 + 1)"
  by (auto simp: rp1_plain_def)

lemma rp1_pad_plain: "p < 28 \<Longrightarrow> rp1_plain (PadsOffset + (p + 1))"
  by (auto simp: rp1_plain_def)

context rp1_hw
begin

lemma store_simps [simp]:
  "isopen (reg_store hw off v d) = isopen d" "rp1_flags (reg_store hw off v d) = rp1_flags d"
  "rp1_consistent (regs (reg_store hw off v d))"
  by (simp_all add: reg_store_def consistent)

lemma set_simps [simp]:
  "isopen (setCtrlReg hw p v d) = isopen d" "isopen (setPadReg hw p v d) = isopen d"
  "rp1_consistent (regs (setCtrlReg hw p v d))" "rp1_consistent (regs (setPadReg hw p v d))"
  by (simp_all add: setCtrlReg_def setPadReg_def)

lemma ctrl_ctrl: "p < 28 \<Longrightarrow> q < 28 \<Longrightarrow> ctrlReg q (setCtrlReg hw p v d) = (if q = p then v else ctrlReg q d)"
  by (simp add: ctrlReg_def setCtrlReg_def reg_store_def plain [simplified] rp1_ctrl_plain [simplified])

lemma ctrl_pad: "p < 28 \<Longrightarrow> q < 28 \<Longrightarrow> ctrlReg q (setPadReg hw p v d) = ctrlReg q d"
  by (simp add: ctrlReg_def setPadReg_def reg_store_def plain [simplified] rp1_ctrl_plain [simplified])

lemma ctrl_rio: "q < 28 \<Longrightarrow> off \<ge> RioOffset \<Longrightarrow> ctrlReg q (reg_store hw off v d) = ctrlReg q d"
  by (simp add: ctrlReg_def reg_store_def plain [simplified] rp1_ctrl_plain [simplified])

lemma pad_ctrl: "p < 28 \<Longrightarrow> q < 28 \<Longrightarrow> padReg q (setCtrlReg hw p v d) = padReg q d"
  by (simp add: padReg_def setCtrlReg_def reg_store_def plain [simplified] rp1_pad_plain [simplified])

lemma pad_pad: "p < 28 \<Longrightarrow> q < 28 \<Longrightarrow> padReg q (setPadReg hw p v d) = (if q = p then v else padReg q d)"
  by (simp add: padReg_def setPadReg_def reg_store_def plain [simplified] rp1_pad_plain [simplified])

lemma pad_rio: "q < 28 \<Longrightarrow> off < PadsOffset \<Longrightarrow> padReg q (reg_store hw off v d) = padReg q d"
  by (simp add: padReg_def reg_store_def plain [simplified] rp1_pad_plain [simplified])

lemma oe_ctrl: "p < 28 \<Longrightarrow> rp1_oe q (setCtrlReg hw p v d) = rp1_oe q d"
  by (simp add: rp1_oe_def setCtrlReg_def reg_store_def oe [simplified] rp1_alias_def)

lemma oe_pad: "p < 28 \<Longrightarrow> rp1_oe q (setPadReg hw p v d) = rp1_oe q d"
  by (simp add: rp1_oe_def setPadReg_def reg_store_def oe [simplified] rp1_alias_def)

lemma out_ctrl: "p < 28 \<Longrightarrow> rp1_out q (setCtrlReg hw p v d) = rp1_out q d"
  by (simp add: rp1_out_def setCtrlReg_def reg_store_def out [simplified] rp1_alias_def)

lemma out_pad: "p < 28 \<Longrightarrow> rp1_out q (setPadReg hw p v d) = rp1_out q d"
  by (simp add: rp1_out_def setPadReg_def reg_store_def out [simplified] rp1_alias_def)

lemma oe_set: "q < 28 \<Longrightarrow> rp1_oe q (reg_store hw (RioOffset + GPIO_RIO_OE + GPIO_RIO_SET_OFFSET) (push_bit p 1) d) = (q = p \<or> rp1_oe q d)"
  by (simp add: rp1_oe_def reg_store_def oe [simplified] rp1_alias_def) (auto simp: bit_simps)

lemma oe_clr: "q < 28 \<Longrightarrow> rp1_oe q (reg_store hw (RioOffset + GPIO_RIO_OE + GPIO_RIO_CLR_OFFSET) (push_bit p 1) d) = (q \<noteq> p \<and> rp1_oe q d)"
  by (simp add: rp1_oe_def reg_store_def oe [simplified] rp1_alias_def) (auto simp: bit_simps)

lemma oe_out: "x \<in> {GPIO_RIO_SET_OFFSET, GPIO_RIO_CLR_OFFSET, GPIO_RIO_XOR_OFFSET} \<Longrightarrow>
    rp1_oe q (reg_store hw (RioOffset + (GPIO_RIO_OUT + x)) v d) = rp1_oe q d"
  by (simp add: rp1_oe_def reg_store_def oe [simplified] rp1_alias_def) auto

lemma out_write: "q < 28 \<Longrightarrow>
    rp1_out q (reg_store hw (RioOffset + (GPIO_RIO_OUT + (if v then GPIO_RIO_SET_OFFSET else GPIO_RIO_CLR_OFFSET))) (push_bit p 1) d) =
    (if q = p then v else rp1_out q d)"
  by (simp add: rp1_out_def reg_store_def out [simplified] rp1_alias_def) (auto simp: bit_simps)

lemma out_xor: "q < 28 \<Longrightarrow>
    rp1_out q (reg_store hw (RioOffset + (GPIO_RIO_OUT + GPIO_RIO_XOR_OFFSET)) (push_bit p 1) d) = (rp1_out q d \<noteq> (q = p))"
  by (simp add: rp1_out_def reg_store_def out [simplified] rp1_alias_def) (auto simp: bit_simps)

lemmas store_effects = ctrl_ctrl ctrl_pad ctrl_rio pad_ctrl pad_pad pad_rio oe_ctrl oe_pad oe_set [simplified] oe_clr [simplified]

end

section \<open>The driver implements the interface\<close>

definition rp1_mode_of :: "nat \<Rightarrow> u32 \<Rightarrow> bool \<Rightarrow> pin_mode res" where
  "rp1_mode_of p f oe = (case map_at fsel2mode f of Inl x \<Rightarrow> Inl x
     | Inr m \<Rightarrow> if f = FselGpio then Inr (if oe then ModeOutput else ModeInput)
         else if m = ModeAlt0 \<and> (p = 12 \<or> p = 13) \<or> m = ModeAlt3 \<and> (p = 18 \<or> p = 19) then Inr ModePwm else Inr m)"

lemma rp1_mode_eq:
  assumes "rp1_consistent (regs d)" "p < 28"
  shows "Rp1Gpio_mode p d = rp1_mode_of p (rp1_fsel p d) (rp1_oe p d)"
proof (cases "rp1_fsel p d = FselGpio")
  case True
  with assms have "statusReg p d AND GPIO_STATUS_OE = GPIO_STATUS_OE \<longleftrightarrow> rp1_oe p d"
    by (simp add: rp1_consistent_def rp1_fsel_def rp1_oe_def ctrlReg_def statusReg_def)
  with True show ?thesis by (simp add: Rp1Gpio_mode_def rp1_mode_of_def Let_def rp1_fsel_def cong: sum.case_cong)
next
  case False
  then show ?thesis by (simp add: Rp1Gpio_mode_def rp1_mode_of_def Let_def rp1_fsel_def cong: sum.case_cong)
qed

text \<open>The modes for which the switch of \<open>setMode\<close> has a branch, and the modes that a pin reports back.\<close>

definition rp1_branches :: "pin_mode set" where
  "rp1_branches = {ModeInput, ModeOutput, ModeDisabled, ModeAlt0, ModeAlt1, ModeAlt2, ModeAlt3, ModeAlt4, ModeAlt6, ModeAlt7, ModeAlt8}"

definition rp1_settable :: "nat \<Rightarrow> pin_mode \<Rightarrow> bool" where
  "rp1_settable p m \<longleftrightarrow> m = ModePwm \<and> (p = 12 \<or> p = 13 \<or> p = 18 \<or> p = 19) \<or>
    m \<in> rp1_branches \<and> \<not> (m = ModeAlt0 \<and> (p = 12 \<or> p = 13)) \<and> \<not> (m = ModeAlt3 \<and> (p = 18 \<or> p = 19))"

definition rp1_valid :: "nat \<Rightarrow> bool" where
  "rp1_valid p = (p < 28)"

lemma rp1_funcsel:
  "(FselGpio OR GPIO_CTRL_DEBOUNCE_DEFAULT) AND GPIO_CTRL_FUNCSEL_MASK = FselGpio"
  "(GPIO_CTRL_IRQRESET OR FselNoneHw OR GPIO_CTRL_DEBOUNCE_DEFAULT) AND GPIO_CTRL_FUNCSEL_MASK = FselNoneHw"
  "f AND GPIO_CTRL_FUNCSEL_MASK = f \<Longrightarrow> (f OR GPIO_CTRL_DEBOUNCE_DEFAULT) AND GPIO_CTRL_FUNCSEL_MASK = f"
  "f AND GPIO_CTRL_FUNCSEL_MASK = f \<Longrightarrow> (w AND NOT GPIO_CTRL_FUNCSEL_MASK OR f) AND GPIO_CTRL_FUNCSEL_MASK = f"
  by (simp_all add: bit.conj_disj_distrib2 and.assoc)

lemma mode2fsel_fits: "map_at mode2fsel m = Inr f \<Longrightarrow> f AND GPIO_CTRL_FUNCSEL_MASK = f"
  by (auto simp: map_at_def mode2fsel_def split: if_splits)

lemma rp1_pad_in: "(w OR (GPIO_PAD_IN_ENABLE OR GPIO_PAD_SCHMITT OR GPIO_PAD_SLEWFAST)) AND GPIO_PAD_IN_ENABLE \<noteq> 0"
  by (simp add: bit.conj_disj_distrib2 or_eq_0_iff)

lemma rp1_out_regs:
  "RioOffset \<le> RioOffset + GPIO_RIO_OE + GPIO_RIO_SET_OFFSET" "RioOffset \<le> RioOffset + GPIO_RIO_OE + GPIO_RIO_CLR_OFFSET"
  "RioOffset + GPIO_RIO_OE + GPIO_RIO_SET_OFFSET < PadsOffset" "RioOffset + GPIO_RIO_OE + GPIO_RIO_CLR_OFFSET < PadsOffset"
  by simp_all

text \<open>A branch of \<open>setMode\<close> stores the pad, then the control register, then the output enable if \<open>oe\<close> says so.\<close>

definition rp1_put :: "hw \<Rightarrow> nat \<Rightarrow> u32 \<Rightarrow> u32 \<Rightarrow> bool option \<Rightarrow> rp1_dev \<Rightarrow> rp1_dev" where
  "rp1_put hw p pd c oe d =
    (let d1 = setCtrlReg hw p c (setPadReg hw p pd d)
     in case oe of None \<Rightarrow> d1
        | Some True \<Rightarrow> reg_store hw (RioOffset + GPIO_RIO_OE + GPIO_RIO_SET_OFFSET) (push_bit p 1) d1
        | Some False \<Rightarrow> reg_store hw (RioOffset + GPIO_RIO_OE + GPIO_RIO_CLR_OFFSET) (push_bit p 1) d1)"

definition rp1_branch :: "bool \<Rightarrow> u32 \<Rightarrow> pin_mode \<Rightarrow> u32 \<Rightarrow> u32 \<Rightarrow> u32 \<Rightarrow> bool option \<Rightarrow> bool" where
  "rp1_branch pwm old m f pd c oe \<longleftrightarrow> c AND GPIO_CTRL_FUNCSEL_MASK = f \<and> (m = ModeInput \<longrightarrow> oe = Some False) \<and>
    (m = ModeOutput \<longrightarrow> oe = Some True \<and> pd AND GPIO_PAD_IN_ENABLE \<noteq> 0) \<and>
    (m = ModeInput \<or> m = ModeOutput \<or> (m = ModeAlt0 \<or> m = ModeAlt3) \<and> pwm \<longrightarrow>
      pd AND GPIO_PAD_PULL_MASK = old AND GPIO_PAD_PULL_MASK \<and> pd AND GPIO_PAD_DRIVE_MASK = old AND GPIO_PAD_DRIVE_MASK)"

lemma rp1_pad_keep:
  fixes w :: u32
  shows "(w AND (GPIO_PAD_PULL_MASK OR GPIO_PAD_DRIVE_MASK) OR (GPIO_PAD_IN_ENABLE OR GPIO_PAD_SCHMITT OR GPIO_PAD_SLEWFAST)) AND
      GPIO_PAD_PULL_MASK = w AND GPIO_PAD_PULL_MASK"
    and "(w AND (GPIO_PAD_PULL_MASK OR GPIO_PAD_DRIVE_MASK) OR (GPIO_PAD_IN_ENABLE OR GPIO_PAD_SCHMITT OR GPIO_PAD_SLEWFAST)) AND
      GPIO_PAD_DRIVE_MASK = w AND GPIO_PAD_DRIVE_MASK"
  by (simp_all add: bit.conj_disj_distrib2 and.assoc)

lemma rp1_apply_put:
  assumes "m \<in> rp1_branches"
  shows "\<exists>f pd c oe. map_at mode2fsel m = Inr f \<and> rp1_apply hw p pwm m d = Inr (rp1_put hw p pd c oe d) \<and>
    rp1_branch pwm (padReg p d) m f pd c oe"
proof -
  define pad where "pad = padReg p d AND (GPIO_PAD_PULL_MASK OR GPIO_PAD_DRIVE_MASK) OR
    (GPIO_PAD_IN_ENABLE OR GPIO_PAD_SCHMITT OR GPIO_PAD_SLEWFAST)"
  define hwpad where "hwpad = (if p \<le> 8 then GPIO_PAD_HW_0TO8 else GPIO_PAD_HW_FROM9)"
  have pad: "pad AND GPIO_PAD_IN_ENABLE \<noteq> 0" "pad AND GPIO_PAD_PULL_MASK = padReg p d AND GPIO_PAD_PULL_MASK"
    "pad AND GPIO_PAD_DRIVE_MASK = padReg p d AND GPIO_PAD_DRIVE_MASK"
    unfolding pad_def by (rule rp1_pad_in rp1_pad_keep)+
  obtain f where f: "map_at mode2fsel m = Inr f"
    using assms by (auto simp: rp1_branches_def map_at_def mode2fsel_def)
  note fits = mode2fsel_fits [OF f]
  note apply_m = rp1_apply_def [of hw p pwm m d, unfolded f Let_def sum.case, folded pad_def hwpad_def]
  consider "m = ModeInput" | "m = ModeOutput" | "m = ModeDisabled" | "m = ModeAlt0 \<or> m = ModeAlt3" "pwm"
    | "m \<in> {ModeAlt0, ModeAlt1, ModeAlt2, ModeAlt3, ModeAlt4, ModeAlt6, ModeAlt7, ModeAlt8}" "\<not> ((m = ModeAlt0 \<or> m = ModeAlt3) \<and> pwm)"
    using assms unfolding rp1_branches_def by blast
  then show ?thesis
  proof cases
    case 1
    then have "f = FselGpio" using f by (simp add: map_at_def mode2fsel_def)
    moreover have "rp1_apply hw p pwm m d = Inr (rp1_put hw p pad (FselGpio OR GPIO_CTRL_DEBOUNCE_DEFAULT) (Some False) d)"
      unfolding apply_m using 1 by (simp add: rp1_put_def)
    ultimately show ?thesis using f rp1_funcsel(1) pad 1 unfolding rp1_branch_def by blast
  next
    case 2
    then have "f = FselGpio" using f by (simp add: map_at_def mode2fsel_def)
    moreover have "rp1_apply hw p pwm m d = Inr (rp1_put hw p pad (FselGpio OR GPIO_CTRL_DEBOUNCE_DEFAULT) (Some True) d)"
      unfolding apply_m using 2 by (simp add: rp1_put_def)
    ultimately show ?thesis using f rp1_funcsel(1) pad 2 unfolding rp1_branch_def by blast
  next
    case 3
    then have "f = FselNoneHw" using f by (simp add: map_at_def mode2fsel_def)
    moreover have "rp1_apply hw p pwm m d =
        Inr (rp1_put hw p hwpad (GPIO_CTRL_IRQRESET OR FselNoneHw OR GPIO_CTRL_DEBOUNCE_DEFAULT) (Some False) d)"
      unfolding apply_m using 3 by (simp add: rp1_put_def)
    ultimately show ?thesis using f rp1_funcsel(2) 3 unfolding rp1_branch_def by blast
  next
    case 4
    have "rp1_apply hw p pwm m d = Inr (rp1_put hw p pad (f OR GPIO_CTRL_DEBOUNCE_DEFAULT) None d)"
      unfolding apply_m using 4 by (auto simp: rp1_put_def)
    then show ?thesis using f rp1_funcsel(3) [OF fits] pad 4 unfolding rp1_branch_def by blast
  next
    case 5
    have "rp1_apply hw p pwm m d =
        Inr (rp1_put hw p hwpad ((ctrlReg p d AND NOT GPIO_CTRL_FUNCSEL_MASK) OR f) (Some False) d)"
      unfolding apply_m using 5 by (auto simp: rp1_put_def)
    then show ?thesis using f rp1_funcsel(4) [OF fits] 5 unfolding rp1_branch_def by blast
  qed
qed

lemma rp1_apply_skip: "m \<notin> rp1_branches \<Longrightarrow> rp1_apply hw p pwm m d = Inr d' \<Longrightarrow> d' = d"
  by (auto simp: rp1_apply_def rp1_branches_def Let_def split: sum.splits)

lemma rp1_mode_of_table:
  assumes "m \<in> rp1_branches" "m = ModeInput \<Longrightarrow> \<not> oe" "m = ModeOutput \<Longrightarrow> oe"
  shows "case map_at mode2fsel m of Inl x \<Rightarrow> True | Inr f \<Rightarrow>
    rp1_mode_of p f oe = Inr (if m = ModeAlt0 \<and> (p = 12 \<or> p = 13) \<or> m = ModeAlt3 \<and> (p = 18 \<or> p = 19) then ModePwm else m)"
  using assms unfolding map_at_def mode2fsel_def rp1_mode_of_def fsel2mode_def rp1_branches_def
  by (cases m) simp_all

lemma rp1_gpio_table: "m \<in> rp1_branches \<Longrightarrow> map_at mode2fsel m = Inr FselGpio \<longleftrightarrow> m = ModeInput \<or> m = ModeOutput"
  unfolding map_at_def mode2fsel_def rp1_branches_def by (cases m) simp_all

definition rp1_plain_mode :: "nat \<Rightarrow> pin_mode \<Rightarrow> pin_mode" where
  "rp1_plain_mode p m = (if m = ModePwm then if p = 12 \<or> p = 13 then ModeAlt0 else ModeAlt3 else m)"

context rp1_hw
begin

text \<open>It changes the function, the pad and the output enable of its own pin only.\<close>

lemma put_effects:
  assumes "p < 28" "q < 28"
  shows "rp1_fsel q (rp1_put hw p pd c oe d) = (if q = p then c AND GPIO_CTRL_FUNCSEL_MASK else rp1_fsel q d)"
    and "padReg q (rp1_put hw p pd c oe d) = (if q = p then pd else padReg q d)"
    and "rp1_oe q (rp1_put hw p pd c oe d) = (if q = p \<and> oe \<noteq> None then the oe else rp1_oe q d)"
    and "isopen (rp1_put hw p pd c oe d) = isopen d" and "rp1_consistent (regs (rp1_put hw p pd c oe d))"
  using assms by (simp_all add: rp1_put_def rp1_fsel_def store_effects rp1_out_regs Let_def split: option.splits bool.splits)

lemma put_ok:
  assumes "rp1_ok d" "p < 28" "m \<in> rp1_branches" "map_at mode2fsel m = Inr f" "rp1_branch pwm w m f pd c oe"
  shows "rp1_ok (rp1_put hw p pd c oe d)"
proof -
  have "f = FselGpio \<longleftrightarrow> m = ModeInput \<or> m = ModeOutput"
    using rp1_gpio_table [OF assms(3)] assms(4) by simp
  with assms show ?thesis by (auto simp: rp1_ok_def put_effects rp1_branch_def)
qed

lemma put_mode:
  assumes "p < 28" "m \<in> rp1_branches" "map_at mode2fsel m = Inr f" "rp1_branch pwm w m f pd c oe"
  shows "Rp1Gpio_mode p (rp1_put hw p pd c oe d) =
    Inr (if m = ModeAlt0 \<and> (p = 12 \<or> p = 13) \<or> m = ModeAlt3 \<and> (p = 18 \<or> p = 19) then ModePwm else m)"
proof -
  have f: "c AND GPIO_CTRL_FUNCSEL_MASK = f" "m = ModeInput \<Longrightarrow> oe = Some False" "m = ModeOutput \<Longrightarrow> oe = Some True"
    using assms(4) by (simp_all add: rp1_branch_def)
  have "Rp1Gpio_mode p (rp1_put hw p pd c oe d) = rp1_mode_of p f (if oe \<noteq> None then the oe else rp1_oe p d)"
    using assms(1) f(1) by (subst rp1_mode_eq) (simp_all add: put_effects)
  also have "\<dots> = Inr (if m = ModeAlt0 \<and> (p = 12 \<or> p = 13) \<or> m = ModeAlt3 \<and> (p = 18 \<or> p = 19) then ModePwm else m)"
    using rp1_mode_of_table [OF assms(2), of "if oe \<noteq> None then the oe else rp1_oe p d" p] f(2,3) assms(3) by simp
  finally show ?thesis .
qed

lemma put_other: "p < 28 \<Longrightarrow> q < 28 \<Longrightarrow> q \<noteq> p \<Longrightarrow> rp1_consistent (regs d) \<Longrightarrow> Rp1Gpio_mode q (rp1_put hw p pd c oe d) = Rp1Gpio_mode q d"
  by (simp add: rp1_mode_eq put_effects)

text \<open>A successful \<open>setMode\<close> is one of these branches, or changes nothing (for \<open>ModeAlt5\<close> and \<open>ModeUnknown\<close>).\<close>

lemma setMode_put:
  assumes "m = ModePwm \<Longrightarrow> p = 12 \<or> p = 13 \<or> p = 18 \<or> p = 19" "rp1_plain_mode p m \<in> rp1_branches"
  shows "\<exists>f pd c oe. map_at mode2fsel (rp1_plain_mode p m) = Inr f \<and> rp1_branch (m = ModePwm) (padReg p d) (rp1_plain_mode p m) f pd c oe \<and>
    Rp1Gpio_setMode hw p m d = Inr (rp1_put hw p pd c oe d)"
proof -
  have "Rp1Gpio_setMode hw p m d = rp1_apply hw p (m = ModePwm) (rp1_plain_mode p m) d"
    using assms(1) by (auto simp: Rp1Gpio_setMode_def rp1_plain_mode_def)
  with rp1_apply_put [OF assms(2), of hw p "m = ModePwm" d] show ?thesis by metis
qed

lemma setMode_cases:
  assumes "Rp1Gpio_setMode hw p m d = Inr d'"
  shows "d' = d \<or> (m = ModePwm \<longrightarrow> p = 12 \<or> p = 13 \<or> p = 18 \<or> p = 19) \<and> rp1_plain_mode p m \<in> rp1_branches"
proof (cases "m = ModePwm")
  case True
  with assms show ?thesis by (auto simp: Rp1Gpio_setMode_def rp1_plain_mode_def rp1_branches_def split: if_splits)
next
  case False
  with assms have "rp1_apply hw p False m d = Inr d'" by (simp add: Rp1Gpio_setMode_def)
  with rp1_apply_skip [of m hw p False d d'] False show ?thesis by (auto simp: rp1_plain_mode_def)
qed

end

lemma rp1_mode_of_settable: "rp1_mode_of p f oe = Inr m \<Longrightarrow> m \<noteq> ModeUnknown \<Longrightarrow> rp1_settable p m"
  unfolding rp1_mode_of_def map_at_def fsel2mode_def rp1_settable_def rp1_branches_def 
  by (auto split: if_splits)

lemma rp1_mode_of_output: "rp1_mode_of p f oe = Inr ModeOutput \<longleftrightarrow> f = FselGpio \<and> oe"
  unfolding rp1_mode_of_def map_at_def fsel2mode_def by simp

lemma rp1_read_out:
  assumes "rp1_ok d" "p < 28" "Rp1Gpio_mode p d = Inr ModeOutput"
  shows "Rp1Gpio_read p d = Inr (rp1_out p d)"
proof -
  have c: "rp1_consistent (regs d)" using assms(1) by (simp add: rp1_ok_def)
  with assms have "rp1_fsel p d = FselGpio" "rp1_oe p d" by (simp_all add: rp1_mode_eq rp1_mode_of_output)
  with assms(1,2) c show ?thesis
    by (simp add: rp1_ok_def rp1_consistent_def rp1_fsel_def rp1_oe_def rp1_out_def ctrlReg_def padReg_def Rp1Gpio_read_def bit_mask_read)
qed

text \<open>A store to the aliases of the output register changes nothing but outputs.\<close>

lemma rp1_out_aliases:
  "x \<in> {GPIO_RIO_SET_OFFSET, GPIO_RIO_CLR_OFFSET, GPIO_RIO_XOR_OFFSET} \<Longrightarrow>
    RioOffset \<le> RioOffset + (GPIO_RIO_OUT + x) \<and> RioOffset + (GPIO_RIO_OUT + x) < PadsOffset"
  by auto

context rp1_hw
begin

lemma out_store:
  assumes d: "rp1_ok d" and x: "x \<in> {GPIO_RIO_SET_OFFSET, GPIO_RIO_CLR_OFFSET, GPIO_RIO_XOR_OFFSET}"
    and d': "d' = reg_store hw (RioOffset + (GPIO_RIO_OUT + x)) v d"
  shows "rp1_ok d'" and "q < 28 \<Longrightarrow> Rp1Gpio_mode q d' = Rp1Gpio_mode q d"
    and "q < 28 \<Longrightarrow> Rp1Gpio_mode q d = Inr ModeOutput \<Longrightarrow> Rp1Gpio_read q d' = Inr (rp1_out q d')"
proof -
  have same: "rp1_fsel q d' = rp1_fsel q d" "padReg q d' = padReg q d" "rp1_oe q d' = rp1_oe q d" if "q < 28" for q
    using rp1_out_aliases [OF x] that by (simp_all add: d' rp1_fsel_def ctrl_rio pad_rio oe_out [OF x, simplified])
  have c: "rp1_consistent (regs d)" "rp1_consistent (regs d')" using d by (simp_all add: rp1_ok_def d')
  show ok: "rp1_ok d'" using d c same by (auto simp: rp1_ok_def d')
  show mode: "Rp1Gpio_mode q d' = Rp1Gpio_mode q d" if "q < 28" for q
    using that same c by (simp add: rp1_mode_eq)
  show "Rp1Gpio_read q d' = Inr (rp1_out q d')" if "q < 28" "Rp1Gpio_mode q d = Inr ModeOutput"
    using rp1_read_out [OF ok that(1)] mode that by simp
qed

end

lemma Rp1Gpio_vtable_simps [simp]:
  "g_mode (Rp1Gpio_vtable hw) = Rp1Gpio_mode" "g_setMode (Rp1Gpio_vtable hw) = Rp1Gpio_setMode hw"
  "g_pull (Rp1Gpio_vtable hw) = Rp1Gpio_pull" "g_setPull (Rp1Gpio_vtable hw) = Rp1Gpio_setPull hw"
  "g_read (Rp1Gpio_vtable hw) = Rp1Gpio_read" "g_write (Rp1Gpio_vtable hw) = Rp1Gpio_write hw"
  "g_toggle (Rp1Gpio_vtable hw) = Rp1Gpio_toggle hw"
  by (simp_all add: Rp1Gpio_vtable_def)

context rp1_hw
begin

lemma rp1_gpio: "gpio_device (Rp1Gpio_vtable hw) rp1_valid rp1_ok rp1_settable"
proof (intro gpio_device.intro; unfold Rp1Gpio_vtable_simps)
  fix s p m
  assume s: "rp1_ok s" "rp1_valid p" "rp1_settable p m"
  then have p: "p < 28" by (simp add: rp1_valid_def)
  have b: "m = ModePwm \<Longrightarrow> p = 12 \<or> p = 13 \<or> p = 18 \<or> p = 19" "rp1_plain_mode p m \<in> rp1_branches"
    using s(3) by (auto simp: rp1_settable_def rp1_plain_mode_def rp1_branches_def)
  obtain f pd c oe where put: "map_at mode2fsel (rp1_plain_mode p m) = Inr f" "rp1_branch (m = ModePwm) (padReg p s) (rp1_plain_mode p m) f pd c oe"
    "Rp1Gpio_setMode hw p m s = Inr (rp1_put hw p pd c oe s)"
    using setMode_put [OF b, of s] by blast
  have "Rp1Gpio_mode p (rp1_put hw p pd c oe s) = Inr m"
    using put_mode [OF p b(2) put(1,2), of s] s(3) by (auto simp: rp1_settable_def rp1_plain_mode_def rp1_branches_def split: if_splits)
  with put(3) put_ok [OF s(1) p b(2) put(1,2)]
  show "\<exists>s'. Rp1Gpio_setMode hw p m s = Inr s' \<and> rp1_ok s' \<and> Rp1Gpio_mode p s' = Inr m" by blast
next
  fix s p m s'
  assume s: "rp1_ok s" "rp1_valid p" "Rp1Gpio_setMode hw p m s = Inr s'"
  from setMode_cases [OF s(3)] show "rp1_ok s'"
  proof
    assume b: "(m = ModePwm \<longrightarrow> p = 12 \<or> p = 13 \<or> p = 18 \<or> p = 19) \<and> rp1_plain_mode p m \<in> rp1_branches"
    then obtain f pd c oe where "map_at mode2fsel (rp1_plain_mode p m) = Inr f"
      "rp1_branch (m = ModePwm) (padReg p s) (rp1_plain_mode p m) f pd c oe" "Rp1Gpio_setMode hw p m s = Inr (rp1_put hw p pd c oe s)"
      using setMode_put [of m p s] by blast
    with s b put_ok [of s p] show ?thesis by (auto simp: rp1_valid_def)
  qed (use s in simp)
next
  fix s p q m s'
  assume s: "rp1_ok s" "rp1_valid p" "rp1_valid q" "q \<noteq> p" "Rp1Gpio_setMode hw p m s = Inr s'"
  from setMode_cases [OF s(5)] show "Rp1Gpio_mode q s' = Rp1Gpio_mode q s"
  proof
    assume b: "(m = ModePwm \<longrightarrow> p = 12 \<or> p = 13 \<or> p = 18 \<or> p = 19) \<and> rp1_plain_mode p m \<in> rp1_branches"
    obtain pd c oe where "Rp1Gpio_setMode hw p m s = Inr (rp1_put hw p pd c oe s)"
      using setMode_put [of m p s] b by blast
    with s(5) have "s' = rp1_put hw p pd c oe s" by simp
    with s(1-4) show ?thesis by (simp add: put_other rp1_valid_def rp1_ok_def)
  qed simp
next
  fix s p m
  assume "rp1_ok s" "rp1_valid p" "Rp1Gpio_mode p s = Inr m" "m \<noteq> ModeUnknown"
  then show "rp1_settable p m" by (simp add: rp1_ok_def rp1_valid_def rp1_mode_eq rp1_mode_of_settable)
next
  fix s p
  show "\<exists>b. Rp1Gpio_read p s = Inr b" by (simp add: Rp1Gpio_read_def)
next
  fix s p v
  assume s: "rp1_ok s" "rp1_valid p"
  define x where "x = (if v then GPIO_RIO_SET_OFFSET else GPIO_RIO_CLR_OFFSET)"
  define s' where "s' = reg_store hw (RioOffset + (GPIO_RIO_OUT + x)) (push_bit p 1) s"
  have x: "x \<in> {GPIO_RIO_SET_OFFSET, GPIO_RIO_CLR_OFFSET, GPIO_RIO_XOR_OFFSET}" by (simp add: x_def)
  have out: "rp1_out q s' = (if q = p then v else rp1_out q s)" if "q < 28" for q
    unfolding s'_def x_def by (rule out_write [OF that])
  have "Rp1Gpio_write hw p v s = Inr s'" by (simp add: Rp1Gpio_write_def s'_def x_def)
  with out_store [OF s(1) x s'_def] out rp1_read_out [OF s(1)] s(2)
  show "\<exists>s'. Rp1Gpio_write hw p v s = Inr s' \<and> rp1_ok s' \<and> (\<forall>h. rp1_valid h \<longrightarrow> Rp1Gpio_mode h s' = Rp1Gpio_mode h s) \<and>
      (Rp1Gpio_mode p s = Inr ModeOutput \<longrightarrow> Rp1Gpio_read p s' = Inr v) \<and>
      (\<forall>h. rp1_valid h \<and> h \<noteq> p \<and> Rp1Gpio_mode h s = Inr ModeOutput \<longrightarrow> Rp1Gpio_read h s' = Rp1Gpio_read h s)"
    by (simp add: rp1_valid_def)
next
  fix s p b
  assume s: "rp1_ok s" "rp1_valid p" "Rp1Gpio_read p s = Inr b"
  define s' where "s' = reg_store hw (RioOffset + (GPIO_RIO_OUT + GPIO_RIO_XOR_OFFSET)) (push_bit p 1) s"
  have x: "GPIO_RIO_XOR_OFFSET \<in> {GPIO_RIO_SET_OFFSET, GPIO_RIO_CLR_OFFSET, GPIO_RIO_XOR_OFFSET}" by simp
  have out: "rp1_out q s' = (rp1_out q s \<noteq> (q = p))" if "q < 28" for q
    unfolding s'_def by (rule out_xor [OF that])
  have "Rp1Gpio_toggle hw p s = Inr s'" by (simp add: Rp1Gpio_toggle_def s'_def)
  with out_store [OF s(1) x s'_def] out rp1_read_out [OF s(1)] s(2,3)
  show "\<exists>s'. Rp1Gpio_toggle hw p s = Inr s' \<and> rp1_ok s' \<and> (\<forall>h. rp1_valid h \<longrightarrow> Rp1Gpio_mode h s' = Rp1Gpio_mode h s) \<and>
      (Rp1Gpio_mode p s = Inr ModeOutput \<longrightarrow> Rp1Gpio_read p s' = Inr (\<not> b)) \<and>
      (\<forall>h. rp1_valid h \<and> h \<noteq> p \<and> Rp1Gpio_mode h s = Inr ModeOutput \<longrightarrow> Rp1Gpio_read h s' = Rp1Gpio_read h s)"
    by (auto simp: rp1_valid_def)
qed

end

sublocale rp1_hw \<subseteq> rp1: gpio_device "Rp1Gpio_vtable hw" rp1_valid rp1_ok rp1_settable
  by (rule rp1_gpio)

section \<open>Properties\<close>

definition rp1_reported :: "nat \<Rightarrow> pin_mode \<Rightarrow> pin_mode" where
  "rp1_reported p m = (if m = ModeAlt0 \<and> (p = 12 \<or> p = 13) \<or> m = ModeAlt3 \<and> (p = 18 \<or> p = 19) then ModePwm else m)"


definition rp1_demo :: rp1_dev where
  "rp1_demo = reg_store rp1_sim 1 0x1f (rp1_new\<lparr>isopen := True\<rparr>)"

lemma rp1_demo_ok: "rp1_ok rp1_demo"
proof -
  have "rp1_fsel p rp1_demo \<noteq> FselGpio" if "p < 28" for p
    using that by (auto simp: rp1_demo_def rp1_fsel_def ctrlReg_def reg_store_def rp1_sim_def rp1_new_def Let_def
        )
  then show ?thesis by (simp add: rp1_ok_def) (simp add: rp1_demo_def rp1_new_def)
qed


text \<open>Switching a pin of the RP1 to an alternate function other than PWM leaves its pad with the output driver disabled
  and the input buffer off, whatever they were before, so that the function can neither drive nor read the pin.\<close>

lemma rp1_alt_pad_disconnected:
  assumes "rp1_hw hw" "p < 28" "m \<in> {ModeAlt0, ModeAlt1, ModeAlt2, ModeAlt3, ModeAlt4, ModeAlt6, ModeAlt7, ModeAlt8}"
  shows "\<exists>d'. Rp1Gpio_setMode hw p m d = Inr d' \<and> padReg p d' AND GPIO_PAD_OUT_DISABLE \<noteq> 0 \<and> padReg p d' AND GPIO_PAD_IN_ENABLE = 0"
proof -
  define hwpad where "hwpad = (if p \<le> 8 then GPIO_PAD_HW_0TO8 else GPIO_PAD_HW_FROM9)"
  obtain f where f: "map_at mode2fsel m = Inr f" using assms(3) by (auto simp: map_at_def mode2fsel_def)
  have "Rp1Gpio_setMode hw p m d = Inr (rp1_put hw p hwpad ((ctrlReg p d AND NOT GPIO_CTRL_FUNCSEL_MASK) OR f) (Some False) d)"
    using assms(3) f by (auto simp: Rp1Gpio_setMode_def rp1_apply_def Let_def rp1_put_def hwpad_def)
  then show ?thesis
    using rp1_hw.put_effects(2) [OF assms(1,2,2)] by (simp add: hwpad_def)
qed

lemma rp1_alt_pad_disconnected_witness:
  "\<exists>d'. Rp1Gpio_setMode rp1_sim 14 ModeAlt4 rp1_demo = Inr d' \<and> padReg 14 d' AND GPIO_PAD_OUT_DISABLE \<noteq> 0 \<and> padReg 14 d' AND GPIO_PAD_IN_ENABLE = 0"
  by (rule rp1_alt_pad_disconnected [OF rp1_chip.rp1_hw_axioms]) simp_all

lemma mask_set: "v AND m = v \<Longrightarrow> (w AND NOT m OR v) AND m = (v :: u32)"
  by (simp add: bit.conj_disj_distrib2 and.assoc)

lemma mask_keep:
  fixes w m v k :: u32
  assumes "m AND k = 0" "v AND k = 0"
  shows "(w AND NOT m OR v) AND k = w AND k"
proof (rule bit_word_eqI)
  fix n
  assume "n < LENGTH(32)"
  moreover have "\<not> (bit m n \<and> bit k n)" "\<not> (bit v n \<and> bit k n)"
    using assms by (metis bit_and_iff bit_0_eq bot_apply bot_bool_def)+
  ultimately show "bit ((w AND NOT m OR v) AND k) n = bit (w AND k) n" by (auto simp: bit_simps)
qed

lemma rp1_drive_field:
  "uint (drop_bit GPIO_PAD_DRIVE_LSB (push_bit GPIO_PAD_DRIVE_LSB (word_of_int v :: u32) AND GPIO_PAD_DRIVE_MASK)) = v mod 4"
proof -
  let ?x = "word_of_int v :: u32"
  have "drop_bit 4 (push_bit 4 ?x) = take_bit 28 ?x" by (rule bit_word_eqI) (auto simp: bit_simps)
  moreover have "drop_bit 4 (push_bit 4 ?x AND 0x30) = drop_bit 4 (push_bit 4 ?x) AND mask 2"
    by (simp add: drop_bit_and field_masks(1) [symmetric])
  ultimately have "drop_bit 4 (push_bit 4 ?x AND 0x30) = take_bit 2 ?x"
    by (simp only: take_bit_eq_mask [symmetric] take_bit_take_bit) simp
  moreover have "uint (take_bit 2 ?x) = v mod 4"
    by (simp only: unsigned_take_bit_eq uint_word_of_int_eq take_bit_take_bit) (simp add: take_bit_eq_mod)
  ultimately show ?thesis by (simp only:)
qed



end
