(* ===== verification/GpioPin.thy ===== *)
theory GpioPin
  imports GpioDevice
begin

text \<open>
  A pin of a connector, \<open>Piduino::Pin\<close> (\<open>src/gpio/gpiopin.cpp\<close>, \<open>src/gpio/gpiopin_p.cpp\<close>,
  \<open>src/gpio/gpiopin_p.h\<close>). A pin works through the device of its connector, or through the character device of
  the kernel once that has been enabled for it. Both are given by their methods: \<open>vt\<close> for the device and
  \<open>dv\<close> for the character device.

  An operation acts on the pin and the device of its connector, if there is one. Its outcome is \<open>None\<close> where
  the source dereferences a null pointer; otherwise a value or an exception, with the state that is left.
\<close>

unbundle bit_operations_syntax

section \<open>State\<close>

datatype pin_type = TypeGpio | TypePower | TypeUsb | TypeSound | TypeVideo | TypeNotConnected | TypeNet | TypeUnknown

datatype pin_edge = EdgeNone | EdgeRising | EdgeFalling | EdgeBoth | EdgeUnknown

datatype pin_numbering = NumberingLogical | NumberingMcu | NumberingSystem | NumberingUnknown

record pin_number =
  num_logical :: int
  num_mcu :: nat
  num_system :: int
  num_row :: int
  num_column :: int
  num_chip :: int
  num_offset :: int

record pin_descriptor =
  desc_type :: pin_type
  desc_num :: pin_number
  desc_name :: "(pin_mode \<times> string) list"

record 'd pin =
  p_isopen :: bool
  descriptor :: pin_descriptor
  holdMode :: pin_mode
  holdPull :: pin_pull
  holdState :: bool
  p_mode :: pin_mode
  p_pull :: pin_pull
  p_drive :: int
  gpiodev :: "'d option"

definition pin_new :: "pin_descriptor \<Rightarrow> 'd pin" where
  "pin_new desc = \<lparr>p_isopen = False, descriptor = desc, holdMode = ModeUnknown, holdPull = PullUnknown,
     holdState = False, p_mode = ModeUnknown, p_pull = PullUnknown, p_drive = -1, gpiodev = None\<rparr>"

text \<open>The methods of \<open>GpioDev2\<close> that a pin calls; \<open>n_new\<close> is a new object for the pin.\<close>

record 'd dev2_vtable =
  n_new :: 'd
  n_open :: "'d \<Rightarrow> bool \<times> 'd"
  n_isOpen :: "'d \<Rightarrow> bool"
  n_mode :: "'d \<Rightarrow> pin_mode \<times> 'd"
  n_setMode :: "pin_mode \<Rightarrow> 'd \<Rightarrow> 'd res"
  n_pull :: "'d \<Rightarrow> pin_pull \<times> 'd"
  n_setPull :: "pin_pull \<Rightarrow> 'd \<Rightarrow> 'd res"
  n_read :: "'d \<Rightarrow> bool"
  n_write :: "bool \<Rightarrow> 'd \<Rightarrow> 'd"
  n_error :: "'d \<Rightarrow> int"
  n_modes :: "(pin_mode \<times> string) list"
  n_setDebounce :: "u32 \<Rightarrow> 'd \<Rightarrow> 'd"
  n_waitForInterrupt :: "pin_edge \<Rightarrow> int \<Rightarrow> 'd \<Rightarrow> bool \<times> 'd"
  n_attachInterrupt :: "pin_edge \<Rightarrow> 'd \<Rightarrow> bool \<times> 'd"
  n_detachInterrupt :: "'d \<Rightarrow> 'd"

section \<open>Operations with exceptions\<close>

type_synonym ('s, 'd) pin_world = "'d pin \<times> 's option"
type_synonym ('s, 'd, 'a) pin_op = "('s, 'd) pin_world \<Rightarrow> ('a res \<times> ('s, 'd) pin_world) option"

definition ret :: "'a \<Rightarrow> ('s, 'd, 'a) pin_op" where
  "ret a w = Some (Inr a, w)"

definition throw :: "exn \<Rightarrow> ('s, 'd, 'a) pin_op" where
  "throw x w = Some (Inl x, w)"

definition seq :: "('s, 'd, 'a) pin_op \<Rightarrow> ('a \<Rightarrow> ('s, 'd, 'b) pin_op) \<Rightarrow> ('s, 'd, 'b) pin_op" where
  "seq m f w = (case m w of None \<Rightarrow> None | Some (Inl x, w') \<Rightarrow> Some (Inl x, w') | Some (Inr a, w') \<Rightarrow> f a w')"

text \<open>Reading and changing the pin, and calls of the device; a call of a missing device is undefined.\<close>

definition get_pin :: "('d pin \<Rightarrow> ('s, 'd, 'a) pin_op) \<Rightarrow> ('s, 'd, 'a) pin_op" where
  "get_pin f w = f (fst w) w"

definition put_pin :: "('d pin \<Rightarrow> 'd pin) \<Rightarrow> ('s, 'd, unit) pin_op" where
  "put_pin f w = Some (Inr (), f (fst w), snd w)"

definition dev_get :: "('s \<Rightarrow> 'a res) \<Rightarrow> ('s, 'd, 'a) pin_op" where
  "dev_get f w = (case snd w of None \<Rightarrow> None | Some s \<Rightarrow> Some (f s, w))"

definition dev_do :: "('s \<Rightarrow> 's res) \<Rightarrow> ('s, 'd, unit) pin_op" where
  "dev_do f w = (case snd w of None \<Rightarrow> None
     | Some s \<Rightarrow> (case f s of Inl x \<Rightarrow> Some (Inl x, w) | Inr s' \<Rightarrow> Some (Inr (), fst w, Some s')))"

definition has_device :: "(bool \<Rightarrow> ('s, 'd, 'a) pin_op) \<Rightarrow> ('s, 'd, 'a) pin_op" where
  "has_device f w = f (snd w \<noteq> None) w"

definition dev2_do :: "('d \<Rightarrow> 'd res) \<Rightarrow> ('s, 'd, unit) pin_op" where
  "dev2_do f w = (case gpiodev (fst w) of None \<Rightarrow> None
     | Some n \<Rightarrow> (case f n of Inl x \<Rightarrow> Some (Inl x, w) | Inr n' \<Rightarrow> Some (Inr (), (fst w)\<lparr>gpiodev := Some n'\<rparr>, snd w)))"

definition dev2_call :: "('d \<Rightarrow> 'a \<times> 'd) \<Rightarrow> ('s, 'd, 'a) pin_op" where
  "dev2_call f w = (case gpiodev (fst w) of None \<Rightarrow> None
     | Some n \<Rightarrow> (case f n of (a, n') \<Rightarrow> Some (Inr a, (fst w)\<lparr>gpiodev := Some n'\<rparr>, snd w)))"

section \<open>Private operations\<close>

definition isGpio :: "'d pin \<Rightarrow> bool" where
  "isGpio p = (desc_type (descriptor p) = TypeGpio)"

definition mcuNumber :: "'d pin \<Rightarrow> nat" where
  "mcuNumber p = num_mcu (desc_num (descriptor p))"

definition isGpioDevEnabled :: "'d pin \<Rightarrow> bool" where
  "isGpioDevEnabled p = (gpiodev p \<noteq> None)"

definition isGpioDevOpen :: "'d dev2_vtable \<Rightarrow> 'd pin \<Rightarrow> bool" where
  "isGpioDevOpen dv p = (case gpiodev p of None \<Rightarrow> False | Some n \<Rightarrow> n_isOpen dv n)"

definition setHoldPull :: "'s gpio_vtable \<Rightarrow> ('s, 'd, unit) pin_op" where
  "setHoldPull vt = get_pin (\<lambda>p. has_device (\<lambda>dev.
     if holdPull p = PullUnknown \<and> dev
     then seq (dev_get (g_pull vt (mcuNumber p))) (\<lambda>pl. put_pin (\<lambda>p. p\<lparr>holdPull := pl\<rparr>))
     else ret ()))"

definition setHoldMode :: "'s gpio_vtable \<Rightarrow> ('s, 'd, unit) pin_op" where
  "setHoldMode vt = get_pin (\<lambda>p. has_device (\<lambda>dev.
     if holdMode p = ModeUnknown \<and> dev
     then seq (dev_get (g_mode vt (mcuNumber p))) (\<lambda>m.
          seq (put_pin (\<lambda>p. p\<lparr>holdMode := m\<rparr>)) (\<lambda>_.
            if m = ModeOutput
            then seq (dev_get (g_read vt (mcuNumber p))) (\<lambda>v. put_pin (\<lambda>p. p\<lparr>holdState := v\<rparr>))
            else ret ()))
     else ret ()))"

definition writePull :: "'s gpio_vtable \<Rightarrow> 'd dev2_vtable \<Rightarrow> ('s, 'd, unit) pin_op" where
  "writePull vt dv = get_pin (\<lambda>p. has_device (\<lambda>dev.
     if isGpioDevOpen dv p then dev2_do (n_setPull dv (p_pull p))
     else if dev then seq (setHoldPull vt) (\<lambda>_. dev_do (g_setPull vt (mcuNumber p) (p_pull p)))
     else ret ()))"

definition readPull :: "'s gpio_vtable \<Rightarrow> 'd dev2_vtable \<Rightarrow> ('s, 'd, unit) pin_op" where
  "readPull vt dv = get_pin (\<lambda>p. has_device (\<lambda>dev.
     if isGpioDevOpen dv p then seq (dev2_call (n_pull dv)) (\<lambda>pl. put_pin (\<lambda>p. p\<lparr>p_pull := pl\<rparr>))
     else if dev then seq (dev_get (\<lambda>s. Inr (g_flags vt s))) (\<lambda>fl.
       if fl AND hasPullRead \<noteq> 0
       then seq (dev_get (g_pull vt (mcuNumber p))) (\<lambda>pl. put_pin (\<lambda>p. p\<lparr>p_pull := pl\<rparr>))
       else ret ())
     else ret ()))"

definition readMode :: "'s gpio_vtable \<Rightarrow> 'd dev2_vtable \<Rightarrow> ('s, 'd, unit) pin_op" where
  "readMode vt dv = get_pin (\<lambda>p. has_device (\<lambda>dev.
     if isGpioDevOpen dv p then seq (dev2_call (n_mode dv)) (\<lambda>m. put_pin (\<lambda>p. p\<lparr>p_mode := m\<rparr>))
     else if dev then seq (dev_get (g_mode vt (mcuNumber p))) (\<lambda>m. put_pin (\<lambda>p. p\<lparr>p_mode := m\<rparr>))
     else ret ()))"

definition writeMode :: "'s gpio_vtable \<Rightarrow> 'd dev2_vtable \<Rightarrow> ('s, 'd, unit) pin_op" where
  "writeMode vt dv = seq (setHoldMode vt) (\<lambda>_. get_pin (\<lambda>p.
     if isGpioDevOpen dv p then dev2_do (n_setMode dv (p_mode p))
     else dev_do (g_setMode vt (mcuNumber p) (p_mode p))))"

definition writeDrive :: "'s gpio_vtable \<Rightarrow> ('s, 'd, unit) pin_op" where
  "writeDrive vt = get_pin (\<lambda>p. has_device (\<lambda>dev.
     if dev then seq (dev_get (\<lambda>s. Inr (g_flags vt s))) (\<lambda>fl.
       if fl AND hasDrive \<noteq> 0 then dev_do (g_setDrive vt (mcuNumber p) (p_drive p)) else throw Domain_error)
     else ret ()))"

definition readDrive :: "'s gpio_vtable \<Rightarrow> ('s, 'd, unit) pin_op" where
  "readDrive vt = get_pin (\<lambda>p. has_device (\<lambda>dev.
     if dev then seq (dev_get (\<lambda>s. Inr (g_flags vt s))) (\<lambda>fl.
       if fl AND hasDrive \<noteq> 0
       then seq (dev_get (g_drive vt (mcuNumber p))) (\<lambda>v. put_pin (\<lambda>p. p\<lparr>p_drive := v\<rparr>))
       else throw Domain_error)
     else ret ()))"

definition enableGpioDev :: "'s gpio_vtable \<Rightarrow> 'd dev2_vtable \<Rightarrow> bool \<Rightarrow> ('s, 'd, bool) pin_op" where
  "enableGpioDev vt dv enable = seq (get_pin (\<lambda>p.
     if enable \<and> gpiodev p = None \<and> isGpio p
     then seq (put_pin (\<lambda>p. p\<lparr>gpiodev := Some (n_new dv)\<rparr>)) (\<lambda>_.
       if p_isopen p
       then seq (setHoldMode vt) (\<lambda>_. seq (setHoldPull vt) (\<lambda>_. seq (dev2_call (n_open dv)) (\<lambda>ok.
              if ok then ret () else put_pin (\<lambda>p. p\<lparr>gpiodev := None\<rparr>))))
       else ret ())
     else if \<not> enable \<and> gpiodev p \<noteq> None then put_pin (\<lambda>p. p\<lparr>gpiodev := None\<rparr>)
     else ret ())) (\<lambda>_. get_pin (\<lambda>p. ret (gpiodev p \<noteq> None)))"

section \<open>Public operations\<close>

definition Pin_pull :: "'s gpio_vtable \<Rightarrow> 'd dev2_vtable \<Rightarrow> ('s, 'd, pin_pull) pin_op" where
  "Pin_pull vt dv = get_pin (\<lambda>p.
     if isGpio p
     then seq (if p_isopen p then readPull vt dv else ret ()) (\<lambda>_. get_pin (\<lambda>p. ret (p_pull p)))
     else throw Domain_error)"

definition Pin_setPull :: "'s gpio_vtable \<Rightarrow> 'd dev2_vtable \<Rightarrow> pin_pull \<Rightarrow> ('s, 'd, unit) pin_op" where
  "Pin_setPull vt dv pl = get_pin (\<lambda>p.
     if isGpio p
     then seq (put_pin (\<lambda>p. p\<lparr>p_pull := pl\<rparr>)) (\<lambda>_. if p_isopen p then writePull vt dv else ret ())
     else throw Domain_error)"

definition Pin_mode :: "'s gpio_vtable \<Rightarrow> 'd dev2_vtable \<Rightarrow> ('s, 'd, pin_mode) pin_op" where
  "Pin_mode vt dv = get_pin (\<lambda>p.
     seq (if isGpio p \<and> p_isopen p then readMode vt dv else ret ()) (\<lambda>_. get_pin (\<lambda>p. ret (p_mode p))))"

definition Pin_setMode :: "'s gpio_vtable \<Rightarrow> 'd dev2_vtable \<Rightarrow> pin_mode \<Rightarrow> ('s, 'd, unit) pin_op" where
  "Pin_setMode vt dv m = get_pin (\<lambda>p.
     if isGpio p
     then seq (put_pin (\<lambda>p. p\<lparr>p_mode := m\<rparr>)) (\<lambda>_. if p_isopen p then writeMode vt dv else ret ())
     else throw Domain_error)"

definition Pin_drive :: "'s gpio_vtable \<Rightarrow> ('s, 'd, int) pin_op" where
  "Pin_drive vt = get_pin (\<lambda>p.
     if isGpio p
     then seq (if p_isopen p then readDrive vt else ret ()) (\<lambda>_. get_pin (\<lambda>p. ret (p_drive p)))
     else throw Domain_error)"

definition Pin_setDrive :: "'s gpio_vtable \<Rightarrow> int \<Rightarrow> ('s, 'd, unit) pin_op" where
  "Pin_setDrive vt v = get_pin (\<lambda>p.
     if isGpio p
     then seq (put_pin (\<lambda>p. p\<lparr>p_drive := v\<rparr>)) (\<lambda>_. if p_isopen p then writeDrive vt else ret ())
     else throw Domain_error)"

definition Pin_flags :: "'s gpio_vtable \<Rightarrow> ('s, 'd, u32) pin_op" where
  "Pin_flags vt = get_pin (\<lambda>p. has_device (\<lambda>dev.
     if isGpio p \<and> dev then dev_get (\<lambda>s. Inr (g_flags vt s)) else ret 0))"

definition Pin_number :: "pin_numbering \<Rightarrow> 'd pin \<Rightarrow> int res" where
  "Pin_number n p =
    (case n of
       NumberingLogical \<Rightarrow> Inr (num_logical (desc_num (descriptor p)))
     | NumberingMcu \<Rightarrow> Inr (int (mcuNumber p))
     | NumberingSystem \<Rightarrow> Inr (num_system (desc_num (descriptor p)))
     | NumberingUnknown \<Rightarrow> Inl Invalid_argument)"

definition Pin_modes :: "(pin_mode \<times> string) list \<Rightarrow> 'd dev2_vtable \<Rightarrow> ('s, 'd, (pin_mode \<times> string) list) pin_op" where
  "Pin_modes device_modes dv = get_pin (\<lambda>p. has_device (\<lambda>dev.
     if \<not> isGpio p then throw Domain_error
     else if isGpioDevEnabled p \<or> \<not> dev then dev2_call (\<lambda>n. (n_modes dv, n))
     else ret device_modes))"

definition Pin_name_of :: "pin_mode \<Rightarrow> 'd pin \<Rightarrow> string res" where
  "Pin_name_of m p = map_at (desc_name (descriptor p)) m"

text \<open>\<open>name\<close> falls back to the name for input mode when the mode cannot be read or has no name.\<close>

definition Pin_name :: "'s gpio_vtable \<Rightarrow> 'd dev2_vtable \<Rightarrow> ('s, 'd, string) pin_op" where
  "Pin_name vt dv = get_pin (\<lambda>p w.
     let default = (\<lambda>w. Some (Pin_name_of ModeInput (fst w), w))
     in if p_isopen p \<and> isGpio p
        then case Pin_mode vt dv w of
               None \<Rightarrow> None
             | Some (Inl x, w') \<Rightarrow> default w'
             | Some (Inr m, w') \<Rightarrow> (case Pin_name_of m (fst w') of Inl x \<Rightarrow> default w' | Inr s \<Rightarrow> Some (Inr s, w'))
        else default w)"

definition Pin_write :: "'s gpio_vtable \<Rightarrow> 'd dev2_vtable \<Rightarrow> bool \<Rightarrow> ('s, 'd, unit) pin_op" where
  "Pin_write vt dv v = get_pin (\<lambda>p.
     if p_isopen p \<and> isGpio p
     then if isGpioDevOpen dv p
          then seq (dev2_call (\<lambda>n. let n' = n_write dv v n in (n_error dv n', n'))) (\<lambda>e.
                 if e \<noteq> 0 then throw (System_error e) else ret ())
          else dev_do (g_write vt (mcuNumber p) v)
     else ret ())"

definition Pin_read :: "'s gpio_vtable \<Rightarrow> 'd dev2_vtable \<Rightarrow> ('s, 'd, bool) pin_op" where
  "Pin_read vt dv = get_pin (\<lambda>p.
     if p_isopen p \<and> isGpio p
     then if isGpioDevOpen dv p then dev2_call (\<lambda>n. (n_read dv n, n))
          else dev_get (g_read vt (mcuNumber p))
     else ret False)"

definition Pin_toggle :: "'s gpio_vtable \<Rightarrow> 'd dev2_vtable \<Rightarrow> ('s, 'd, unit) pin_op" where
  "Pin_toggle vt dv = get_pin (\<lambda>p.
     if p_isopen p \<and> isGpio p
     then seq (if isGpioDevOpen dv p then ret 0 else dev_get (\<lambda>s. Inr (g_flags vt s))) (\<lambda>fl.
            if fl AND hasToggle \<noteq> 0 then dev_do (g_toggle vt (mcuNumber p))
            else seq (Pin_read vt dv) (\<lambda>b. Pin_write vt dv (\<not> b)))
     else ret ())"

definition Pin_release :: "'s gpio_vtable \<Rightarrow> 'd dev2_vtable \<Rightarrow> ('s, 'd, unit) pin_op" where
  "Pin_release vt dv = get_pin (\<lambda>p.
     if p_isopen p \<and> isGpio p
     then seq (if holdMode p \<noteq> ModeUnknown
               then seq (Pin_setMode vt dv (holdMode p)) (\<lambda>_. get_pin (\<lambda>p.
                    seq (if holdMode p = ModeOutput then Pin_write vt dv (holdState p) else ret ()) (\<lambda>_.
                      put_pin (\<lambda>p. p\<lparr>holdMode := ModeUnknown\<rparr>))))
               else ret ()) (\<lambda>_. get_pin (\<lambda>p.
            if holdPull p \<noteq> PullUnknown
            then seq (Pin_setPull vt dv (holdPull p)) (\<lambda>_. put_pin (\<lambda>p. p\<lparr>holdPull := PullUnknown\<rparr>))
            else ret ()))
     else ret ())"

definition Pin_waitForInterrupt :: "'s gpio_vtable \<Rightarrow> 'd dev2_vtable \<Rightarrow> pin_edge \<Rightarrow> int \<Rightarrow> int \<Rightarrow> ('s, 'd, unit) pin_op" where
  "Pin_waitForInterrupt vt dv edge debounce_ms timeout_ms = get_pin (\<lambda>p.
     if p_isopen p \<and> isGpio p
     then seq (enableGpioDev vt dv True) (\<lambda>ok.
            if \<not> ok then throw Domain_error
            else seq (if debounce_ms \<ge> 0 then dev2_call (\<lambda>n. ((), n_setDebounce dv (word_of_int debounce_ms) n)) else ret ()) (\<lambda>_.
                 seq (dev2_call (n_waitForInterrupt dv edge timeout_ms)) (\<lambda>hit.
                   if \<not> hit
                   then seq (dev2_call (\<lambda>n. (n_error dv n, n))) (\<lambda>e. if e \<noteq> 0 then throw (System_error e) else ret ())
                   else ret ())))
     else ret ())"

definition Pin_attachInterrupt :: "'s gpio_vtable \<Rightarrow> 'd dev2_vtable \<Rightarrow> pin_edge \<Rightarrow> int \<Rightarrow> ('s, 'd, unit) pin_op" where
  "Pin_attachInterrupt vt dv edge debounce_ms = get_pin (\<lambda>p.
     if p_isopen p \<and> isGpio p
     then seq (enableGpioDev vt dv True) (\<lambda>ok.
            if \<not> ok then throw Domain_error
            else seq (if debounce_ms \<ge> 0 then dev2_call (\<lambda>n. ((), n_setDebounce dv (word_of_int debounce_ms) n)) else ret ()) (\<lambda>_.
                 seq (dev2_call (n_attachInterrupt dv edge)) (\<lambda>hit.
                   if \<not> hit then seq (dev2_call (\<lambda>n. (n_error dv n, n))) (\<lambda>e. throw (System_error e))
                   else ret ())))
     else ret ())"

definition Pin_detachInterrupt :: "'d dev2_vtable \<Rightarrow> ('s, 'd, unit) pin_op" where
  "Pin_detachInterrupt dv = get_pin (\<lambda>p.
     if isGpioDevEnabled p then dev2_call (\<lambda>n. ((), n_detachInterrupt dv n)) else ret ())"

definition Pin_open :: "'s gpio_vtable \<Rightarrow> 'd dev2_vtable \<Rightarrow> ('s, 'd, bool) pin_op" where
  "Pin_open vt dv = seq (get_pin (\<lambda>p.
     if \<not> p_isopen p
     then if isGpio p
          then seq (if isGpioDevEnabled p then dev2_call (n_open dv) else ret True) (\<lambda>ok.
               seq (put_pin (\<lambda>p. p\<lparr>p_isopen := ok\<rparr>)) (\<lambda>_.
                 if ok
                 then seq (if p_mode p \<noteq> ModeUnknown then writeMode vt dv else readMode vt dv) (\<lambda>_. has_device (\<lambda>dev.
                   if dev
                   then seq (if p_pull p \<noteq> PullUnknown then writePull vt dv else readPull vt dv) (\<lambda>_.
                     if p_drive p \<noteq> -1 then writeDrive vt
                     else seq (dev_get (\<lambda>s. Inr (g_flags vt s))) (\<lambda>fl.
                            if fl AND hasDrive \<noteq> 0 then readDrive vt else ret ()))
                   else ret ()))
                 else ret ()))
          else put_pin (\<lambda>p. p\<lparr>p_isopen := True\<rparr>)
     else ret ())) (\<lambda>_. get_pin (\<lambda>p. ret (p_isopen p)))"

text \<open>\<open>releaseOnClose\<close> is the setting of the GPIO controller.\<close>

definition Pin_close :: "'s gpio_vtable \<Rightarrow> 'd dev2_vtable \<Rightarrow> bool \<Rightarrow> ('s, 'd, unit) pin_op" where
  "Pin_close vt dv releaseOnClose = get_pin (\<lambda>p.
     if p_isopen p
     then seq (if isGpio p
               then seq (Pin_detachInterrupt dv) (\<lambda>_. seq (enableGpioDev vt dv False) (\<lambda>_.
                      if releaseOnClose then Pin_release vt dv else ret ()))
               else ret ()) (\<lambda>_. put_pin (\<lambda>p. p\<lparr>p_isopen := False\<rparr>))
     else ret ())"

section \<open>Names\<close>

definition pin_types :: "(pin_type \<times> string) list" where
  "pin_types = [(TypeGpio, ''Gpio''), (TypePower, ''Power''), (TypeUsb, ''Usb''), (TypeSound, ''Sound''), (TypeVideo, ''Video''),
     (TypeNotConnected, ''Not Connected''), (TypeUnknown, ''Unknown'')]"

definition pin_numberings :: "(pin_numbering \<times> string) list" where
  "pin_numberings = [(NumberingLogical, ''Logical''), (NumberingMcu, ''Mcu''), (NumberingSystem, ''System''), (NumberingUnknown, ''Unknown'')]"

definition pin_pulls :: "(pin_pull \<times> string) list" where
  "pin_pulls = [(PullOff, ''off''), (PullDown, ''down''), (PullUp, ''up''), (PullUnknown, ''unk'')]"

section \<open>Running the operations\<close>

lemmas pin_ops = ret_def throw_def seq_def get_pin_def put_pin_def dev_get_def dev_do_def has_device_def dev2_do_def dev2_call_def

text \<open>What a program may do with an open pin; exceptions are caught and the program goes on.\<close>

datatype pin_cmd = SetMode pin_mode | SetPull pin_pull | WriteLevel bool | Toggle

fun pin_step :: "'s gpio_vtable \<Rightarrow> 'd dev2_vtable \<Rightarrow> pin_cmd \<Rightarrow> ('s, 'd, unit) pin_op" where
  "pin_step vt dv (SetMode m) = Pin_setMode vt dv m"
| "pin_step vt dv (SetPull pl) = Pin_setPull vt dv pl"
| "pin_step vt dv (WriteLevel v) = Pin_write vt dv v"
| "pin_step vt dv Toggle = Pin_toggle vt dv"

fun pin_run :: "'s gpio_vtable \<Rightarrow> 'd dev2_vtable \<Rightarrow> pin_cmd list \<Rightarrow> ('s, 'd) pin_world \<Rightarrow> ('s, 'd) pin_world option" where
  "pin_run vt dv [] w = Some w"
| "pin_run vt dv (c # cs) w = (case pin_step vt dv c w of None \<Rightarrow> None | Some (r, w') \<Rightarrow> pin_run vt dv cs w')"

text \<open>An open GPIO pin that works through the device of its connector.\<close>

definition pin_on_device :: "'d pin \<Rightarrow> nat \<Rightarrow> bool" where
  "pin_on_device p g \<longleftrightarrow> p_isopen p \<and> isGpio p \<and> mcuNumber p = g \<and> gpiodev p = None"

lemma pin_on_device_upd [simp]:
  "pin_on_device (p\<lparr>holdMode := a\<rparr>) g = pin_on_device p g" "pin_on_device (p\<lparr>holdPull := b\<rparr>) g = pin_on_device p g"
  "pin_on_device (p\<lparr>holdState := c\<rparr>) g = pin_on_device p g" "pin_on_device (p\<lparr>p_mode := m\<rparr>) g = pin_on_device p g"
  "pin_on_device (p\<lparr>p_pull := pl\<rparr>) g = pin_on_device p g"
  by (simp_all add: pin_on_device_def isGpio_def mcuNumber_def)

lemma pin_on_deviceD:
  assumes "pin_on_device p g"
  shows "p_isopen p" "isGpio p" "mcuNumber p = g" "\<not> isGpioDevOpen dv p" "gpiodev p = None"
  using assms by (simp_all add: pin_on_device_def isGpioDevOpen_def)

lemma pin_fields_upd [simp]:
  "isGpio (p\<lparr>holdMode := a\<rparr>) = isGpio p" "isGpio (p\<lparr>holdPull := b\<rparr>) = isGpio p" "isGpio (p\<lparr>holdState := c\<rparr>) = isGpio p"
  "isGpio (p\<lparr>p_mode := m\<rparr>) = isGpio p" "isGpio (p\<lparr>p_pull := pl\<rparr>) = isGpio p"
  "mcuNumber (p\<lparr>holdMode := a\<rparr>) = mcuNumber p" "mcuNumber (p\<lparr>holdPull := b\<rparr>) = mcuNumber p" "mcuNumber (p\<lparr>holdState := c\<rparr>) = mcuNumber p"
  "mcuNumber (p\<lparr>p_mode := m\<rparr>) = mcuNumber p" "mcuNumber (p\<lparr>p_pull := pl\<rparr>) = mcuNumber p"
  "isGpioDevOpen dv (p\<lparr>holdMode := a\<rparr>) = isGpioDevOpen dv p" "isGpioDevOpen dv (p\<lparr>holdPull := b\<rparr>) = isGpioDevOpen dv p"
  "isGpioDevOpen dv (p\<lparr>holdState := c\<rparr>) = isGpioDevOpen dv p" "isGpioDevOpen dv (p\<lparr>p_mode := m\<rparr>) = isGpioDevOpen dv p"
  "isGpioDevOpen dv (p\<lparr>p_pull := pl\<rparr>) = isGpioDevOpen dv p"
  by (simp_all add: isGpio_def mcuNumber_def isGpioDevOpen_def)

section \<open>What is held can be restored\<close>

text \<open>
  The pin and the device \<open>(p, s)\<close> after a program has used pin \<open>g\<close> of a device that was in state \<open>s0\<close>: the mode and the
  pull of the pin are those of \<open>s0\<close>, or were saved in the pin before they were changed; the other pins are
  as they were.
\<close>

definition held :: "'s gpio_vtable \<Rightarrow> (nat \<Rightarrow> bool) \<Rightarrow> nat \<Rightarrow> 's \<Rightarrow> 'd pin \<Rightarrow> 's \<Rightarrow> bool" where
  "held vt valid g s0 p s \<longleftrightarrow> pin_on_device p g \<and>
    g_mode vt g s0 = (if holdMode p = ModeUnknown then g_mode vt g s else Inr (holdMode p)) \<and>
    g_pull vt g s0 = (if holdPull p = PullUnknown then g_pull vt g s else Inr (holdPull p)) \<and>
    (\<forall>h. valid h \<and> h \<noteq> g \<longrightarrow> g_mode vt h s = g_mode vt h s0 \<and> g_pull vt h s = g_pull vt h s0)"

context gpio_pull_device
begin

lemma setHoldMode_held:
  assumes "ok s" "valid g" "held vt valid g s0 p s" "g_mode vt g s0 = Inr m0" "m0 \<noteq> ModeUnknown"
  shows "\<exists>p'. setHoldMode vt (p, Some s) = Some (Inr (), p', Some s) \<and> held vt valid g s0 p' s \<and> holdMode p' = m0 \<and>
    p_mode p' = p_mode p \<and> holdPull p' = holdPull p \<and>
    (if holdMode p = ModeUnknown then m0 = ModeOutput \<longrightarrow> g_read vt g s = Inr (holdState p') else holdState p' = holdState p)"
proof (cases "holdMode p = ModeUnknown")
  case True
  have g: "mcuNumber p = g" using assms(3) by (simp add: held_def pin_on_device_def)
  have m: "g_mode vt g s = Inr m0" using assms(3,4) True by (simp add: held_def)
  obtain b where "g_read vt g s = Inr b" using read_ok [OF assms(1,2)] by blast
  with True g m assms(3-5) show ?thesis
    by (cases "m0 = ModeOutput") (simp_all add: setHoldMode_def pin_ops held_def)
next
  case False
  with assms(3,4) show ?thesis by (simp add: setHoldMode_def pin_ops held_def)
qed

lemma setHoldPull_held:
  assumes "ok s" "valid g" "held vt valid g s0 p s" "g_pull vt g s0 = Inr p0" "p0 \<noteq> PullUnknown"
  shows "\<exists>p'. setHoldPull vt (p, Some s) = Some (Inr (), p', Some s) \<and> held vt valid g s0 p' s \<and> holdPull p' = p0 \<and>
    p_pull p' = p_pull p \<and> holdMode p' = holdMode p \<and> holdState p' = holdState p"
proof (cases "holdPull p = PullUnknown")
  case True
  have g: "mcuNumber p = g" using assms(3) by (simp add: held_def pin_on_device_def)
  have m: "g_pull vt g s = Inr p0" using assms(3,4) True by (simp add: held_def)
  with True g m assms(3-5) show ?thesis by (simp add: setHoldPull_def pin_ops held_def)
next
  case False
  with assms(3,4) show ?thesis by (simp add: setHoldPull_def pin_ops held_def)
qed

lemma setMode_held:
  assumes "ok s" "valid g" "held vt valid g s0 p s" "g_mode vt g s0 = Inr m0" "m0 \<noteq> ModeUnknown"
  shows "\<exists>r p' s'. Pin_setMode vt dv m (p, Some s) = Some (r, p', Some s') \<and> ok s' \<and> held vt valid g s0 p' s' \<and> holdMode p' = m0 \<and>
    holdPull p' = holdPull p \<and>
    (if holdMode p = ModeUnknown then m0 = ModeOutput \<longrightarrow> g_read vt g s = Inr (holdState p') else holdState p' = holdState p) \<and>
    (settable g m \<longrightarrow> r = Inr () \<and> g_mode vt g s' = Inr m)"
proof -
  let ?p = "p\<lparr>p_mode := m\<rparr>"
  have "held vt valid g s0 ?p s" using assms(3) by (simp add: held_def)
  from setHoldMode_held [OF assms(1,2) this assms(4,5)] obtain p' where p': "setHoldMode vt (?p, Some s) = Some (Inr (), p', Some s)"
    "held vt valid g s0 p' s" "holdMode p' = m0" "p_mode p' = m" "holdPull p' = holdPull p"
    "if holdMode p = ModeUnknown then m0 = ModeOutput \<longrightarrow> g_read vt g s = Inr (holdState p') else holdState p' = holdState p"
    by auto
  have on: "pin_on_device p g" "pin_on_device p' g" using assms(3) p'(2) by (simp_all add: held_def)
  have run: "Pin_setMode vt dv m (p, Some s) = dev_do (g_setMode vt g m) (p', Some s)"
    using p'(1,4) pin_on_deviceD [OF on(1)] pin_on_deviceD [OF on(2)]
    by (simp add: Pin_setMode_def writeMode_def pin_ops)
  show ?thesis
  proof (cases "g_setMode vt g m s")
    case (Inl x)
    then have "\<not> settable g m" using setMode_ok [OF assms(1,2), of m] by auto
    with Inl run p' assms(1) show ?thesis by (simp add: dev_do_def)
  next
    case (Inr s')
    have "held vt valid g s0 p' s'"
      using p'(2,3) assms(4,5) Inr setMode_other [OF assms(1,2) _ _ Inr] setMode_pull [OF assms(1,2) _ Inr] assms(2)
      unfolding held_def by simp
    moreover have "settable g m \<longrightarrow> g_mode vt g s' = Inr m" using setMode_ok [OF assms(1,2), of m] Inr by auto
    ultimately show ?thesis using Inr run p' setMode_inv [OF assms(1,2) Inr] by (simp add: dev_do_def)
  qed
qed

lemma setPull_held:
  assumes "ok s" "valid g" "held vt valid g s0 p s" "g_pull vt g s0 = Inr p0" "p0 \<noteq> PullUnknown"
  shows "\<exists>p' s'. Pin_setPull vt dv pl (p, Some s) = Some (Inr (), p', Some s') \<and> ok s' \<and> held vt valid g s0 p' s' \<and> holdPull p' = p0 \<and>
    holdMode p' = holdMode p \<and> holdState p' = holdState p \<and> (pl \<noteq> PullUnknown \<longrightarrow> g_pull vt g s' = Inr pl) \<and>
    g_mode vt g s' = g_mode vt g s \<and> (g_mode vt g s = Inr ModeOutput \<longrightarrow> g_read vt g s' = g_read vt g s)"
proof -
  let ?p = "p\<lparr>p_pull := pl\<rparr>"
  have "held vt valid g s0 ?p s" using assms(3) by (simp add: held_def)
  from setHoldPull_held [OF assms(1,2) this assms(4,5)] obtain p' where p': "setHoldPull vt (?p, Some s) = Some (Inr (), p', Some s)"
    "held vt valid g s0 p' s" "holdPull p' = p0" "p_pull p' = pl" "holdMode p' = holdMode p" "holdState p' = holdState p"
    by auto
  have on: "pin_on_device p g" "pin_on_device p' g" using assms(3) p'(2) by (simp_all add: held_def)
  obtain s' where s': "g_setPull vt g pl s = Inr s'" "ok s'" "\<forall>h. valid h \<longrightarrow> g_mode vt h s' = g_mode vt h s"
    "g_pull vt g s' = (if pl = PullUnknown then g_pull vt g s else Inr pl)" "\<forall>h. valid h \<and> h \<noteq> g \<longrightarrow> g_pull vt h s' = g_pull vt h s"
    "\<forall>h. valid h \<and> g_mode vt h s = Inr ModeOutput \<longrightarrow> g_read vt h s' = g_read vt h s"
    using setPull_ok [OF assms(1,2), of pl] by blast
  have "Pin_setPull vt dv pl (p, Some s) = Some (Inr (), p', Some s')"
    using p'(1,4) s'(1) pin_on_deviceD [OF on(1)] pin_on_deviceD [OF on(2)]
    by (simp add: Pin_setPull_def writePull_def pin_ops)
  moreover have "held vt valid g s0 p' s'" using p'(2,3) assms(2,4,5) s' unfolding held_def by simp
  ultimately show ?thesis using p' s' assms(2) by simp
qed

end

context gpio_pull_device
begin

lemma write_held:
  assumes "ok s" "valid g" "held vt valid g s0 p s"
  shows "\<exists>s'. Pin_write vt dv v (p, Some s) = Some (Inr (), p, Some s') \<and> ok s' \<and> held vt valid g s0 p s' \<and>
    g_mode vt g s' = g_mode vt g s \<and> g_pull vt g s' = g_pull vt g s \<and>
    (g_mode vt g s = Inr ModeOutput \<longrightarrow> g_read vt g s' = Inr v)"
proof -
  obtain s' where s': "g_write vt g v s = Inr s'" "ok s'" "\<forall>h. valid h \<longrightarrow> g_mode vt h s' = g_mode vt h s"
    "g_mode vt g s = Inr ModeOutput \<longrightarrow> g_read vt g s' = Inr v"
    using write_ok [OF assms(1,2), of v] by blast
  have on: "pin_on_device p g" using assms(3) by (simp add: held_def)
  have "Pin_write vt dv v (p, Some s) = Some (Inr (), p, Some s')"
    using s'(1) pin_on_deviceD [OF on] by (simp add: Pin_write_def pin_ops)
  moreover have "g_pull vt h s' = g_pull vt h s" if "valid h" for h by (rule write_pull [OF assms(1,2) that s'(1)])
  ultimately show ?thesis using s' assms(2,3) unfolding held_def by simp
qed

lemma toggle_held:
  assumes "ok s" "valid g" "held vt valid g s0 p s"
  shows "\<exists>s'. Pin_toggle vt dv (p, Some s) = Some (Inr (), p, Some s') \<and> ok s' \<and> held vt valid g s0 p s'"
proof -
  obtain b where b: "g_read vt g s = Inr b" using read_ok [OF assms(1,2)] by blast
  have on: "pin_on_device p g" using assms(3) by (simp add: held_def)
  show ?thesis
  proof (cases "g_flags vt s AND hasToggle = 0")
    case True
    then have "Pin_toggle vt dv (p, Some s) = Pin_write vt dv (\<not> b) (p, Some s)"
      using pin_on_deviceD [OF on] b by (simp add: Pin_toggle_def Pin_read_def pin_ops)
    with write_held [OF assms, of dv "\<not> b"] show ?thesis by auto
  next
    case False
    obtain s' where s': "g_toggle vt g s = Inr s'" "ok s'" "\<forall>h. valid h \<longrightarrow> g_mode vt h s' = g_mode vt h s"
      using toggle_ok [OF assms(1,2) b] by blast
    have "Pin_toggle vt dv (p, Some s) = Some (Inr (), p, Some s')"
      using False s'(1) pin_on_deviceD [OF on] by (simp add: Pin_toggle_def pin_ops)
    moreover have "g_pull vt h s' = g_pull vt h s" if "valid h" for h by (rule toggle_pull [OF assms(1,2) that s'(1)])
    ultimately show ?thesis using s' assms(2,3) unfolding held_def by simp
  qed
qed

lemma step_held:
  assumes "ok s" "valid g" "held vt valid g s0 p s" and m0: "g_mode vt g s0 = Inr m0" "m0 \<noteq> ModeUnknown"
    and p0: "g_pull vt g s0 = Inr p0" "p0 \<noteq> PullUnknown"
  shows "\<exists>r p' s'. pin_step vt dv c (p, Some s) = Some (r, p', Some s') \<and> ok s' \<and> held vt valid g s0 p' s' \<and>
    (holdMode p \<noteq> ModeUnknown \<longrightarrow> holdMode p' = holdMode p \<and> holdState p' = holdState p)"
proof (cases c)
  case (SetMode m)
  have "holdMode p \<noteq> ModeUnknown \<Longrightarrow> holdMode p = m0" using assms(3) m0 by (simp add: held_def)
  with setMode_held [OF assms(1-3) m0, of dv m] SetMode show ?thesis by fastforce
next
  case (SetPull pl)
  with setPull_held [OF assms(1-3) p0, of dv pl] show ?thesis by auto
next
  case (WriteLevel v)
  with write_held [OF assms(1-3), of dv v] show ?thesis by auto
next
  case Toggle
  with toggle_held [OF assms(1-3), of dv] show ?thesis by auto
qed

lemma run_held:
  assumes m0: "g_mode vt g s0 = Inr m0" "m0 \<noteq> ModeUnknown" and p0: "g_pull vt g s0 = Inr p0" "p0 \<noteq> PullUnknown" and g: "valid g"
  shows "ok s \<Longrightarrow> held vt valid g s0 p s \<Longrightarrow> \<exists>p' s'. pin_run vt dv cs (p, Some s) = Some (p', Some s') \<and> ok s' \<and> held vt valid g s0 p' s' \<and>
    (holdMode p \<noteq> ModeUnknown \<longrightarrow> holdMode p' = holdMode p \<and> holdState p' = holdState p)"
proof (induction cs arbitrary: p s)
  case (Cons c cs)
  from step_held [OF Cons.prems(1) g Cons.prems(2) m0 p0, of dv c] obtain r p1 s1 where
    1: "pin_step vt dv c (p, Some s) = Some (r, p1, Some s1)" "ok s1" "held vt valid g s0 p1 s1"
      "holdMode p \<noteq> ModeUnknown \<longrightarrow> holdMode p1 = holdMode p \<and> holdState p1 = holdState p" by blast
  from Cons.IH [OF 1(2,3)] 1 show ?case by auto
qed auto

lemma release_restores:
  assumes "ok s" "valid g" "held vt valid g s0 p s" and m0: "g_mode vt g s0 = Inr m0" "m0 \<noteq> ModeUnknown" "settable g m0"
    and p0: "g_pull vt g s0 = Inr p0" "p0 \<noteq> PullUnknown"
  shows "\<exists>p' s'. Pin_release vt dv (p, Some s) = Some (Inr (), p', Some s') \<and> ok s' \<and> pin_on_device p' g \<and>
    holdMode p' = ModeUnknown \<and> holdPull p' = PullUnknown \<and> g_mode vt g s' = Inr m0 \<and> g_pull vt g s' = Inr p0 \<and>
    (m0 = ModeOutput \<and> holdMode p \<noteq> ModeUnknown \<longrightarrow> g_read vt g s' = Inr (holdState p)) \<and>
    (\<forall>h. valid h \<and> h \<noteq> g \<longrightarrow> g_mode vt h s' = g_mode vt h s0 \<and> g_pull vt h s' = g_pull vt h s0)"
proof -
  define part1 where "part1 = (if holdMode p \<noteq> ModeUnknown
    then seq (Pin_setMode vt dv (holdMode p)) (\<lambda>_. get_pin (\<lambda>p.
         seq (if holdMode p = ModeOutput then Pin_write vt dv (holdState p) else ret ()) (\<lambda>_. put_pin (\<lambda>p. p\<lparr>holdMode := ModeUnknown\<rparr>))))
    else ret ())"
  have on: "pin_on_device p g" using assms(3) by (simp add: held_def)
  have "\<exists>p1 s1. part1 (p, Some s) = Some (Inr (), p1, Some s1) \<and> ok s1 \<and> held vt valid g s0 p1 s1 \<and> holdMode p1 = ModeUnknown \<and>
      g_mode vt g s1 = Inr m0 \<and> (m0 = ModeOutput \<and> holdMode p \<noteq> ModeUnknown \<longrightarrow> g_read vt g s1 = Inr (holdState p))"
  proof (cases "holdMode p = ModeUnknown")
    case True
    with assms(1,3) m0(1) show ?thesis by (simp add: part1_def ret_def held_def)
  next
    case False
    then have hm: "holdMode p = m0" using assms(3) m0(1) by (simp add: held_def)
    from setMode_held [OF assms(1-3) m0(1,2), of dv m0] m0(3) False obtain p2 s2 where
      2: "Pin_setMode vt dv m0 (p, Some s) = Some (Inr (), p2, Some s2)" "ok s2" "held vt valid g s0 p2 s2"
        "holdMode p2 = m0" "holdState p2 = holdState p" "g_mode vt g s2 = Inr m0" by auto
    from write_held [OF 2(2) assms(2) 2(3), of dv "holdState p"] obtain s3 where
      3: "Pin_write vt dv (holdState p) (p2, Some s2) = Some (Inr (), p2, Some s3)" "ok s3" "held vt valid g s0 p2 s3"
        "g_mode vt g s3 = Inr m0" "m0 = ModeOutput \<longrightarrow> g_read vt g s3 = Inr (holdState p)" using 2(6) by auto
    have fin: "held vt valid g s0 (p2\<lparr>holdMode := ModeUnknown\<rparr>) t" if "held vt valid g s0 p2 t" "g_mode vt g t = Inr m0" for t
      using that m0(1) by (simp add: held_def)
    show ?thesis
      using hm False 2 3 fin [OF 2(3,6)] fin [OF 3(3,4)]
      by (cases "m0 = ModeOutput") (simp_all add: part1_def seq_def get_pin_def put_pin_def ret_def)
  qed
  then obtain p1 s1 where 1: "part1 (p, Some s) = Some (Inr (), p1, Some s1)" "ok s1" "held vt valid g s0 p1 s1"
    "holdMode p1 = ModeUnknown" "g_mode vt g s1 = Inr m0"
    "m0 = ModeOutput \<and> holdMode p \<noteq> ModeUnknown \<longrightarrow> g_read vt g s1 = Inr (holdState p)" by blast
  have "Pin_release vt dv (p, Some s) = seq part1 (\<lambda>_. get_pin (\<lambda>p. if holdPull p \<noteq> PullUnknown
      then seq (Pin_setPull vt dv (holdPull p)) (\<lambda>_. put_pin (\<lambda>p. p\<lparr>holdPull := PullUnknown\<rparr>)) else ret ())) (p, Some s)"
    unfolding Pin_release_def part1_def get_pin_def [of _ "(p, Some s)"] fst_conv
    using pin_on_deviceD [OF on] by simp
  then have rel: "Pin_release vt dv (p, Some s) = (if holdPull p1 \<noteq> PullUnknown
      then seq (Pin_setPull vt dv (holdPull p1)) (\<lambda>_. put_pin (\<lambda>p. p\<lparr>holdPull := PullUnknown\<rparr>)) else ret ()) (p1, Some s1)"
    unfolding seq_def [of part1] 1(1) by (simp add: get_pin_def)
  show ?thesis
  proof (cases "holdPull p1 = PullUnknown")
    case True
    with rel 1 p0 show ?thesis by (simp add: ret_def held_def)
  next
    case False
    then have hp: "holdPull p1 = p0" using 1(3) p0(1) by (simp add: held_def)
    from setPull_held [OF 1(2) assms(2) 1(3) p0, of dv p0] p0(2) obtain p4 s4 where
      4: "Pin_setPull vt dv p0 (p1, Some s1) = Some (Inr (), p4, Some s4)" "ok s4" "held vt valid g s0 p4 s4" "holdMode p4 = holdMode p1"
        "g_pull vt g s4 = Inr p0" "g_mode vt g s4 = g_mode vt g s1" "g_mode vt g s1 = Inr ModeOutput \<longrightarrow> g_read vt g s4 = g_read vt g s1" by auto
    with rel hp False 1(4-6) show ?thesis by (simp add: seq_def put_pin_def held_def)
  qed
qed

text \<open>Together: whatever a program does with a pin, releasing it gives the pin back as it was.\<close>

lemma use_and_release:
  assumes "ok s" "valid g" "pin_on_device p g" "holdMode p = ModeUnknown" "holdPull p = PullUnknown"
    and m0: "g_mode vt g s = Inr m0" "m0 \<noteq> ModeUnknown" and p0: "g_pull vt g s = Inr p0" "p0 \<noteq> PullUnknown"
  shows "\<exists>w p' s'. pin_run vt dv cs (p, Some s) = Some w \<and> Pin_release vt dv w = Some (Inr (), p', Some s') \<and>
    g_mode vt g s' = Inr m0 \<and> g_pull vt g s' = Inr p0 \<and>
    (\<forall>m cs'. m0 = ModeOutput \<and> cs = SetMode m # cs' \<longrightarrow> g_read vt g s' = g_read vt g s) \<and>
    (\<forall>h. valid h \<and> h \<noteq> g \<longrightarrow> g_mode vt h s' = g_mode vt h s \<and> g_pull vt h s' = g_pull vt h s)"
proof -
  have start: "held vt valid g s p s" using assms(3-5) by (simp add: held_def)
  have set0: "settable g m0" by (rule mode_settable [OF assms(1,2) m0])
  have fin: ?thesis if run: "pin_run vt dv cs (p, Some s) = Some (p1, Some s1)" "ok s1" "held vt valid g s p1 s1"
    and lev: "\<And>m cs'. m0 = ModeOutput \<Longrightarrow> cs = SetMode m # cs' \<Longrightarrow> holdMode p1 \<noteq> ModeUnknown \<and> g_read vt g s = Inr (holdState p1)" for p1 s1
    using release_restores [OF run(2) assms(2) run(3) m0 set0 p0, of dv] run(1) lev by fastforce
  show ?thesis
  proof (cases "\<exists>m cs'. cs = SetMode m # cs'")
    case False
    from run_held [OF m0 p0 assms(2,1) start, of dv cs] fin False show ?thesis by blast
  next
    case True
    then obtain m cs' where cs: "cs = SetMode m # cs'" by blast
    from setMode_held [OF assms(1,2) start m0, of dv m] assms(4) obtain r p1 s1 where
      1: "Pin_setMode vt dv m (p, Some s) = Some (r, p1, Some s1)" "ok s1" "held vt valid g s p1 s1" "holdMode p1 = m0"
        "m0 = ModeOutput \<longrightarrow> g_read vt g s = Inr (holdState p1)" by auto
    from run_held [OF m0 p0 assms(2) 1(2,3), of dv cs'] m0(2) 1(4) obtain p2 s2 where
      2: "pin_run vt dv cs' (p1, Some s1) = Some (p2, Some s2)" "ok s2" "held vt valid g s p2 s2" "holdMode p2 = m0" "holdState p2 = holdState p1"
      by auto
    have "pin_run vt dv cs (p, Some s) = Some (p2, Some s2)" using cs 1(1) 2(1) by simp
    from fin [OF this 2(2,3)] 2(4,5) 1(5) m0(2) show ?thesis by simp
  qed
qed

end

end
