(* ===== verification/ThreadBuffers.thy ===== *)
theory ThreadBuffers
  imports Prelude "HOL-Library.Sublist"
begin

text \<open>
  The queues that threads share: \<open>TSQueue\<close> (\<open>include/piduino/tsqueue.h\<close>) and \<open>ThreadSafeBuffer\<close>
  (\<open>include/piduino/threadsafebuffer.h\<close>).

  Every operation of \<open>TSQueue\<close> holds the mutex, so threads interleave between operations and where \<open>pop\<close> waits on the
  condition variable. The state therefore has the queue, the threads that wait and those that have been notified and
  have not run yet; a step is one thread's turn with the mutex. The choice of the thread that \<open>notify_one\<close> wakes
  and spurious wake-ups are free.

  \<open>ThreadSafeBuffer\<close> is seen from one reader: what the other threads write while it waits is a list of wake-ups, each
  with the data written before it and whether the time limit has passed by then. A wait that no wake-up ends has the
  value \<open>None\<close>. A write by another thread at a moment when the reader does not wait gives the same reads as one that
  comes with its next wake-up.
\<close>

section \<open>TSQueue\<close>

record 'a tsq =
  m_queue :: "'a list"
  waiting :: "nat set"
  woken :: "nat set"

definition tsq_new :: "'a tsq" where
  "tsq_new = \<lparr>m_queue = [], waiting = {}, woken = {}\<rparr>"

text \<open>\<open>push\<close>; \<open>pick\<close> is the thread that \<open>notify_one\<close> wakes, if one waits.\<close>

definition TSQueue_push :: "'a \<Rightarrow> nat option \<Rightarrow> 'a tsq \<Rightarrow> 'a tsq" where
  "TSQueue_push item pick s = (let s = s\<lparr>m_queue := m_queue s @ [item]\<rparr>
     in case pick of None \<Rightarrow> s | Some t \<Rightarrow> s\<lparr>waiting := waiting s - {t}, woken := insert t (woken s)\<rparr>)"

text \<open>One turn of \<open>pop\<close> with the mutex: when the thread enters, and again each time it is woken, it tests the queue.\<close>

definition TSQueue_pop :: "nat \<Rightarrow> 'a tsq \<Rightarrow> 'a option \<times> 'a tsq" where
  "TSQueue_pop t s = (case m_queue s of
     [] \<Rightarrow> (None, s\<lparr>waiting := insert t (waiting s), woken := woken s - {t}\<rparr>)
   | item # q \<Rightarrow> (Some item, s\<lparr>m_queue := q, woken := woken s - {t}\<rparr>))"

definition TSQueue_empty :: "'a tsq \<Rightarrow> bool" where "TSQueue_empty s \<longleftrightarrow> m_queue s = []"
definition TSQueue_size :: "'a tsq \<Rightarrow> nat" where "TSQueue_size s = length (m_queue s)"
definition TSQueue_clear :: "'a tsq \<Rightarrow> 'a tsq" where "TSQueue_clear s = s\<lparr>m_queue := []\<rparr>"

datatype 'a tsq_event = Pushed 'a | Turn nat "'a option" | Spurious nat | Cleared

inductive tsq_step :: "'a tsq \<Rightarrow> 'a tsq_event \<Rightarrow> 'a tsq \<Rightarrow> bool" where
  push_alone: "waiting s = {} \<Longrightarrow> tsq_step s (Pushed x) (TSQueue_push x None s)"
| push_wakes: "t \<in> waiting s \<Longrightarrow> tsq_step s (Pushed x) (TSQueue_push x (Some t) s)"
| turn: "t \<notin> waiting s \<Longrightarrow> TSQueue_pop t s = (r, s') \<Longrightarrow> tsq_step s (Turn t r) s'"
| spurious: "t \<in> waiting s \<Longrightarrow> tsq_step s (Spurious t) (s\<lparr>waiting := waiting s - {t}, woken := insert t (woken s)\<rparr>)"
| clear: "tsq_step s Cleared (TSQueue_clear s)"

inductive tsq_run :: "'a tsq \<Rightarrow> 'a tsq_event list \<Rightarrow> 'a tsq \<Rightarrow> bool" where
  start: "tsq_run s [] s"
| step: "tsq_run s es s' \<Longrightarrow> tsq_step s' e s'' \<Longrightarrow> tsq_run s (es @ [e]) s''"

inductive_cases tsq_stepE: "tsq_step s e s'"

fun pushed :: "'a tsq_event \<Rightarrow> 'a list" where
  "pushed (Pushed x) = [x]" | "pushed _ = []"

fun popped :: "'a tsq_event \<Rightarrow> 'a list" where
  "popped (Turn t (Some x)) = [x]" | "popped _ = []"

text \<open>No lost wake-up: while threads wait, every item in the queue has a notified thread to take it.\<close>

definition tsq_inv :: "'a tsq \<Rightarrow> bool" where
  "tsq_inv s \<longleftrightarrow> finite (waiting s) \<and> finite (woken s) \<and> waiting s \<inter> woken s = {} \<and>
     (waiting s \<noteq> {} \<longrightarrow> length (m_queue s) \<le> card (woken s))"

lemma tsq_step_inv: "tsq_step s e s' \<Longrightarrow> tsq_inv s \<Longrightarrow> tsq_inv s'"
proof (induction rule: tsq_step.induct)
  case (turn t s r s')
  show ?case
  proof (cases "m_queue s")
    case Nil
    then show ?thesis using turn by (auto simp: tsq_inv_def TSQueue_pop_def)
  next
    case (Cons x q)
    have "card (woken s) \<le> Suc (card (woken s - {t}))" by (auto simp: card_Diff_singleton_if)
    then show ?thesis using turn Cons by (auto simp: tsq_inv_def TSQueue_pop_def)
  qed
next
  case (push_wakes t s x)
  then show ?case by (auto simp: tsq_inv_def TSQueue_push_def card_insert_if)
next
  case (spurious t s)
  then show ?case by (auto simp: tsq_inv_def card_insert_if)
qed (auto simp: tsq_inv_def TSQueue_push_def TSQueue_clear_def)

lemma tsq_run_inv: "tsq_run s es s' \<Longrightarrow> tsq_inv s \<Longrightarrow> tsq_inv s'"
  by (induction rule: tsq_run.induct) (auto intro: tsq_step_inv)

lemma tsq_new_inv: "tsq_inv tsq_new"
  by (simp add: tsq_inv_def tsq_new_def)

lemma tsq_step_order:
  "tsq_step s e s' \<Longrightarrow> e \<noteq> Cleared \<Longrightarrow> popped e @ m_queue s' = m_queue s @ pushed e"
  by (induction rule: tsq_step.induct)
     (auto simp: TSQueue_push_def TSQueue_pop_def split: list.splits)


lemma tsq_run_example: "tsq_run tsq_new [Turn 1 None, Turn 2 None, Pushed (7 :: nat), Pushed 8]
    \<lparr>m_queue = [7, 8], waiting = {}, woken = {1, 2}\<rparr>"
proof -
  have 0: "tsq_run tsq_new [] (tsq_new :: nat tsq)" by (rule tsq_run.start)
  have 1: "tsq_run tsq_new ([] @ [Turn 1 None]) \<lparr>m_queue = [] :: nat list, waiting = {1}, woken = {}\<rparr>"
    by (rule tsq_run.step [OF 0], rule tsq_step.turn) (auto simp: TSQueue_pop_def tsq_new_def)
  have 2: "tsq_run tsq_new (([] @ [Turn 1 None]) @ [Turn 2 None]) \<lparr>m_queue = [] :: nat list, waiting = {1, 2}, woken = {}\<rparr>"
    by (rule tsq_run.step [OF 1], rule tsq_step.turn) (auto simp: TSQueue_pop_def)
  have p1: "TSQueue_push 7 (Some 1) \<lparr>m_queue = [] :: nat list, waiting = {1, 2}, woken = {}\<rparr> = \<lparr>m_queue = [7], waiting = {2}, woken = {1}\<rparr>"
    by (auto simp: TSQueue_push_def)
  have 3: "tsq_run tsq_new ((([] @ [Turn 1 None]) @ [Turn 2 None]) @ [Pushed (7 :: nat)]) \<lparr>m_queue = [7], waiting = {2}, woken = {1}\<rparr>"
    using tsq_run.step [OF 2 tsq_step.push_wakes [of 1 _ 7]] p1 by simp
  have p2: "TSQueue_push 8 (Some 2) \<lparr>m_queue = [7 :: nat], waiting = {2}, woken = {1}\<rparr> = \<lparr>m_queue = [7, 8], waiting = {}, woken = {1, 2}\<rparr>"
    by (auto simp: TSQueue_push_def)
  show ?thesis using tsq_run.step [OF 3 tsq_step.push_wakes [of 2 _ 8]] p2 by simp
qed


text \<open>The turns of several threads, one after the other, and the items they take.\<close>

fun turns :: "nat list \<Rightarrow> 'a tsq \<Rightarrow> 'a list \<times> 'a tsq" where
  "turns [] s = ([], s)"
| "turns (t # ts) s = (let (r, s) = TSQueue_pop t s; (rs, s) = turns ts s in ((case r of None \<Rightarrow> [] | Some x \<Rightarrow> [x]) @ rs, s))"

lemma turns_take:
  "fst (turns ts s) = take (length ts) (m_queue s) \<and> m_queue (snd (turns ts s)) = drop (length ts) (m_queue s) \<and>
   (length ts \<le> length (m_queue s) \<longrightarrow> waiting (snd (turns ts s)) = waiting s)"
proof (induction ts arbitrary: s)
  case (Cons t ts)
  show ?case
  proof (cases "m_queue s")
    case Nil
    then show ?thesis using Cons [of "s\<lparr>waiting := insert t (waiting s), woken := woken s - {t}\<rparr>"]
      by (simp add: TSQueue_pop_def split_beta)
  next
    case (Cons x q)
    then show ?thesis using Cons.IH [of "s\<lparr>m_queue := q, woken := woken s - {t}\<rparr>"]
      by (simp add: TSQueue_pop_def split_beta)
  qed
qed simp

text \<open>C10. No thread sleeps next to an item: from every state the queue can reach, once each notified thread has had its
  turn, in any order, the queue is empty or no thread waits; the items have gone out in their order.\<close>

theorem tsq_no_sleeper:
  assumes "tsq_run tsq_new es s" "set ts = woken s" "distinct ts"
  shows "(m_queue (snd (turns ts s)) = [] \<or> waiting (snd (turns ts s)) = {}) \<and>
    fst (turns ts s) @ m_queue (snd (turns ts s)) = m_queue s"
proof -
  have "tsq_inv s" using assms(1) tsq_new_inv by (rule tsq_run_inv)
  moreover have "card (woken s) = length ts" using assms(2,3) distinct_card by fastforce
  ultimately have "waiting s = {} \<or> length (m_queue s) \<le> length ts" by (auto simp: tsq_inv_def)
  then show ?thesis using turns_take [of ts s] by (cases "length (m_queue s) \<le> length ts") auto
qed

theorem tsq_no_sleeper_witness:
  "fst (turns [2, 1] \<lparr>m_queue = [7 :: nat, 8], waiting = {}, woken = {1, 2}\<rparr>) @
     m_queue (snd (turns [2, 1] \<lparr>m_queue = [7 :: nat, 8], waiting = {}, woken = {1, 2}\<rparr>)) = [7, 8]"
  using tsq_no_sleeper [OF tsq_run_example, of "[2, 1]"] by (simp add: insert_commute)

section \<open>ThreadSafeBuffer\<close>

record 'a tsbuf =
  tsb_queue :: "'a list"
  numEnqueued :: nat

definition tsb_new :: "'a tsbuf" where
  "tsb_new = \<lparr>tsb_queue = [], numEnqueued = 0\<rparr>"

definition writeData :: "'a \<Rightarrow> 'a tsbuf \<Rightarrow> 'a tsbuf" where
  "writeData x b = b\<lparr>tsb_queue := tsb_queue b @ [x], numEnqueued := numEnqueued b + 1\<rparr>"

definition writeData_buf :: "'a list \<Rightarrow> 'a tsbuf \<Rightarrow> 'a tsbuf" where
  "writeData_buf buf b = fold writeData buf b"

definition readData :: "'a tsbuf \<Rightarrow> 'a option \<times> 'a tsbuf" where
  "readData b = (case tsb_queue b of [] \<Rightarrow> (None, b)
     | x # q \<Rightarrow> (Some x, b\<lparr>tsb_queue := q, numEnqueued := numEnqueued b - 1\<rparr>))"

text \<open>The loops that empty the queue into a vector and into an array; \<open>sz\<close> is \<open>sizeOfData\<close>. The array has a
  length of its own: a store behind its end is undefined. The item is taken out before the size is tested.\<close>

function readData_vec :: "nat \<Rightarrow> nat \<Rightarrow> 'a list \<Rightarrow> 'a tsbuf \<Rightarrow> nat \<times> 'a list \<times> 'a tsbuf" where
  "readData_vec sz n vec b = (case readData b of (None, b) \<Rightarrow> (n, vec, b)
     | (Some x, b) \<Rightarrow> readData_vec sz (n + sz) (vec @ [x]) b)"
  by pat_completeness auto

termination readData_vec
  by (relation "measure (\<lambda>(sz, n, vec, b). length (tsb_queue b))") (auto simp: readData_def split: list.splits)

function readData_loop :: "nat \<Rightarrow> nat \<Rightarrow> nat \<Rightarrow> nat \<Rightarrow> 'a list \<Rightarrow> 'a tsbuf \<Rightarrow> (nat \<times> 'a list \<times> 'a tsbuf) option" where
  "readData_loop sz lim n i buf b = (case readData b of (None, b) \<Rightarrow> Some (n, buf, b)
     | (Some x, b) \<Rightarrow> if n \<le> lim
         then (if i < length buf then readData_loop sz lim (n + sz) (i + 1) (buf[i := x]) b else None)
         else Some (n, buf, b))"
  by pat_completeness auto

termination readData_loop
  by (relation "measure (\<lambda>(sz, lim, n, i, buf, b). length (tsb_queue b))") (auto simp: readData_def split: list.splits)

declare readData_vec.simps [simp del] readData_loop.simps [simp del]

definition readData_buf :: "nat \<Rightarrow> nat \<Rightarrow> 'a list \<Rightarrow> 'a tsbuf \<Rightarrow> (nat \<times> 'a list \<times> 'a tsbuf) option" where
  "readData_buf sz lim buf b = readData_loop sz (min (numEnqueued b) lim) 0 0 buf b"

definition peekData :: "'a tsbuf \<Rightarrow> 'a option" where
  "peekData b = (case tsb_queue b of [] \<Rightarrow> None | x # q \<Rightarrow> Some x)"

partial_function (option) peekData_vec :: "nat \<Rightarrow> nat \<Rightarrow> 'a list \<Rightarrow> 'a tsbuf \<Rightarrow> (nat \<times> 'a list) option" where
  "peekData_vec sz n vec b = (case peekData b of None \<Rightarrow> Some (n, vec)
     | Some x \<Rightarrow> peekData_vec sz (n + sz) (vec @ [x]) b)"

partial_function (option) peekData_loop :: "nat \<Rightarrow> nat \<Rightarrow> nat \<Rightarrow> nat \<Rightarrow> 'a list \<Rightarrow> 'a tsbuf \<Rightarrow> (nat \<times> 'a list) option" where
  "peekData_loop sz lim n i buf b = (case peekData b of None \<Rightarrow> Some (n, buf)
     | Some x \<Rightarrow> if n \<le> lim
         then (if i < length buf then peekData_loop sz lim (n + sz) (i + 1) (buf[i := x]) b else None)
         else Some (n, buf))"

definition peekData_buf :: "nat \<Rightarrow> nat \<Rightarrow> 'a list \<Rightarrow> 'a tsbuf \<Rightarrow> (nat \<times> 'a list) option" where
  "peekData_buf sz lim buf b = peekData_loop sz (min (numEnqueued b) lim) 0 0 buf b"

type_synonym 'a wakes = "('a list \<times> bool) list"

fun waitForData :: "int \<Rightarrow> 'a wakes \<Rightarrow> 'a tsbuf \<Rightarrow> ('a tsbuf \<times> 'a wakes) option" where
  "waitForData msTimeout ws b = (if msTimeout = 0 \<or> tsb_queue b \<noteq> [] then Some (b, ws)
     else case ws of [] \<Rightarrow> None
     | (d, passed) # ws \<Rightarrow> let b = writeData_buf d b in
         if msTimeout > 0 \<and> passed then Some (b, ws) else waitForData msTimeout ws b)"

declare waitForData.simps [simp del]

text \<open>The public operations. \<open>write\<close> has no wait; the readers wait first.\<close>

definition tsb_write :: "'a list \<Rightarrow> 'a tsbuf \<Rightarrow> 'a tsbuf" where
  "tsb_write buf b = writeData_buf buf b"

definition tsb_read :: "int \<Rightarrow> 'a tsbuf \<times> 'a wakes \<Rightarrow> ('a option \<times> 'a tsbuf \<times> 'a wakes) option" where
  "tsb_read msTimeout s = (case waitForData msTimeout (snd s) (fst s) of None \<Rightarrow> None
     | Some (b, ws) \<Rightarrow> let (r, b) = readData b in Some (r, b, ws))"

definition tsb_read_vec :: "nat \<Rightarrow> 'a list \<Rightarrow> int \<Rightarrow> 'a tsbuf \<times> 'a wakes \<Rightarrow> (nat \<times> 'a list \<times> 'a tsbuf \<times> 'a wakes) option" where
  "tsb_read_vec sz vec msTimeout s = (case waitForData msTimeout (snd s) (fst s) of None \<Rightarrow> None
     | Some (b, ws) \<Rightarrow> let (n, vec, b) = readData_vec sz 0 vec b in Some (n, vec, b, ws))"

definition tsb_read_buf :: "nat \<Rightarrow> nat \<Rightarrow> 'a list \<Rightarrow> int \<Rightarrow> 'a tsbuf \<times> 'a wakes \<Rightarrow> (nat \<times> 'a list \<times> 'a tsbuf \<times> 'a wakes) option" where
  "tsb_read_buf sz lim buf msTimeout s = (case waitForData msTimeout (snd s) (fst s) of None \<Rightarrow> None
     | Some (b, ws) \<Rightarrow> map_option (\<lambda>(n, buf, b). (n, buf, b, ws)) (readData_buf sz lim buf b))"

definition tsb_peek :: "int \<Rightarrow> 'a tsbuf \<times> 'a wakes \<Rightarrow> ('a option \<times> 'a tsbuf \<times> 'a wakes) option" where
  "tsb_peek msTimeout s = (case waitForData msTimeout (snd s) (fst s) of None \<Rightarrow> None
     | Some (b, ws) \<Rightarrow> Some (peekData b, b, ws))"

abbreviation (input) tsb_size :: "'a tsbuf \<Rightarrow> nat" where
  "tsb_size b \<equiv> numEnqueued b"

definition tsb_iterate :: "('a list \<Rightarrow> int \<times> 'a list) \<Rightarrow> 'a tsbuf \<Rightarrow> 'a tsbuf" where
  "tsb_iterate functor b = (let (numChanged, q) = functor (tsb_queue b)
     in b\<lparr>tsb_queue := q, numEnqueued := nat ((int (numEnqueued b) + numChanged) mod 2 ^ 64)\<rparr>)"

text \<open>The invariant: the count is the length of the list.\<close>

definition tsb_inv :: "'a tsbuf \<Rightarrow> bool" where
  "tsb_inv b \<longleftrightarrow> numEnqueued b = length (tsb_queue b)"

lemma writeData_buf_queue:
  "tsb_queue (writeData_buf d b) = tsb_queue b @ d" "numEnqueued (writeData_buf d b) = numEnqueued b + length d"
  by (induction d arbitrary: b) (auto simp: writeData_buf_def writeData_def)

lemma writeData_buf_inv: "tsb_inv b \<Longrightarrow> tsb_inv (writeData_buf d b)"
  by (simp add: tsb_inv_def writeData_buf_queue)

lemma writeData_buf_Nil [simp]: "writeData_buf [] b = b"
  by (simp add: writeData_buf_def)

lemma readData_inv: "tsb_inv b \<Longrightarrow> tsb_inv (snd (readData b))"
  by (auto simp: readData_def tsb_inv_def split: list.splits)

text \<open>\<open>iterate\<close> keeps the invariant when the functor reports the change of the length, as its comment asks.\<close>

lemma tsb_iterate_inv:
  assumes "tsb_inv b" "functor (tsb_queue b) = (k, q)" "int (length q) = int (length (tsb_queue b)) + k" "length q < 2 ^ 64"
  shows "tsb_inv (tsb_iterate functor b)"
  using assms by (simp add: tsb_iterate_def tsb_inv_def flip: assms(3))

text \<open>The data that reaches a waiting reader: everything up to the first wake-up that brings none and finds the time
  passed, if there is one.\<close>

fun arriving :: "'a wakes \<Rightarrow> 'a list" where
  "arriving [] = []"
| "arriving ((d, passed) # ws) = (if d = [] \<and> passed then [] else d @ arriving ws)"

fun times_out :: "'a wakes \<Rightarrow> bool" where
  "times_out [] = False"
| "times_out ((d, passed) # ws) = (d = [] \<and> passed \<or> times_out ws)"

text \<open>A wait with a time limit returns, with data as soon as there is some.\<close>

lemma waitForData_returns:
  assumes "0 < ms" "times_out ws" "tsb_inv b"
  shows "\<exists>b' ws'. waitForData ms ws b = Some (b', ws') \<and> tsb_inv b' \<and> (tsb_queue b' = [] \<longleftrightarrow> tsb_queue b = [] \<and> arriving ws = []) \<and>
    (tsb_queue b' \<noteq> [] \<longrightarrow> times_out ws' \<and> tsb_queue b' @ arriving ws' = tsb_queue b @ arriving ws)"
  using assms(2,3)
proof (induction ws arbitrary: b)
  case (Cons w ws)
  obtain d p where w: "w = (d, p)" by force
  have iv: "tsb_inv (writeData_buf d b)" using Cons.prems by (simp add: writeData_buf_inv)
  show ?case
  proof (cases "tsb_queue b \<noteq> []")
    case True
    then show ?thesis using Cons.prems by (subst waitForData.simps) simp
  next
    case False
    then have e: "tsb_queue b = []" by simp
    show ?thesis
    proof (cases p)
      case True
      then show ?thesis using e w assms(1) iv Cons.prems
        by (subst waitForData.simps) (auto simp: writeData_buf_queue Let_def)
    next
      case False
      then have "times_out ws" using Cons.prems w by simp
      from Cons.IH [OF this iv] show ?thesis using e w False assms(1)
        by (subst waitForData.simps) (auto simp: writeData_buf_queue Let_def)
    qed
  qed
qed simp

lemma readData_loop_stored:
  assumes "0 < sz" "i + (if n \<le> lim then min (length (tsb_queue b)) ((lim - n) div sz + 1) else 0) \<le> length buf"
  shows "let k = (if n \<le> lim then min (length (tsb_queue b)) ((lim - n) div sz + 1) else 0) in
    readData_loop sz lim n i buf b = Some (n + k * sz, take i buf @ take k (tsb_queue b) @ drop (i + k) buf,
      b\<lparr>tsb_queue := drop (k + 1) (tsb_queue b), numEnqueued := numEnqueued b - min (k + 1) (length (tsb_queue b))\<rparr>)"
  using assms(2)
proof (induction "tsb_queue b" arbitrary: n i buf b)
  case Nil
  then show ?case by (subst readData_loop.simps) (simp add: readData_def Let_def)
next
  case (Cons x q)
  then have q: "tsb_queue b = x # q" by simp
  let ?b = "b\<lparr>tsb_queue := q, numEnqueued := numEnqueued b - 1\<rparr>"
  show ?case
  proof (cases "n \<le> lim")
    case False
    then show ?thesis by (subst readData_loop.simps) (simp add: readData_def q Let_def)
  next
    case True
    define m where "m = (lim - n) div sz"
    have m: "(if n + sz \<le> lim then (lim - (n + sz)) div sz + 1 else 0) = m"
    proof (cases "n + sz \<le> lim")
      case True
      then have "(lim - n) div sz = (lim - (n + sz)) div sz + 1" using assms(1) by (simp add: le_div_geq diff_diff_left)
      then show ?thesis using True m_def by simp
    next
      case False
      then show ?thesis using \<open>n \<le> lim\<close> by (simp add: m_def)
    qed
    have il: "i < length buf" using Cons.prems True q by simp
    have "(i + 1) + (if n + sz \<le> lim then min (length (tsb_queue ?b)) ((lim - (n + sz)) div sz + 1) else 0) \<le> length (buf[i := x])"
      using Cons.prems True m q by (simp add: m_def split: if_splits)
    from Cons.hyps(1) [of ?b, OF _ this]
    have r: "readData_loop sz lim (n + sz) (i + 1) (buf[i := x]) ?b = Some (n + sz + min (length q) m * sz,
        take (i + 1) (buf[i := x]) @ take (min (length q) m) q @ drop (i + 1 + min (length q) m) (buf[i := x]),
        ?b\<lparr>tsb_queue := drop (min (length q) m + 1) q, numEnqueued := numEnqueued ?b - min (min (length q) m + 1) (length q)\<rparr>)"
      using m by (simp add: Let_def split: if_splits)
    have t: "take (i + 1) (buf[i := x]) = take i buf @ [x]" using il by (simp add: take_Suc_conv_app_nth)
    show ?thesis
      by (subst readData_loop.simps) (use True il r t in \<open>simp add: readData_def q m_def Let_def\<close>)
  qed
qed

lemma readData_loop_overflows:
  assumes "lim - i < length (tsb_queue b)" "i \<le> lim" "length buf = lim"
  shows "readData_loop 1 lim i i buf b = None"
  using assms
proof (induction "tsb_queue b" arbitrary: i buf b)
  case (Cons x q)
  then have q: "tsb_queue b = x # q" by simp
  show ?case
  proof (cases "i < lim")
    case True
    have "readData_loop 1 lim (i + 1) (i + 1) (buf[i := x]) (b\<lparr>tsb_queue := q, numEnqueued := numEnqueued b - 1\<rparr>) = None"
      by (rule Cons.hyps(1)) (use Cons.prems True q in auto)
    then show ?thesis using True by (subst readData_loop.simps) (simp add: readData_def q)
  next
    case False
    then show ?thesis using Cons.prems by (subst readData_loop.simps) (simp add: readData_def q)
  qed
qed simp

text \<open>C39. \<open>read\<close> into an array of \<open>max\<close> characters returns all that is queued if it fits; with one character more in
  the queue than fits it stores past the end of the array.\<close>

theorem tsb_read_fits_or_overflows:
  assumes "tsb_inv b" "length buf = lim"
  shows "readData_buf 1 lim buf b = (if length (tsb_queue b) \<le> lim
    then Some (length (tsb_queue b), tsb_queue b @ drop (length (tsb_queue b)) buf, b\<lparr>tsb_queue := [], numEnqueued := 0\<rparr>) else None)"
proof (cases "length (tsb_queue b) \<le> lim")
  case False
  then show ?thesis using readData_loop_overflows [of lim 0 b buf] assms
    by (simp add: readData_buf_def tsb_inv_def min_def)
next
  case True
  then show ?thesis using readData_loop_stored [of 1 0 0 "length (tsb_queue b)" b buf] assms
    by (simp add: readData_buf_def tsb_inv_def min_def Let_def)
qed

theorem tsb_read_fits_or_overflows_witness:
  "readData_buf 1 2 [CHR ''a'', CHR ''b''] (writeData_buf ''xyz'' tsb_new) = None \<and>
   readData_buf 1 3 ''abc'' (writeData_buf ''xy'' tsb_new) = Some (2, ''xyc'', tsb_new)"
proof -
  have i: "tsb_inv (writeData_buf d tsb_new)" "tsb_queue (writeData_buf d tsb_new) = d" for d :: string
    by (simp_all add: writeData_buf_inv tsb_inv_def writeData_buf_queue tsb_new_def)
  have e: "b\<lparr>tsb_queue := [], numEnqueued := 0\<rparr> = tsb_new" for b :: "char tsbuf" by (simp add: tsb_new_def)
  show ?thesis
    using tsb_read_fits_or_overflows [OF i(1) [of "''xyz''"], of "''ab''" 2]
      tsb_read_fits_or_overflows [OF i(1) [of "''xy''"], of "''abc''" 3] by (simp add: i(2) e)
qed

text \<open>\<open>peek\<close> into a vector never returns once there is something to look at: nothing is taken out.\<close>

lemma peekData_vec_never_returns:
  assumes "tsb_queue b \<noteq> []"
  shows "peekData_vec sz n vec b = None"
proof -
  have "peekData_vec a c d b = Some r \<Longrightarrow> peekData b = None" for a c d b and r :: "nat \<times> 'a list"
    by (rule peekData_vec.raw_induct [of "\<lambda>a c d b r. peekData b = None"]) (auto split: option.splits)
  then show ?thesis using assms by (cases "peekData_vec sz n vec b") (fastforce simp: peekData_def split: list.splits)+
qed

end
