(* ===== verification/Strings.thy ===== *)
theory Strings
  imports I2cDriver "HOL-Library.Sublist"
begin

text \<open>
  The string class \<open>Piduino::String\<close> (\<open>include/piduino/string.h\<close>, \<open>src/string.cpp\<close>) and the number formatting of
  \<open>Print\<close> (\<open>src/arduino/Print.cpp\<close>).

  A string is the list of its characters. \<open>std::string::npos\<close> and the unsigned arithmetic that may meet it are
  written out on \<open>size_t\<close>, a 64-bit word. A loop that may run forever is a \<open>partial_function\<close>: it then has the value
  \<open>None\<close>, as undefined behaviour has. \<open>std::string::find\<close>, \<open>rfind\<close> and \<open>substr\<close> of the standard library are defined
  here as far as the class uses them. Floating point formatting is left out.
\<close>

section \<open>The standard library\<close>

text \<open>\<open>find\<close> and \<open>rfind\<close>: the first match from a position on, the last one up to a position.\<close>

definition match_at :: "string \<Rightarrow> string \<Rightarrow> nat \<Rightarrow> bool" where
  "match_at pat s i \<longleftrightarrow> take (length pat) (drop i s) = pat \<and> i \<le> length s"

definition std_find :: "string \<Rightarrow> string \<Rightarrow> nat \<Rightarrow> nat option" where
  "std_find pat s from = find (match_at pat s) [from..<Suc (length s)]"

definition std_rfind :: "string \<Rightarrow> string \<Rightarrow> nat option \<Rightarrow> nat option" where
  "std_rfind pat s pos = find (match_at pat s) (rev [0..<Suc (case pos of None \<Rightarrow> length s | Some p \<Rightarrow> min p (length s))])"

type_synonym size_t = "64 word"

definition npos :: size_t where "npos = - 1"

definition to_size :: "nat option \<Rightarrow> size_t" where
  "to_size r = (case r of None \<Rightarrow> npos | Some i \<Rightarrow> of_nat i)"

definition std_substr :: "string \<Rightarrow> nat \<Rightarrow> nat \<Rightarrow> string res" where
  "std_substr s pos n = (if length s < pos then Inl Out_of_range else Inr (take n (drop pos s)))"

definition std_toupper :: "char \<Rightarrow> char" where
  "std_toupper c = (let n = of_char c :: nat in if 97 \<le> n \<and> n \<le> 122 then char_of (n - 32) else c)"

definition std_tolower :: "char \<Rightarrow> char" where
  "std_tolower c = (let n = of_char c :: nat in if 65 \<le> n \<and> n \<le> 90 then char_of (n + 32) else c)"

section \<open>Numbers as text\<close>

definition str_digit :: "nat \<Rightarrow> char" where
  "str_digit rem = (if rem > 9 then char_of (rem - 10 + 97) else char_of (rem + 48))"

text \<open>The loop of \<open>String::toString\<close>: with base 0 it divides by zero, with base 1 it never ends.\<close>

partial_function (option) str_digits :: "nat \<Rightarrow> nat \<Rightarrow> string \<Rightarrow> string option" where
  "str_digits base num str = (if num = 0 then Some str else if base = 0 then None
     else str_digits base (num div base) (str @ [str_digit (num mod base)]))"

definition String_toString :: "nat \<Rightarrow> nat \<Rightarrow> string option" where
  "String_toString num base = (if num = 0 then Some ''0'' else map_option rev (str_digits base num []))"

text \<open>The signed overload; the negation of the least \<open>long\<close> overflows.\<close>

definition String_toString_long :: "int \<Rightarrow> nat \<Rightarrow> string option" where
  "String_toString_long num base = (
     let isneg = (num < 0 \<and> base = 10)
     in if isneg \<and> num = - (2 ^ 63) then None
     else map_option (\<lambda>str. if isneg then CHR ''-'' # str else str)
       (String_toString (if isneg then nat (- num) else nat (num mod 2 ^ 64)) base))"

text \<open>The loop of \<open>Print::toString\<close> fills a local array of 65 characters from its end; \<open>room\<close> is the number of places left.\<close>

definition print_digit :: "nat \<Rightarrow> char" where
  "print_digit c = (if c < 10 then char_of (c + 48) else char_of (c + 65 - 10))"

fun print_digits :: "nat \<Rightarrow> nat \<Rightarrow> nat \<Rightarrow> string \<Rightarrow> string option" where
  "print_digits base n 0 str = None"
| "print_digits base n (Suc room) str = (let m = n; n = n div base; str = print_digit (m - base * n) # str
     in if n \<noteq> 0 then print_digits base n room str else Some str)"

definition Print_toString :: "nat \<Rightarrow> nat \<Rightarrow> string option" where
  "Print_toString n base = print_digits (if base < 2 then 10 else base) n 64 []"

text \<open>The text of \<open>Print::print\<close> for a \<open>long\<close>; the base is an \<open>int\<close> that \<open>toString\<close> takes as a \<open>uint8_t\<close>.\<close>

definition Print_long_text :: "int \<Rightarrow> int \<Rightarrow> string option" where
  "Print_long_text n base = (if base = 10 \<and> n < 0 then
       (if n = - (2 ^ 63) then None else map_option (\<lambda>str. CHR ''-'' # str) (Print_toString (nat (- n)) 10))
     else Print_toString (nat (n mod 2 ^ 64)) (nat (base mod 256)))"

text \<open>The default \<open>write\<close> of a buffer stops at the first byte the device does not take, and \<open>println\<close> adds the line end.\<close>

fun Print_write :: "(char \<Rightarrow> 's \<Rightarrow> nat \<times> 's) \<Rightarrow> string \<Rightarrow> 's \<Rightarrow> nat \<times> 's" where
  "Print_write wr [] s = (0, s)"
| "Print_write wr (c # cs) s = (let (k, s) = wr c s in
     if k \<noteq> 0 then let (n, s) = Print_write wr cs s in (Suc n, s) else (0, s))"

abbreviation (input) crlf :: string where
  "crlf \<equiv> [CHR 0x0D, CHR 0x0A]"

definition Print_writeln :: "(char \<Rightarrow> 's \<Rightarrow> nat \<times> 's) \<Rightarrow> string \<Rightarrow> 's \<Rightarrow> nat \<times> 's" where
  "Print_writeln wr str s = (let (n, s) = Print_write wr str s; (m, s) = Print_write wr crlf s in (n + m, s))"

section \<open>The class String\<close>

text \<open>\<open>equalsIgnoreCase\<close> compares the characters of the string with as many of the other, whose end it does not look
  for: with a shorter one it reads past its end, which is undefined.\<close>

fun equalsIgnoreCase :: "string \<Rightarrow> string \<Rightarrow> bool option" where
  "equalsIgnoreCase [] t = Some True"
| "equalsIgnoreCase (c # s) [] = None"
| "equalsIgnoreCase (c # s) (d # t) = (if std_toupper c = std_toupper d then equalsIgnoreCase s t else Some False)"

definition String_reverse :: "string \<Rightarrow> string" where
  "String_reverse s = rev s"

partial_function (option) String_replace :: "string \<Rightarrow> string \<Rightarrow> string \<Rightarrow> string option" where
  "String_replace str1 str2 s = (case std_find str1 s 0 of None \<Rightarrow> Some s
     | Some found \<Rightarrow> String_replace str1 str2 (take found s @ str2 @ drop (found + length str1) s))"

definition String_replace_char :: "char \<Rightarrow> char \<Rightarrow> string \<Rightarrow> string" where
  "String_replace_char c1 c2 s = map (\<lambda>c. if c = c1 then c2 else c) s"

definition toLowerCase :: "string \<Rightarrow> string" where "toLowerCase s = map std_tolower s"
definition toUpperCase :: "string \<Rightarrow> string" where "toUpperCase s = map std_toupper s"

text \<open>The overloads of \<open>concat\<close> for numbers append the decimal text.\<close>

definition concat_str :: "string \<Rightarrow> string \<Rightarrow> string" where
  "concat_str str s = s @ str"

definition concat_long :: "int \<Rightarrow> string \<Rightarrow> string option" where
  "concat_long num s = map_option (\<lambda>str. s @ str) (String_toString_long num 10)"

definition concat_ulong :: "nat \<Rightarrow> string \<Rightarrow> string option" where
  "concat_ulong num s = map_option (\<lambda>str. s @ str) (String_toString num 10)"

definition ltrim :: "string \<Rightarrow> string" where "ltrim s = dropWhile isspace s"
definition rtrim :: "string \<Rightarrow> string" where "rtrim s = rev (dropWhile isspace (rev s))"
definition trim :: "string \<Rightarrow> string" where "trim s = rtrim (ltrim s)"

definition startsWith :: "string \<Rightarrow> nat \<Rightarrow> string \<Rightarrow> bool" where
  "startsWith pre offset s \<longleftrightarrow> std_find pre s offset = Some 0"

definition endsWith :: "string \<Rightarrow> string \<Rightarrow> bool" where
  "endsWith suf s \<longleftrightarrow> to_size (std_rfind suf s None) = of_nat (length s) - of_nat (length suf)"

definition charAt :: "nat \<Rightarrow> string \<Rightarrow> char res" where
  "charAt index s = array_at s (int index)"

text \<open>\<open>setCharAt\<close> passes the address of its one character as a C string: what follows it in memory, up to the next
  zero, is inserted too.\<close>

definition setCharAt :: "nat \<Rightarrow> char \<Rightarrow> string \<Rightarrow> string \<Rightarrow> string res" where
  "setCharAt index c memory s = (if length s < index then Inl Out_of_range
     else Inr (take index s @ takeWhile (\<lambda>x. x \<noteq> CHR 0x00) (c # memory) @ drop (index + 1) s))"

definition indexOf :: "string \<Rightarrow> nat \<Rightarrow> string \<Rightarrow> int" where
  "indexOf pat fromIndex s = (case std_find pat s fromIndex of None \<Rightarrow> - 1 | Some i \<Rightarrow> int i)"

definition lastIndexOf :: "string \<Rightarrow> u32 \<Rightarrow> string \<Rightarrow> int" where
  "lastIndexOf pat fromIndex s = (case std_rfind pat s (if fromIndex = - 1 then None else Some (unat fromIndex)) of None \<Rightarrow> - 1 | Some i \<Rightarrow> int i)"

definition substring_from :: "nat \<Rightarrow> string \<Rightarrow> string res" where
  "substring_from beginIndex s = std_substr s beginIndex (length s)"

definition substring :: "u32 \<Rightarrow> u32 \<Rightarrow> string \<Rightarrow> string res" where
  "substring beginIndex endIndex s = std_substr s (unat beginIndex) (unat (endIndex - beginIndex))"

definition toInt :: "string \<Rightarrow> int" where
  "toInt s = (case stoi s of Inl x \<Rightarrow> 0 | Inr i \<Rightarrow> i)"

text \<open>\<open>getBytes\<close> on a memory block; \<open>strncpy\<close> fills up with zeros after a zero of the source.\<close>

definition strncpy_bytes :: "string \<Rightarrow> nat \<Rightarrow> string" where
  "strncpy_bytes src n = (let k = takeWhile (\<lambda>c. c \<noteq> CHR 0x00) (take n src) in k @ replicate (n - length k) (CHR 0x00))"

definition getBytes :: "string \<Rightarrow> nat \<Rightarrow> nat \<Rightarrow> string \<Rightarrow> string option" where
  "getBytes buf bufsize index s = (if bufsize = 0 then Some buf else if length buf < bufsize then None
     else if length s \<le> index then Some (buf[0 := CHR 0x00])
     else let n = min (bufsize - 1) (length s - index)
       in Some ((memcpy 0 (strncpy_bytes (drop index s) n) buf)[n := CHR 0x00]))"

section \<open>Numbers: both formatters write the digits of the number\<close>

text \<open>The reference: the digits of a number to a base, most significant first.\<close>

function base_rep :: "nat \<Rightarrow> nat \<Rightarrow> nat list" where
  "base_rep b n = (if b < 2 \<or> n < b then [n] else base_rep b (n div b) @ [n mod b])"
  by pat_completeness auto

termination base_rep
  by (relation "measure snd") auto

declare base_rep.simps [simp del]

lemma base_rep_small: "n < b \<Longrightarrow> base_rep b n = [n]"
  by (subst base_rep.simps) simp

lemma base_rep_step: "2 \<le> b \<Longrightarrow> b \<le> n \<Longrightarrow> base_rep b n = base_rep b (n div b) @ [n mod b]"
  by (subst base_rep.simps) simp

lemma base_rep_value: "foldl (\<lambda>a d. b * a + d) 0 (base_rep b n) = n"
proof (induction b n rule: base_rep.induct)
  case (1 b n)
  then show ?case by (subst base_rep.simps) auto
qed

lemma base_rep_digits: "2 \<le> b \<Longrightarrow> d \<in> set (base_rep b n) \<Longrightarrow> d < b"
proof (induction b n rule: base_rep.induct)
  case (1 b n)
  then show ?case by (subst (asm) (2) base_rep.simps) (auto split: if_splits)
qed

lemma base_rep_nonempty: "base_rep b n \<noteq> []"
  by (subst base_rep.simps) simp

lemma base_rep_length: "2 \<le> b \<Longrightarrow> n < b ^ k \<Longrightarrow> 0 < k \<Longrightarrow> length (base_rep b n) \<le> k"
proof (induction k arbitrary: n)
  case (Suc k)
  show ?case
  proof (cases "n < b")
    case False
    have "n div b < b ^ k" using Suc.prems by (simp add: less_mult_imp_div_less mult.commute)
    moreover have "0 < k" using False Suc.prems by (cases k) auto
    ultimately show ?thesis using Suc.IH [of "n div b"] Suc.prems False by (simp add: base_rep_step)
  qed (simp add: base_rep_small)
qed simp

lemma str_digits_rep: "2 \<le> b \<Longrightarrow> 0 < n \<Longrightarrow> str_digits b n str = Some (str @ rev (map str_digit (base_rep b n)))"
proof (induction n arbitrary: str rule: less_induct)
  case (less n)
  show ?case
  proof (cases "n < b")
    case True
    then show ?thesis using less.prems
      by (subst str_digits.simps, subst str_digits.simps) (simp add: base_rep_small)
  next
    case False
    then have "n div b < n" "0 < n div b" using less.prems by (auto simp: div_greater_zero_iff)
    then show ?thesis
      using less.IH [of "n div b"] less.prems False by (subst str_digits.simps) (simp add: base_rep_step)
  qed
qed

lemma String_toString_rep: "2 \<le> b \<Longrightarrow> String_toString n b = Some (map str_digit (base_rep b n))"
proof -
  have "char_of (48 :: nat) = CHR ''0''" by (simp add: char_of_eq_iff)
  then show "2 \<le> b \<Longrightarrow> String_toString n b = Some (map str_digit (base_rep b n))"
    using str_digits_rep [of b n "[]"] by (auto simp: String_toString_def rev_map base_rep_small str_digit_def)
qed

lemma print_digits_rep:
  "2 \<le> b \<Longrightarrow> length (base_rep b n) \<le> room \<Longrightarrow> print_digits b n room str = Some (map print_digit (base_rep b n) @ str)"
proof (induction room arbitrary: n str)
  case 0
  then show ?case by (simp add: base_rep_nonempty)
next
  case (Suc room)
  have m: "n - b * (n div b) = n mod b" by (simp add: minus_mult_div_eq_mod)
  show ?case
  proof (cases "n < b")
    case True
    then show ?thesis using Suc.prems by (simp add: Let_def base_rep_small)
  next
    case False
    then have "n div b \<noteq> 0" using Suc.prems by (simp add: div_eq_0_iff)
    then show ?thesis
      using Suc.IH [of "n div b"] Suc.prems False m by (simp add: Let_def base_rep_step)
  qed
qed

lemma Print_toString_rep:
  assumes "2 \<le> b" "n < 2 ^ 64"
  shows "Print_toString n b = Some (map print_digit (base_rep b n))"
proof -
  have "(2 :: nat) ^ 64 \<le> b ^ 64" by (rule power_mono) (use assms in auto)
  then have "n < b ^ 64" using assms(2) by (rule less_le_trans [rotated])
  from base_rep_length [OF assms(1) this] show ?thesis
    using assms print_digits_rep [of b n 64 "[]"] by (simp add: Print_toString_def)
qed

lemma toupper_digit: "d < 36 \<Longrightarrow> std_toupper (str_digit d) = print_digit d"
proof -
  assume d: "d < 36"
  show ?thesis
  proof (cases "d < 10")
    case True
    then have "of_char (char_of (d + 48) :: char) = d + 48" by simp
    then show ?thesis using True by (simp add: str_digit_def print_digit_def std_toupper_def Let_def)
  next
    case False
    then have "of_char (char_of (d - 10 + 97) :: char) = d - 10 + 97" using d by simp
    moreover have "d - 10 + 97 - 32 = d + 65 - 10" using False by simp
    ultimately show ?thesis using False d by (simp add: str_digit_def print_digit_def std_toupper_def Let_def)
  qed
qed

section \<open>Properties of numbers\<close>

text \<open>C38. The two formatters of the library agree: to every base from 2 to 36 the text of \<open>Print\<close> is that of \<open>String\<close> in
  upper case, and both write the digits of the number; the fixed array of \<open>Print\<close> is always large enough.\<close>

theorem formatters_agree:
  assumes "2 \<le> b" "b \<le> 36" "n < 2 ^ 64"
  shows "Print_toString n b = map_option (map std_toupper) (String_toString n b) \<and>
    Print_toString n b = Some (map print_digit (base_rep b n)) \<and> foldl (\<lambda>a d. b * a + d) 0 (base_rep b n) = n"
proof -
  have "map std_toupper (map str_digit (base_rep b n)) = map print_digit (base_rep b n)"
    using base_rep_digits [OF assms(1)] assms(2) by (auto intro!: toupper_digit less_le_trans [OF _ assms(2)])
  then show ?thesis
    using Print_toString_rep [OF assms(1,3)] String_toString_rep [OF assms(1)] base_rep_value by simp
qed

theorem formatters_agree_witness: "Print_toString 48879 16 = Some ''BEEF''"
proof -
  have "map print_digit (base_rep 16 48879) = ''BEEF''" by (simp add: base_rep.simps print_digit_def char_of_eq_iff)
  moreover have "Print_toString 48879 16 = Some (map print_digit (base_rep 16 48879))"
    by (rule formatters_agree [THEN conjunct2, THEN conjunct1]) simp_all
  ultimately show ?thesis by metis
qed

lemma digit_char:
  assumes "d < 10"
  shows "isdigit (str_digit d)" "of_char (str_digit d) - 48 = int d" "str_digit d \<noteq> CHR ''-''" "str_digit d \<noteq> CHR ''+''" "\<not> isspace (str_digit d)"
proof -
  have c: "str_digit d = char_of (d + 48)" using assms by (simp add: str_digit_def)
  have n: "(of_char (str_digit d) :: nat) = d + 48" unfolding c using assms by simp
  have i: "(of_char (str_digit d) :: int) = int d + 48"
  proof -
    have "(of_char (str_digit d) :: int) = int (of_char (str_digit d) :: nat)" by (rule of_nat_of_char [symmetric])
    then show ?thesis by (simp add: n)
  qed
  show "isdigit (str_digit d)" using assms by (simp add: isdigit_def n)
  show "of_char (str_digit d) - 48 = int d" using i by simp
  have o: "(of_char CHR ''-'' :: nat) = 45" "(of_char CHR ''+'' :: nat) = 43" "(of_char CHR '' '' :: nat) = 32" "(of_char CHR 0x09 :: nat) = 9"
    "(of_char CHR 0x0A :: nat) = 10" "(of_char CHR 0x0B :: nat) = 11" "(of_char CHR 0x0C :: nat) = 12" "(of_char CHR 0x0D :: nat) = 13"
    by simp_all
  show "str_digit d \<noteq> CHR ''-''" "str_digit d \<noteq> CHR ''+''" "\<not> isspace (str_digit d)"
    unfolding isspace_def using n o by (auto dest!: arg_cong [where f = "of_char :: char \<Rightarrow> nat"])
qed

lemma digits_value_rep: "digits_value (map str_digit (base_rep 10 n)) = int n"
proof -
  have "foldl (\<lambda>a c. 10 * a + (of_char c - 48)) (int a) (map str_digit ds) = int (foldl (\<lambda>a d. 10 * a + d) a ds)"
    if "\<forall>d \<in> set ds. d < 10" for a ds
    using that
  proof (induction ds arbitrary: a)
    case (Cons d ds)
    have "10 * int a + (of_char (str_digit d) - 48) = int (10 * a + d)" using Cons.prems digit_char(2) [of d] by simp
    then show ?case using Cons.IH [of "10 * a + d"] Cons.prems by (simp only: list.map foldl.simps list.set ball_simps insert_iff) simp
  qed simp
  from this [of "base_rep 10 n" 0] show ?thesis
    using base_rep_digits [of 10] base_rep_value [of 10 n] by (simp add: digits_value_def)
qed

text \<open>A number survives its text: what \<open>String::toString\<close> writes in decimal for an \<open>int\<close>, \<open>toInt\<close> reads back, also
  with white space before it and anything but a digit behind it.\<close>

lemma toInt_toString:
  assumes n: "- (2 ^ 31) \<le> n" "n < 2 ^ 31" and ws: "\<forall>c \<in> set ws. isspace c" and rest: "rest = [] \<or> \<not> isdigit (hd rest)"
  shows "\<exists>str. String_toString_long n 10 = Some str \<and> toInt (ws @ str @ rest) = n"
proof -
  define ds where "ds = map str_digit (base_rep 10 (nat \<bar>n\<bar>))"
  have d: "\<forall>c \<in> set ds. isdigit c" "ds \<noteq> []" using base_rep_digits [of 10 _ "nat \<bar>n\<bar>"] digit_char(1) by (auto simp: ds_def base_rep_nonempty)
  have "\<exists>x xs. base_rep 10 (nat \<bar>n\<bar>) = x # xs \<and> x < 10"
    using base_rep_nonempty [of 10 "nat \<bar>n\<bar>"] base_rep_digits [of 10 _ "nat \<bar>n\<bar>"] by (cases "base_rep 10 (nat \<bar>n\<bar>)") auto
  then have h: "hd ds \<noteq> CHR ''-''" "hd ds \<noteq> CHR ''+''" "\<not> isspace (hd ds)" using digit_char(3-5) by (auto simp: ds_def)
  have str: "String_toString_long n 10 = Some (if n < 0 then CHR ''-'' # ds else ds)"
    using n String_toString_rep [of 10] by (auto simp: String_toString_long_def ds_def mod_pos_pos_trivial)
  have tw: "takeWhile isdigit (ds @ rest) = ds"
    using d(1) rest by (cases rest) (auto simp: takeWhile_append)
  have dw: "dropWhile isspace (ws @ xs) = dropWhile isspace xs" for xs using ws by (induction ws) auto
  have nh: "\<not> isspace CHR ''-''" by code_simp
  have v: "digits_value ds = \<bar>n\<bar>" unfolding ds_def digits_value_rep by simp
  obtain x xs where ds: "ds = x # xs" using d(2) by (cases ds) auto
  have "stoi (ws @ (if n < 0 then CHR ''-'' # ds else ds) @ rest) = Inr n"
  proof (cases "n < 0")
    case True
    then show ?thesis using tw n v d(2) nh by (simp add: stoi_def dw Let_def)
  next
    case False
    have "dropWhile isspace (ds @ rest) = ds @ rest" using h(3) ds by simp
    then show ?thesis using False tw n v d(2) h ds by (simp add: stoi_def dw Let_def)
  qed
  then show ?thesis using str by (simp add: toInt_def)
qed

lemma toInt_toString_witness: "\<exists>str. String_toString_long (- 120) 10 = Some str \<and> toInt ('' '' @ str @ '' V'') = - 120"
  using toInt_toString [of "- 120" "'' ''" "'' V''"] by (simp add: isspace_def isdigit_def)

text \<open>With base 1 the digits never end, and base 0 divides by zero.\<close>

lemma toString_base_1: "0 < n \<Longrightarrow> String_toString n 1 = None"
proof -
  have "str_digits b m str = Some r \<Longrightarrow> b = 1 \<Longrightarrow> m = 0" for b m str r
    by (rule str_digits.raw_induct [of "\<lambda>b m str r. b = 1 \<longrightarrow> m = 0", rule_format]) (auto split: if_splits)
  then have "str_digits 1 n [] = Some r \<Longrightarrow> 0 < n \<Longrightarrow> False" for r by blast
  then show "0 < n \<Longrightarrow> String_toString n 1 = None"
    by (cases "str_digits 1 n []") (auto simp: String_toString_def)
qed

section \<open>Searching and replacing\<close>

lemma match_at_iff: "match_at pat s i \<longleftrightarrow> (\<exists>p t. s = p @ pat @ t \<and> length p = i)"
proof
  assume "match_at pat s i"
  then have "s = take i s @ pat @ drop (length pat) (drop i s) \<and> length (take i s) = i"
    unfolding match_at_def by (metis append_take_drop_id length_take min.absorb2)
  then show "\<exists>p t. s = p @ pat @ t \<and> length p = i" by blast
qed (auto simp: match_at_def)

lemma std_find_None: "std_find pat s 0 = None \<longleftrightarrow> \<not> sublist pat s"
proof -
  have "(\<exists>i \<in> set [0..<Suc (length s)]. match_at pat s i) \<longleftrightarrow> sublist pat s"
  proof
    assume "sublist pat s"
    then obtain p t where "s = p @ pat @ t" by (auto simp: sublist_def)
    then have "length p \<in> set [0..<Suc (length s)] \<and> match_at pat s (length p)" by (auto simp: match_at_iff)
    then show "\<exists>i \<in> set [0..<Suc (length s)]. match_at pat s i" by blast
  qed (auto simp: match_at_iff sublist_def)
  then show ?thesis unfolding std_find_def find_None_iff by blast
qed

lemma find_SomeD: "find P xs = Some x \<Longrightarrow> x \<in> set xs \<and> P x"
  by (induction xs) (auto split: if_splits)

lemma std_rfind_Some: "std_rfind pat s None = Some i \<Longrightarrow> i \<le> length s \<and> match_at pat s i"
  unfolding std_rfind_def option.case by (drule find_SomeD) auto

lemma std_find_Some: "std_find pat s from = Some i \<Longrightarrow> from \<le> i \<and> match_at pat s i"
  unfolding std_find_def by (drule find_SomeD) auto

lemma replace_step:
  assumes "std_find str1 s 0 = Some found"
  shows "\<exists>p t. s = p @ str1 @ t \<and> String_replace str1 str2 s = String_replace str1 str2 (p @ str2 @ t)"
proof -
  obtain p t where s: "s = p @ str1 @ t" "length p = found"
    using std_find_Some [OF assms] by (auto simp: match_at_iff)
  have "String_replace str1 str2 s = String_replace str1 str2 (p @ str2 @ t)"
    by (subst String_replace.simps) (use assms s in simp)
  then show ?thesis using s by blast
qed

lemma replace_none: "\<not> sublist str1 s \<Longrightarrow> String_replace str1 str2 s = Some s"
  by (subst String_replace.simps) (simp add: std_find_None [THEN iffD2])

text \<open>C37. \<open>String::replace\<close> returns, with no occurrence of \<open>str1\<close> left, whenever the text put in has fewer characters
  of \<open>str1\<close> than \<open>str1\<close> has: each round then takes some of them out of the string.\<close>

theorem replace_terminates:
  assumes "length (filter (\<lambda>c. c \<in> set str1) str2) < length str1"
  shows "\<exists>r. String_replace str1 str2 s = Some r \<and> \<not> sublist str1 r"
proof (induction "length (filter (\<lambda>c. c \<in> set str1) s)" arbitrary: s rule: less_induct)
  case less
  show ?case
  proof (cases "std_find str1 s 0")
    case None
    then show ?thesis using replace_none std_find_None by blast
  next
    case (Some found)
    obtain p t where s: "s = p @ str1 @ t" "String_replace str1 str2 s = String_replace str1 str2 (p @ str2 @ t)"
      using replace_step [OF Some] by blast
    have "filter (\<lambda>c. c \<in> set str1) str1 = str1" by simp
    then have "length (filter (\<lambda>c. c \<in> set str1) (p @ str2 @ t)) < length (filter (\<lambda>c. c \<in> set str1) s)"
      using assms s(1) by simp
    from less [OF this] show ?thesis using s(2) by simp
  qed
qed

theorem replace_terminates_witness: "\<exists>r. String_replace ''aab'' ''ab'' ''aaaab aaabb'' = Some r \<and> \<not> sublist ''aab'' r"
  by (rule replace_terminates) simp

text \<open>Where the text put in contains \<open>str1\<close> itself, as \<open>"\n"\<close> in \<open>"\r\n"\<close>, one occurrence of it in the string is
  enough for \<open>replace\<close> never to return; an empty \<open>str1\<close> occurs everywhere.\<close>

lemma replace_never_returns:
  assumes "sublist str1 str2" "sublist str1 s"
  shows "String_replace str1 str2 s = None"
proof -
  have "String_replace a b s = Some r \<Longrightarrow> sublist a b \<longrightarrow> \<not> sublist a s" for a b s r
  proof (rule String_replace.raw_induct [of "\<lambda>a b s r. sublist a b \<longrightarrow> \<not> sublist a s"])
    fix rep :: "string \<Rightarrow> string \<Rightarrow> string \<Rightarrow> string option" and a b s r :: string
    assume IH: "\<And>a b s r. rep a b s = Some r \<Longrightarrow> sublist a b \<longrightarrow> \<not> sublist a s"
      and r: "(case std_find a s 0 of None \<Rightarrow> Some s | Some found \<Rightarrow> rep a b (take found s @ b @ drop (found + length a) s)) = Some r"
    show "sublist a b \<longrightarrow> \<not> sublist a s"
    proof (cases "std_find a s 0")
      case (Some found)
      have "sublist a b \<Longrightarrow> sublist a (take found s @ b @ drop (found + length a) s)"
        by (meson sublist_appendI sublist_order.order_trans)
      then show ?thesis using Some r IH by auto
    qed (simp add: std_find_None)
  qed
  then show ?thesis using assms by (cases "String_replace str1 str2 s") auto
qed

lemma replace_never_returns_witness:
  "String_replace [CHR 0x0A] [CHR 0x0D, CHR 0x0A] [CHR ''a'', CHR 0x0A] = None"
  by (rule replace_never_returns) (simp_all add: sublist_Cons_right)

lemma std_rfind_end:
  "std_rfind suf s None = Some (length s - length suf) \<and> length suf \<le> length s \<longleftrightarrow> suffix suf s"
proof
  assume "std_rfind suf s None = Some (length s - length suf) \<and> length suf \<le> length s"
  then have "match_at suf s (length s - length suf)" "length suf \<le> length s"
    using std_rfind_Some [of suf s "length s - length suf"] by simp_all
  then obtain p t where "s = p @ suf @ t" "length p = length s - length suf" unfolding match_at_iff by blast
  moreover have "length s = length p + length suf + length t" using calculation(1) by (metis length_append add.assoc)
  ultimately have "s = p @ suf" using \<open>length suf \<le> length s\<close> by simp
  then show "suffix suf s" by (simp add: suffix_def)
next
  assume "suffix suf s"
  then obtain p where s: "s = p @ suf" by (auto simp: suffix_def)
  have above: "\<not> match_at suf s i" if "length p < i" for i
  proof
    assume "match_at suf s i"
    then obtain p' t where "s = p' @ suf @ t" "length p' = i" unfolding match_at_iff by blast
    then have "length s = i + length suf + length t" by simp
    then show False using that s by simp
  qed
  have at: "match_at suf s (length p)" using s by (simp add: match_at_def)
  have split: "[0..<Suc (length s)] = [0..<Suc (length p)] @ [Suc (length p)..<Suc (length s)]"
    using upt_add_eq_append [of 0 "Suc (length p)" "length suf"] s by simp
  have app: "find P (xs @ ys) = (case find P xs of None \<Rightarrow> find P ys | Some x \<Rightarrow> Some x)" for P and xs ys :: "nat list"
    by (induction xs) auto
  have "find (match_at suf s) (rev [Suc (length p)..<Suc (length s)]) = None" using above by (auto simp: find_None_iff)
  then have "std_rfind suf s None = Some (length p)" unfolding std_rfind_def option.case split rev_append app using at by simp
  then show "std_rfind suf s None = Some (length s - length suf) \<and> length suf \<le> length s" using s by simp
qed

text \<open>\<open>endsWith\<close> tells a suffix, and one more case: nothing found is \<open>npos\<close>, the same number as the difference of
  the lengths when the suffix is one character longer than the string, so that the empty string ends with every character.\<close>

lemma endsWith_suffix_or_longer:
  assumes "length s < 2 ^ 63" "length suf < 2 ^ 63"
  shows "endsWith suf s \<longleftrightarrow> suffix suf s \<or> length suf = length s + 1"
proof -
  let ?n = "of_nat (length s) - of_nat (length suf) :: size_t"
  have le: "i \<le> length s" if "std_rfind suf s None = Some i" for i
    using that std_rfind_Some by blast
  have inj: "(of_nat i :: size_t) = of_nat j \<longleftrightarrow> i = j" if "i < 2 ^ 64" "j < 2 ^ 64" for i j :: nat
  proof
    assume "(of_nat i :: size_t) = of_nat j"
    then have "unat (of_nat i :: size_t) = unat (of_nat j :: size_t)" by simp
    then show "i = j" using that by (simp add: unsigned_of_nat take_bit_nat_eq_self)
  qed simp
  have eq: "of_nat i = ?n \<longleftrightarrow> i + length suf = length s" if "i \<le> length s" for i
  proof -
    have "of_nat i = ?n \<longleftrightarrow> (of_nat (i + length suf) :: size_t) = of_nat (length s)" by (auto simp: algebra_simps)
    then show ?thesis using inj [of "i + length suf" "length s"] assms that by simp
  qed
  have "npos = ?n \<longleftrightarrow> (of_nat (length suf) :: size_t) = of_nat (length s + 1)" by (auto simp: npos_def algebra_simps)
  then have eqn: "npos = ?n \<longleftrightarrow> length suf = length s + 1" using inj [of "length suf" "length s + 1"] assms by simp
  show ?thesis
  proof (cases "std_rfind suf s None")
    case None
    then show ?thesis using eqn std_rfind_end [of suf s] by (auto simp: endsWith_def to_size_def)
  next
    case (Some i)
    have "length suf = length s + 1 \<Longrightarrow> False"
      using std_rfind_Some [OF Some] by (auto simp: match_at_iff dest!: arg_cong [where f = length])
    then show ?thesis using Some eq [OF le [OF Some]] std_rfind_end [of suf s] by (auto simp: endsWith_def to_size_def)
  qed
qed

lemma endsWith_suffix_or_longer_witness: "endsWith ''/'' '''' \<and> \<not> endsWith ''/'' ''tmp'' \<and> endsWith ''/'' ''tmp/''"
  using endsWith_suffix_or_longer [of "''''" "''/''"] endsWith_suffix_or_longer [of "''tmp''" "''/''"]
    endsWith_suffix_or_longer [of "''tmp/''" "''/''"] by (simp add: suffix_Cons)

text \<open>From an offset on nothing is a prefix: what is found there is not found at index 0.\<close>

lemma startsWith_offset: "startsWith pre offset s \<longleftrightarrow> offset = 0 \<and> prefix pre s"
proof -
  have "std_find pre s 0 = Some 0 \<longleftrightarrow> prefix pre s"
    by (auto simp: std_find_def upt_conv_Cons match_at_iff prefix_def find_Some_iff simp del: upt_Suc)
  moreover have "0 < offset \<Longrightarrow> std_find pre s offset \<noteq> Some 0" using std_find_Some by fastforce
  ultimately show ?thesis by (cases "offset = 0") (auto simp: startsWith_def)
qed

end
