(* ===== verification/Streams.thy ===== *)
theory Streams
  imports ThreadBuffers Strings
begin

text \<open>
  The Arduino \<open>Stream\<close> class (\<open>src/arduino/Stream.cpp\<close>) and the \<open>Terminal\<close> that implements it over the buffer of the
  terminal notifier (\<open>src/arduino/Terminal.cpp\<close>, \<open>src/terminalnotifier.cpp\<close>).

  The virtual methods of \<open>Stream\<close> are a record of functions over the state of the derived class; a call that never
  returns has the value \<open>None\<close>. \<open>char\<close> is unsigned, as on ARM, so that a character compares with the \<open>int\<close> that \<open>read\<close>
  returns as its code. The loops over the input are \<open>partial_function\<close>s: on a stream that keeps sending they do not end.
  \<open>parseFloat\<close> is left out.
\<close>

section \<open>Stream\<close>

record 's stream_vtable =
  sv_available :: "'s \<Rightarrow> int \<times> 's"
  sv_read :: "'s \<Rightarrow> int \<times> 's"
  sv_timedRead :: "'s \<Rightarrow> (int \<times> 's) option"
  sv_timedPeek :: "'s \<Rightarrow> (int \<times> 's) option"

text \<open>The default \<open>timedRead\<close> and \<open>timedPeek\<close> of the base class poll \<open>read\<close> or \<open>peek\<close> until \<open>millis\<close> has advanced by the time-out.\<close>

partial_function (option) timed_poll :: "('s \<Rightarrow> int \<times> 's) \<Rightarrow> ('s \<Rightarrow> size_t \<times> 's) \<Rightarrow> size_t \<Rightarrow> size_t \<Rightarrow> 's \<Rightarrow> (int \<times> 's) option" where
  "timed_poll rd millis startMillis timeout s = (let (c, s) = rd s in
     if c \<ge> 0 then Some (c, s)
     else let (now, s) = millis s in
       if now - startMillis < timeout then timed_poll rd millis startMillis timeout s else Some (- 1, s))"

definition Stream_timed :: "('s \<Rightarrow> int \<times> 's) \<Rightarrow> ('s \<Rightarrow> size_t \<times> 's) \<Rightarrow> size_t \<Rightarrow> 's \<Rightarrow> (int \<times> 's) option" where
  "Stream_timed rd millis timeout s = (let (startMillis, s) = millis s in timed_poll rd millis startMillis timeout s)"

datatype LookaheadMode = SKIP_ALL | SKIP_NONE | SKIP_WHITESPACE

partial_function (option) peekNextDigit :: "'s stream_vtable \<Rightarrow> LookaheadMode \<Rightarrow> bool \<Rightarrow> 's \<Rightarrow> (int \<times> 's) option" where
  "peekNextDigit vt lookahead detectDecimal s = (case sv_timedPeek vt s of None \<Rightarrow> None
     | Some (c, s) \<Rightarrow>
       if c < 0 \<or> c = 45 \<or> 48 \<le> c \<and> c \<le> 57 \<or> detectDecimal \<and> c = 46 then Some (c, s)
       else if lookahead = SKIP_NONE then Some (- 1, s)
       else if lookahead = SKIP_WHITESPACE \<and> c \<notin> {32, 9, 13, 10} then Some (- 1, s)
       else peekNextDigit vt lookahead detectDecimal (snd (sv_read vt s)))"

text \<open>The digits of \<open>parseInt\<close>; \<open>value * 10 + c\<close>, before \<open>'0'\<close> is subtracted, must stay in the range of \<open>long\<close>.\<close>

definition long_range :: "int \<Rightarrow> bool" where
  "long_range v \<longleftrightarrow> - (2 ^ 63) \<le> v \<and> v < 2 ^ 63"

partial_function (option) parse_digits :: "'s stream_vtable \<Rightarrow> int \<Rightarrow> int \<Rightarrow> bool \<Rightarrow> int \<Rightarrow> 's \<Rightarrow> (bool \<times> int \<times> 's) option" where
  "parse_digits vt ignore c isNegative value s = (
     let isNegative = (isNegative \<or> c \<noteq> ignore \<and> c = 45);
       value = (if c \<noteq> ignore \<and> 48 \<le> c \<and> c \<le> 57 then value * 10 + c - 48 else value)
     in if \<not> long_range (value + 48) then None
     else case sv_timedPeek vt (snd (sv_read vt s)) of None \<Rightarrow> None
     | Some (c, s) \<Rightarrow> if 48 \<le> c \<and> c \<le> 57 \<or> c = ignore then parse_digits vt ignore c isNegative value s
         else Some (isNegative, value, s))"

partial_function (option) discard_available :: "'s stream_vtable \<Rightarrow> 's \<Rightarrow> 's option" where
  "discard_available vt s = (let (n, s) = sv_available vt s in
     if n \<noteq> 0 then discard_available vt (snd (sv_read vt s)) else Some s)"

definition parseInt :: "'s stream_vtable \<Rightarrow> LookaheadMode \<Rightarrow> int \<Rightarrow> 's \<Rightarrow> (int \<times> 's) option" where
  "parseInt vt lookahead ignore s = (case peekNextDigit vt lookahead False s of None \<Rightarrow> None
     | Some (c, s) \<Rightarrow> if c < 0 then Some (0, s)
       else case parse_digits vt ignore c False 0 s of None \<Rightarrow> None
       | Some (isNegative, value, s) \<Rightarrow>
         map_option (\<lambda>s. (if isNegative then - value else value, s)) (discard_available vt s))"

text \<open>\<open>readBytes\<close> and \<open>readBytesUntil\<close>: the characters that are stored, in a buffer of at least \<open>length\<close>.\<close>

fun readBytes :: "'s stream_vtable \<Rightarrow> nat \<Rightarrow> 's \<Rightarrow> (string \<times> 's) option" where
  "readBytes vt 0 s = Some ([], s)"
| "readBytes vt (Suc n) s = (case sv_timedRead vt s of None \<Rightarrow> None
     | Some (c, s) \<Rightarrow> if c < 0 then Some ([], s)
       else map_option (\<lambda>(str, s). (char_of c # str, s)) (readBytes vt n s))"

fun readBytesUntil :: "'s stream_vtable \<Rightarrow> char \<Rightarrow> nat \<Rightarrow> 's \<Rightarrow> (string \<times> 's) option" where
  "readBytesUntil vt terminator 0 s = Some ([], s)"
| "readBytesUntil vt terminator (Suc n) s = (case sv_timedRead vt s of None \<Rightarrow> None
     | Some (c, s) \<Rightarrow> if c < 0 \<or> c = of_char terminator then Some ([], s)
       else map_option (\<lambda>(str, s). (char_of c # str, s)) (readBytesUntil vt terminator n s))"

partial_function (option) readString_loop :: "'s stream_vtable \<Rightarrow> (int \<Rightarrow> bool) \<Rightarrow> string \<Rightarrow> 's \<Rightarrow> (string \<times> 's) option" where
  "readString_loop vt stop ret s = (case sv_timedRead vt s of None \<Rightarrow> None
     | Some (c, s) \<Rightarrow> if c \<ge> 0 \<and> \<not> stop c then readString_loop vt stop (ret @ [char_of c]) s else Some (ret, s))"

definition readString :: "'s stream_vtable \<Rightarrow> 's \<Rightarrow> (string \<times> 's) option" where
  "readString vt s = readString_loop vt (\<lambda>c. False) [] s"

definition readStringUntil :: "'s stream_vtable \<Rightarrow> char \<Rightarrow> 's \<Rightarrow> (string \<times> 's) option" where
  "readStringUntil vt terminator s = readString_loop vt (\<lambda>c. c = of_char terminator) [] s"

subsection \<open>findMulti\<close>

record multi_target =
  mt_str :: string
  mt_len :: nat
  mt_index :: nat

text \<open>The inner loop that walks the index back after a mismatch.\<close>

fun walk_back :: "string \<Rightarrow> int \<Rightarrow> nat \<Rightarrow> nat \<Rightarrow> nat" where
  "walk_back str c origIndex 0 = 0"
| "walk_back str c origIndex (Suc index) = (
     if c \<noteq> of_char (str ! index) then walk_back str c origIndex index
     else if index = 0 then index + 1
     else let diff = origIndex - index in
       if list_all (\<lambda>i. str ! i = str ! (i + diff)) [0..<index] then index + 1
       else walk_back str c origIndex index)"

text \<open>One target and one character: the new index, which is the length when the target is complete.\<close>

definition advance :: "int \<Rightarrow> multi_target \<Rightarrow> multi_target" where
  "advance c t = (if c = of_char (mt_str t ! mt_index t) then t\<lparr>mt_index := mt_index t + 1\<rparr>
     else if mt_index t = 0 then t
     else t\<lparr>mt_index := walk_back (mt_str t) c (mt_index t) (mt_index t)\<rparr>)"

text \<open>All targets in order, up to the first that is complete.\<close>

fun advance_all :: "int \<Rightarrow> nat \<Rightarrow> multi_target list \<Rightarrow> nat option \<times> multi_target list" where
  "advance_all c i [] = (None, [])"
| "advance_all c i (t # ts) = (let matched = (c = of_char (mt_str t ! mt_index t)); t = advance c t
     in if matched \<and> mt_index t = mt_len t then (Some i, t # ts)
     else let (r, ts) = advance_all c (i + 1) ts in (r, t # ts))"

partial_function (option) findMulti_loop :: "'s stream_vtable \<Rightarrow> multi_target list \<Rightarrow> 's \<Rightarrow> (int \<times> 's) option" where
  "findMulti_loop vt targets s = (case sv_timedRead vt s of None \<Rightarrow> None
     | Some (c, s) \<Rightarrow> if c < 0 then Some (- 1, s)
       else case advance_all c 0 targets of (Some i, targets) \<Rightarrow> Some (int i, s)
         | (None, targets) \<Rightarrow> findMulti_loop vt targets s)"

definition findMulti :: "'s stream_vtable \<Rightarrow> multi_target list \<Rightarrow> 's \<Rightarrow> (int \<times> 's) option" where
  "findMulti vt targets s = (case List.find (\<lambda>i. mt_len (targets ! i) = 0) [0..<length targets] of Some i \<Rightarrow> Some (int i, s)
     | None \<Rightarrow> findMulti_loop vt targets s)"

definition findUntil :: "'s stream_vtable \<Rightarrow> string \<Rightarrow> string option \<Rightarrow> 's \<Rightarrow> (bool \<times> 's) option" where
  "findUntil vt target terminator s = map_option (\<lambda>(i, s). (i = 0, s)) (findMulti vt
     (case terminator of None \<Rightarrow> [\<lparr>mt_str = target, mt_len = length target, mt_index = 0\<rparr>]
      | Some term \<Rightarrow> [\<lparr>mt_str = target, mt_len = length target, mt_index = 0\<rparr>, \<lparr>mt_str = term, mt_len = length term, mt_index = 0\<rparr>]) s)"

section \<open>Terminal\<close>

record terminal =
  t_buf :: "char tsbuf"
  t_wakes :: "char wakes"
  t_timeout :: size_t
  read_error :: int

definition terminal_result :: "int \<Rightarrow> terminal \<Rightarrow> (char option \<times> char tsbuf \<times> char wakes) \<Rightarrow> int \<times> terminal" where
  "terminal_result errno s r = (case r of (Some c, b, ws) \<Rightarrow> (of_char c, s\<lparr>t_buf := b, t_wakes := ws\<rparr>)
     | (None, b, ws) \<Rightarrow> (- 1, s\<lparr>t_buf := b, t_wakes := ws, read_error := errno\<rparr>))"

definition Terminal_read :: "int \<Rightarrow> terminal \<Rightarrow> int \<times> terminal" where
  "Terminal_read errno s = (let (r, b) = readData (t_buf s) in terminal_result errno s (r, b, t_wakes s))"

definition Terminal_timedRead :: "int \<Rightarrow> terminal \<Rightarrow> (int \<times> terminal) option" where
  "Terminal_timedRead errno s = map_option (terminal_result errno s) (tsb_read (sint (t_timeout s)) (t_buf s, t_wakes s))"

definition Terminal_timedPeek :: "int \<Rightarrow> terminal \<Rightarrow> (int \<times> terminal) option" where
  "Terminal_timedPeek errno s = map_option (terminal_result errno s) (tsb_peek (sint (t_timeout s)) (t_buf s, t_wakes s))"

definition Terminal_available :: "terminal \<Rightarrow> int \<times> terminal" where
  "Terminal_available s = (int (tsb_size (t_buf s)), s)"

definition Terminal_vtable :: "int \<Rightarrow> terminal stream_vtable" where
  "Terminal_vtable errno = \<lparr>sv_available = Terminal_available, sv_read = Terminal_read errno,
     sv_timedRead = Terminal_timedRead errno, sv_timedPeek = Terminal_timedPeek errno\<rparr>"

section \<open>Searching: the index is the longest prefix of the target at the end of the input\<close>

lemma suffix_take_snoc:
  assumes "j < length str"
  shows "suffix (take (Suc j) str) (w @ [c]) \<longleftrightarrow> suffix (take j str) w \<and> str ! j = c"
  using assms by (auto simp: take_Suc_conv_app_nth)

lemma border_iff:
  assumes "j \<le> m" "m \<le> length str"
  shows "suffix (take j str) (take m str) \<longleftrightarrow> list_all (\<lambda>i. str ! i = str ! (i + (m - j))) [0..<j]"
proof -
  have "suffix (take j str) (take m str) \<longleftrightarrow> take j str = drop (m - j) (take m str)"
  proof
    assume "suffix (take j str) (take m str)"
    then obtain zs where z: "take m str = zs @ take j str" by (auto simp: suffix_def)
    then have "length (take m str) = length zs + length (take j str)" by (metis length_append)
    then have "length zs = m - j" using assms by simp
    then show "take j str = drop (m - j) (take m str)" unfolding z by simp
  next
    assume "take j str = drop (m - j) (take m str)"
    then show "suffix (take j str) (take m str)" by (metis suffix_drop)
  qed
  also have "\<dots> \<longleftrightarrow> (\<forall>i < j. str ! i = str ! (i + (m - j)))"
    using assms by (auto simp: list_eq_iff_nth_eq add.commute)
  finally show ?thesis by (auto simp: list_all_iff)
qed

lemma walk_back_spec:
  fixes str m c
  defines "hit j \<equiv> str ! j = c \<and> suffix (take j str) (take m str)"
  assumes "index \<le> m" "m \<le> length str"
  shows "walk_back str (of_char c) m index \<le> index \<and>
    (\<forall>j < index. hit j \<longrightarrow> Suc j \<le> walk_back str (of_char c) m index) \<and>
    (walk_back str (of_char c) m index = 0 \<or> (\<exists>j. walk_back str (of_char c) m index = Suc j \<and> hit j))"
  using assms(2)
proof (induction index)
  case (Suc index)
  then have IH: "walk_back str (of_char c) m index \<le> index"
    "\<forall>j < index. hit j \<longrightarrow> Suc j \<le> walk_back str (of_char c) m index"
    "walk_back str (of_char c) m index = 0 \<or> (\<exists>j. walk_back str (of_char c) m index = Suc j \<and> hit j)" by simp_all
  have h: "hit index \<longleftrightarrow> str ! index = c \<and> list_all (\<lambda>i. str ! i = str ! (i + (m - index))) [0..<index]"
    using border_iff [of index m str] Suc.prems assms(3) by (simp add: hit_def)
  have "walk_back str (of_char c) m (Suc index) = (if hit index then Suc index else walk_back str (of_char c) m index)"
    by (auto simp: h Let_def)
  then show ?case using IH by (auto simp: less_Suc_eq le_Suc_eq)
qed simp

definition tracks :: "multi_target \<Rightarrow> string \<Rightarrow> bool" where
  "tracks t w \<longleftrightarrow> mt_len t = length (mt_str t) \<and> mt_index t < mt_len t \<and> suffix (take (mt_index t) (mt_str t)) w \<and>
     (\<forall>k < mt_len t. suffix (take k (mt_str t)) w \<longrightarrow> k \<le> mt_index t)"

lemma tracks_new: "str \<noteq> [] \<Longrightarrow> tracks \<lparr>mt_str = str, mt_len = length str, mt_index = 0\<rparr> []"
  by (auto simp: tracks_def)

lemma suffix_prefixes:
  "suffix (take m str) w \<Longrightarrow> j \<le> m \<Longrightarrow> m \<le> length str \<Longrightarrow> suffix (take j str) w \<longleftrightarrow> suffix (take j str) (take m str)"
  using suffix_length_suffix [of "take j str" w "take m str"] by (auto intro: suffix_order.trans)

lemma advance_index_le:
  "tracks t w \<Longrightarrow> mt_index (advance (of_char c) t) \<le> mt_len t"
  using walk_back_spec [of "mt_index t" "mt_index t" "mt_str t" c] by (auto simp: advance_def tracks_def)

lemma advance_longest:
  assumes "tracks t w" "k \<le> mt_len t"
  shows "suffix (take k (mt_str t)) (w @ [c]) \<Longrightarrow> k \<le> mt_index (advance (of_char c) t)"
proof (cases k)
  case (Suc j)
  assume s: "suffix (take k (mt_str t)) (w @ [c])"
  let ?m = "mt_index t" and ?str = "mt_str t"
  have l: "j < length ?str" "?m < length ?str" using assms Suc by (auto simp: tracks_def)
  have j: "suffix (take j ?str) w" "?str ! j = c" using s Suc suffix_take_snoc [OF l(1)] by auto
  have jm: "j \<le> ?m" using assms(1) j(1) l by (auto simp: tracks_def)
  show ?thesis
  proof (cases "?str ! ?m = c")
    case True
    then show ?thesis using jm Suc by (simp add: advance_def)
  next
    case False
    then have jm: "j < ?m" using j(2) jm by (cases "j = ?m") auto
    have "suffix (take j ?str) (take ?m ?str)"
      using suffix_prefixes [of ?m ?str w j] j(1) jm l assms(1) by (auto simp: tracks_def)
    then show ?thesis using walk_back_spec [of ?m ?m ?str c] False jm l j(2) Suc by (auto simp: advance_def)
  qed
qed simp

lemma advance_suffix:
  assumes "tracks t w"
  shows "suffix (take (mt_index (advance (of_char c) t)) (mt_str t)) (w @ [c])"
proof -
  let ?m = "mt_index t" and ?str = "mt_str t"
  have l: "?m < length ?str" "suffix (take ?m ?str) w" using assms by (auto simp: tracks_def)
  show ?thesis
  proof (cases "?str ! ?m = c")
    case True
    then show ?thesis using suffix_take_snoc [OF l(1)] l(2) by (simp add: advance_def)
  next
    case False
    from walk_back_spec [of ?m ?m ?str c] l
    consider "walk_back ?str (of_char c) ?m ?m = 0"
      | j where "walk_back ?str (of_char c) ?m ?m = Suc j" "?str ! j = c" "suffix (take j ?str) (take ?m ?str)" "j < ?m" by force
    then show ?thesis
    proof cases
      case 2
      then have "suffix (take j ?str) w" using l(2) suffix_order.trans by blast
      then show ?thesis using 2 False l suffix_take_snoc [of j ?str w c] by (auto simp: advance_def)
    qed (use False in \<open>auto simp: advance_def\<close>)
  qed
qed

lemma advance_str: "mt_str (advance c t) = mt_str t" "mt_len (advance c t) = mt_len t"
  by (simp_all add: advance_def)

lemma advance_complete:
  assumes "tracks t w"
  shows "mt_index (advance (of_char c) t) = mt_len t \<longleftrightarrow> suffix (mt_str t) (w @ [c])"
  using advance_suffix [OF assms, of c] advance_longest [OF assms, of "mt_len t" c] advance_index_le [OF assms, of c] assms
  by (auto simp: tracks_def intro: le_antisym)

lemma advance_matched:
  assumes "tracks t w" "mt_index (advance (of_char c) t) = mt_len t"
  shows "of_char c = (of_char (mt_str t ! mt_index t) :: int)"
proof (rule ccontr)
  assume "of_char c \<noteq> (of_char (mt_str t ! mt_index t) :: int)"
  then have "mt_index (advance (of_char c) t) \<le> mt_index t"
    using walk_back_spec [of "mt_index t" "mt_index t" "mt_str t" c] assms(1) by (auto simp: advance_def tracks_def)
  then show False using assms by (simp add: tracks_def)
qed

lemma advance_tracks:
  assumes "tracks t w" "\<not> suffix (mt_str t) (w @ [c])"
  shows "tracks (advance (of_char c) t) (w @ [c])"
proof -
  have "mt_index (advance (of_char c) t) < mt_len t"
    using advance_complete [OF assms(1), of c] advance_index_le [OF assms(1), of c] assms(2) by linarith
  then show ?thesis using advance_suffix [OF assms(1), of c] advance_longest [OF assms(1), of _ c] assms(1)
    by (auto simp: tracks_def advance_str)
qed

lemma of_char_nonneg [simp]: "(0 :: int) \<le> of_char c" "\<not> (of_char c :: int) < 0"
  by (metis of_nat_of_char of_nat_0_le_iff) (metis of_nat_of_char of_nat_0_le_iff not_less)

text \<open>The reference search: the shortest part of the input that ends with one of the targets, and the first of them.\<close>

definition ending :: "string list \<Rightarrow> string \<Rightarrow> nat option" where
  "ending targets w = List.find (\<lambda>i. suffix (targets ! i) w) [0..<length targets]"

fun first_hit :: "string list \<Rightarrow> string \<Rightarrow> string \<Rightarrow> (nat \<times> string) option" where
  "first_hit targets w [] = None"
| "first_hit targets w (c # cs) = (case ending targets (w @ [c]) of Some i \<Rightarrow> Some (i, cs)
     | None \<Rightarrow> first_hit targets (w @ [c]) cs)"

lemma ending_Cons: "ending (t # ts) w = (if suffix t w then Some 0 else map_option Suc (ending ts w))"
proof -
  have "List.find P [Suc 0..<Suc n] = map_option Suc (List.find (\<lambda>i. P (Suc i)) [0..<n])" for P n
  proof -
    have "List.find P (map Suc xs) = map_option Suc (List.find (\<lambda>i. P (Suc i)) xs)" for xs by (induction xs) auto
    from this [of "[0..<n]"] show ?thesis by (simp only: map_Suc_upt)
  qed
  then show ?thesis by (simp add: ending_def upt_conv_Cons del: upt_Suc)
qed

lemma ending_None: "ending ts w = None \<longleftrightarrow> (\<forall>t \<in> set ts. \<not> suffix t w)"
  by (auto simp: ending_def find_None_iff set_conv_nth)

lemma advance_all_ending:
  assumes "\<forall>t \<in> set ts. tracks t w"
  shows "(ending (map mt_str ts) (w @ [c]) = Some j \<longrightarrow> fst (advance_all (of_char c) i ts) = Some (i + j)) \<and>
    (ending (map mt_str ts) (w @ [c]) = None \<longrightarrow> advance_all (of_char c) i ts = (None, map (advance (of_char c)) ts) \<and>
       (\<forall>t \<in> set ts. tracks (advance (of_char c) t) (w @ [c])))"
  using assms
proof (induction ts arbitrary: i j)
  case Nil
  then show ?case by (simp add: ending_def)
next
  case (Cons t ts)
  have t: "tracks t w" using Cons.prems by simp
  have hit: "of_char c = (of_char (mt_str t ! mt_index t) :: int) \<and> mt_index (advance (of_char c) t) = mt_len (advance (of_char c) t)
      \<longleftrightarrow> suffix (mt_str t) (w @ [c])"
    using advance_complete [OF t, of c] advance_matched [OF t, of c] by (auto simp: advance_str)
  show ?case
  proof (cases "suffix (mt_str t) (w @ [c])")
    case True
    then have "of_char c = (of_char (mt_str t ! mt_index t) :: int)" "mt_index (advance (of_char c) t) = mt_len (advance (of_char c) t)"
      using hit by blast+
    then show ?thesis using True by (simp only: advance_all.simps Let_def) (simp add: ending_Cons del: suffix_snoc)
  next
    case False
    then show ?thesis using hit Cons.IH [of "j - 1" "i + 1"] Cons.prems advance_tracks [OF t False]
      by (auto simp: ending_Cons Let_def split_beta simp del: suffix_snoc)
  qed
qed

section \<open>The interface of a stream of bytes\<close>

text \<open>What the parsing functions rely on: \<open>pending\<close> is what is still to come before a time-out, and \<open>buffered\<close> the part
  of it that has arrived.\<close>

locale byte_stream =
  fixes vt :: "'s stream_vtable" and ok :: "'s \<Rightarrow> bool" and pending :: "'s \<Rightarrow> string" and buffered :: "'s \<Rightarrow> string"
  assumes timedRead_Cons: "ok s \<Longrightarrow> pending s = c # cs \<Longrightarrow> \<exists>s'. sv_timedRead vt s = Some (of_char c, s') \<and> ok s' \<and> pending s' = cs"
    and timedRead_Nil: "ok s \<Longrightarrow> pending s = [] \<Longrightarrow> \<exists>s'. sv_timedRead vt s = Some (- 1, s')"
    and timedPeek_Cons: "ok s \<Longrightarrow> pending s = c # cs \<Longrightarrow>
      \<exists>s'. sv_timedPeek vt s = Some (of_char c, s') \<and> ok s' \<and> pending s' = pending s \<and> buffered s' \<noteq> []"
    and timedPeek_Nil: "ok s \<Longrightarrow> pending s = [] \<Longrightarrow> \<exists>s'. sv_timedPeek vt s = Some (- 1, s') \<and> sv_available vt s' = (0, s')"
    and read_Cons: "ok s \<Longrightarrow> buffered s = c # bs \<Longrightarrow>
      \<exists>s'. sv_read vt s = (of_char c, s') \<and> ok s' \<and> pending s = c # pending s' \<and> buffered s' = bs"
    and available: "ok s \<Longrightarrow> sv_available vt s = (int (length (buffered s)), s)"
begin

lemma readBytes_pending:
  "ok s \<Longrightarrow> \<exists>s'. readBytes vt n s = Some (take n (pending s), s') \<and>
     (n \<le> length (pending s) \<longrightarrow> ok s' \<and> pending s' = drop n (pending s))"
proof (induction n arbitrary: s)
  case (Suc n)
  show ?case
  proof (cases "pending s")
    case Nil
    then show ?thesis using timedRead_Nil [OF Suc.prems] by auto
  next
    case (Cons c cs)
    obtain s1 where s1: "sv_timedRead vt s = Some (of_char c, s1)" "ok s1" "pending s1 = cs"
      using timedRead_Cons [OF Suc.prems Cons] by blast
    from Suc.IH [OF s1(2)] show ?thesis using s1 Cons by auto
  qed
qed simp

lemma readString_loop_pending:
  assumes "ok s"
  shows "\<exists>s'. readString_loop vt stop ret s = Some (ret @ takeWhile (\<lambda>c. \<not> stop (of_char c)) (pending s), s') \<and>
    (\<forall>c cs. dropWhile (\<lambda>c. \<not> stop (of_char c)) (pending s) = c # cs \<longrightarrow> ok s' \<and> pending s' = cs)"
  using assms
proof (induction "pending s" arbitrary: s ret)
  case Nil
  then obtain s1 where "sv_timedRead vt s = Some (- 1, s1)" using timedRead_Nil [OF Nil.prems] by auto
  then show ?case using Nil by (subst readString_loop.simps) simp
next
  case (Cons c cs)
  obtain s1 where s1: "sv_timedRead vt s = Some (of_char c, s1)" "ok s1" "pending s1 = cs"
    using timedRead_Cons [OF Cons.prems Cons.hyps(2) [symmetric]] by blast
  show ?case
  proof (cases "stop (of_char c)")
    case True
    then show ?thesis using s1 Cons.hyps(2) [symmetric] by (subst readString_loop.simps) simp
  next
    case False
    have "\<exists>s'. readString_loop vt stop (ret @ [c]) s1 = Some ((ret @ [c]) @ takeWhile (\<lambda>c. \<not> stop (of_char c)) (pending s1), s') \<and>
        (\<forall>c cs. dropWhile (\<lambda>c. \<not> stop (of_char c)) (pending s1) = c # cs \<longrightarrow> ok s' \<and> pending s' = cs)"
      by (rule Cons.hyps(1)) (use s1 in simp_all)
    then show ?thesis using s1 False Cons.hyps(2) [symmetric] by (subst readString_loop.simps) auto
  qed
qed

lemma findMulti_loop_pending:
  assumes "ok s" "\<forall>t \<in> set ts. tracks t w"
  shows "\<exists>s'. findMulti_loop vt ts s = Some (case first_hit (map mt_str ts) w (pending s) of None \<Rightarrow> - 1 | Some (i, r) \<Rightarrow> int i, s') \<and>
    (\<forall>i r. first_hit (map mt_str ts) w (pending s) = Some (i, r) \<longrightarrow> ok s' \<and> pending s' = r)"
  using assms
proof (induction "pending s" arbitrary: s ts w)
  case Nil
  then obtain s1 where "sv_timedRead vt s = Some (- 1, s1)" using timedRead_Nil [OF Nil.prems(1)] by auto
  then show ?case using Nil.hyps by (subst findMulti_loop.simps) simp
next
  case (Cons c cs)
  obtain s1 where s1: "sv_timedRead vt s = Some (of_char c, s1)" "ok s1" "pending s1 = cs"
    using timedRead_Cons [OF Cons.prems(1) Cons.hyps(2) [symmetric]] by blast
  note adv = advance_all_ending [OF Cons.prems(2), of c]
  show ?case
  proof (cases "ending (map mt_str ts) (w @ [c])")
    case (Some j)
    then obtain ts' where "advance_all (of_char c) 0 ts = (Some j, ts')" using adv [of j 0] by (cases "advance_all (of_char c) 0 ts") auto
    then show ?thesis using s1 Some Cons.hyps(2) [symmetric] by (subst findMulti_loop.simps) simp
  next
    case None
    then have a: "advance_all (of_char c) 0 ts = (None, map (advance (of_char c)) ts)"
      "\<forall>t \<in> set (map (advance (of_char c)) ts). tracks t (w @ [c])" using adv [of 0 0] by auto
    have m: "map mt_str (map (advance (of_char c)) ts) = map mt_str ts" by (simp add: advance_str)
    from Cons.hyps(1) [OF _ s1(2) a(2)] show ?thesis
      using s1 a None Cons.hyps(2) [symmetric] by (subst findMulti_loop.simps) (simp add: advance_str comp_def)
  qed
qed

end

section \<open>Numbers in a stream\<close>

lemma isdigit_code: "isdigit c \<longleftrightarrow> 48 \<le> (of_char c :: int) \<and> (of_char c :: int) \<le> 57"
proof -
  have "(of_char c :: int) = int (of_char c)" by (rule of_nat_of_char [symmetric])
  then show ?thesis by (simp add: isdigit_def)
qed

definition digits_from :: "int \<Rightarrow> string \<Rightarrow> int" where
  "digits_from a ds = foldl (\<lambda>n c. 10 * n + (of_char c - 48)) a ds"

lemma digits_from_simps [simp]:
  "digits_from a [] = a" "digits_from a (c # ds) = digits_from (10 * a + (of_char c - 48)) ds"
  by (simp_all add: digits_from_def)

lemma digits_from_mono: "0 \<le> a \<Longrightarrow> \<forall>c \<in> set ds. isdigit c \<Longrightarrow> a \<le> digits_from a ds"
proof (induction ds arbitrary: a)
  case (Cons c ds)
  then have "a \<le> 10 * a + (of_char c - 48)" "0 \<le> 10 * a + (of_char c - 48)" by (auto simp: isdigit_code)
  then show ?case using Cons.IH [of "10 * a + (of_char c - 48)"] Cons.prems by auto
qed simp

context byte_stream
begin

lemma read_pending:
  "ok s \<Longrightarrow> buffered s \<noteq> [] \<Longrightarrow> ok (snd (sv_read vt s)) \<and> pending (snd (sv_read vt s)) = tl (pending s) \<and> pending s \<noteq> [] \<and>
     buffered (snd (sv_read vt s)) = tl (buffered s)"
  using read_Cons by (cases "buffered s") fastforce+

lemma peekNextDigit_skips:
  assumes "ok s" "pending s = junk @ c # cs" "\<forall>x \<in> set junk. \<not> isdigit x \<and> x \<noteq> CHR ''-''" "isdigit c \<or> c = CHR ''-''"
  shows "\<exists>s'. peekNextDigit vt SKIP_ALL False s = Some (of_char c, s') \<and> ok s' \<and> pending s' = c # cs \<and> buffered s' \<noteq> []"
  using assms
proof (induction junk arbitrary: s)
  case Nil
  obtain s1 where "sv_timedPeek vt s = Some (of_char c, s1) \<and> ok s1 \<and> pending s1 = pending s \<and> buffered s1 \<noteq> []"
    using timedPeek_Cons [OF Nil.prems(1)] Nil.prems(2) by fastforce
  then show ?case using Nil.prems by (subst peekNextDigit.simps) (auto simp: isdigit_code)
next
  case (Cons x junk)
  obtain s1 where s1: "sv_timedPeek vt s = Some (of_char x, s1)" "ok s1" "pending s1 = pending s" "buffered s1 \<noteq> []"
    using timedPeek_Cons [OF Cons.prems(1)] Cons.prems(2) by fastforce
  note r = read_pending [OF s1(2,4)]
  have x: "\<not> isdigit x" "(of_char x :: int) \<noteq> 45" using Cons.prems(3) of_char_eq_iff [of x "CHR ''-''", where ?'a = int] by auto
  have "\<exists>s'. peekNextDigit vt SKIP_ALL False (snd (sv_read vt s1)) = Some (of_char c, s') \<and> ok s' \<and> pending s' = c # cs \<and> buffered s' \<noteq> []"
    by (rule Cons.IH) (use r s1 Cons.prems in auto)
  then show ?case using s1 x by (subst peekNextDigit.simps) (auto simp: isdigit_code)
qed

text \<open>The state after the digits: the time-out has come, or the rest follows.\<close>

definition after :: "string \<Rightarrow> 's \<Rightarrow> bool" where
  "after rest s \<longleftrightarrow> (if rest = [] then sv_available vt s = (0, s) else ok s \<and> pending s = rest)"

lemma parse_digits_value:
  assumes "ok s" "buffered s \<noteq> []" "pending s = c # ds @ rest" "isdigit c \<or> c = CHR ''-''" "\<forall>x \<in> set ds. isdigit x"
    and rest: "rest = [] \<or> \<not> isdigit (hd rest) \<and> hd rest \<noteq> CHR 0x01"
    and "0 \<le> v" "digits_from v (if isdigit c then c # ds else ds) + 48 < 2 ^ 63"
  shows "\<exists>s'. parse_digits vt 1 (of_char c) neg v s =
    Some (neg \<or> c = CHR ''-'', digits_from v (if isdigit c then c # ds else ds), s') \<and> after rest s'"
  using assms(1-5,7,8)
proof (induction ds arbitrary: s c v neg)
  case Nil
  let ?v = "if isdigit c then v * 10 + of_char c - 48 else v"
  note r = read_pending [OF Nil.prems(1,2)]
  have p: "pending (snd (sv_read vt s)) = rest" using r Nil.prems(3) by simp
  obtain x s' where x: "sv_timedPeek vt (snd (sv_read vt s)) = Some (x, s')" "after rest s'" "\<not> (48 \<le> x \<and> x \<le> 57 \<or> x = 1)"
  proof (cases rest)
    case Nil
    then show ?thesis using timedPeek_Nil [of "snd (sv_read vt s)"] r p that by (auto simp: after_def)
  next
    case (Cons y ys)
    then have "(of_char y :: int) \<noteq> 1" using rest of_char_eq_iff [of y "CHR 0x01", where ?'a = int] by auto
    moreover have "\<not> (48 \<le> (of_char y :: int) \<and> (of_char y :: int) \<le> 57)" using rest Cons by (simp add: isdigit_code)
    moreover obtain s' where "sv_timedPeek vt (snd (sv_read vt s)) = Some (of_char y, s')" "ok s'" "pending s' = rest"
      using timedPeek_Cons [OF conjunct1 [OF r], of y ys] p Cons by auto
    ultimately show ?thesis using that Cons by (simp add: after_def)
  qed
  have c1: "(of_char c :: int) \<noteq> 1" using Nil.prems(4) by (auto simp: isdigit_code)
  have c2: "c = CHR ''-'' \<longleftrightarrow> (of_char c :: int) = 45" using of_char_eq_iff [of c "CHR ''-''", where ?'a = int] by simp
  show ?case using x c1 c2 Nil.prems
    by (subst parse_digits.simps) (auto simp: isdigit_code long_range_def Let_def mult.commute)
next
  case (Cons d ds)
  let ?v = "if isdigit c then 10 * v + (of_char c - 48) else v"
  note r = read_pending [OF Cons.prems(1,2)]
  have p: "pending (snd (sv_read vt s)) = d # ds @ rest" using r Cons.prems(3) by simp
  obtain s1 where s1: "sv_timedPeek vt (snd (sv_read vt s)) = Some (of_char d, s1)" "ok s1" "pending s1 = d # ds @ rest" "buffered s1 \<noteq> []"
    using timedPeek_Cons [OF conjunct1 [OF r] p] p by auto
  have d: "isdigit d" "48 \<le> (of_char d :: int)" "(of_char d :: int) \<le> 57" "d \<noteq> CHR ''-''"
    using Cons.prems(5) by (auto simp: isdigit_code)
  have v: "0 \<le> ?v" using Cons.prems by (auto simp: isdigit_code)
  have dv: "digits_from v (if isdigit c then c # d # ds else d # ds) = digits_from ?v (d # ds)" by simp
  have "?v \<le> digits_from ?v (d # ds)" using digits_from_mono [OF v] Cons.prems(5) by blast
  then have b: "?v + 48 < 2 ^ 63" "digits_from ?v (d # ds) + 48 < 2 ^ 63" using Cons.prems(7) dv by simp_all
  have "\<exists>s'. parse_digits vt 1 (of_char d) (neg \<or> c = CHR ''-'') ?v s1 =
      Some ((neg \<or> c = CHR ''-'') \<or> d = CHR ''-'', digits_from ?v (if isdigit d then d # ds else ds), s') \<and> after rest s'"
    by (rule Cons.IH) (use s1 d v b Cons.prems in auto)
  then have I: "\<exists>s'. parse_digits vt 1 (of_char d) (neg \<or> c = CHR ''-'') ?v s1 = Some (neg \<or> c = CHR ''-'', digits_from ?v (d # ds), s') \<and> after rest s'"
    using d by simp
  have c1: "(of_char c :: int) \<noteq> 1" using Cons.prems(4) by (auto simp: isdigit_code)
  have c2: "c = CHR ''-'' \<longleftrightarrow> (of_char c :: int) = 45" using of_char_eq_iff [of c "CHR ''-''", where ?'a = int] by simp
  have eq: "parse_digits vt 1 (of_char c) neg v s = parse_digits vt 1 (of_char d) (neg \<or> c = CHR ''-'') ?v s1"
    using s1 c1 c2 d b v by (subst parse_digits.simps) (auto simp: isdigit_code long_range_def Let_def mult.commute add_diff_eq)
  show ?case using I unfolding eq dv by simp
qed

lemma discard_all: "ok s \<Longrightarrow> \<exists>s'. discard_available vt s = Some s' \<and> ok s' \<and> buffered s' = [] \<and> pending s = buffered s @ pending s'"
proof (induction "buffered s" arbitrary: s)
  case Nil
  then show ?case using available [OF Nil.prems] by (subst discard_available.simps) auto
next
  case (Cons c bs)
  obtain s1 where s1: "sv_read vt s = (of_char c, s1)" "ok s1" "pending s = c # pending s1" "buffered s1 = bs"
    using read_Cons [OF Cons.prems Cons.hyps(2) [symmetric]] by blast
  obtain s' where "discard_available vt s1 = Some s'" "ok s'" "buffered s' = []" "pending s1 = buffered s1 @ pending s'"
    using Cons.hyps(1) [of s1] s1 by auto
  then show ?case using available [OF Cons.prems] s1 Cons.hyps(2) [symmetric]
    by (subst discard_available.simps) auto
qed

end

lemma print_digit_small: "d < 10 \<Longrightarrow> print_digit d = str_digit d"
  by (simp add: print_digit_def str_digit_def)

text \<open>The decimal text of a number: a sign and its digits.\<close>

lemma Print_long_text_shape:
  assumes "- (2 ^ 63) < n" "n < 2 ^ 63"
  shows "\<exists>d ds. Print_long_text n 10 = Some (if n < 0 then CHR ''-'' # d # ds else d # ds) \<and>
    (\<forall>x \<in> set (d # ds). isdigit x) \<and> digits_from 0 (d # ds) = \<bar>n\<bar>"
proof -
  define m where "m = nat \<bar>n\<bar>"
  have m: "m < 2 ^ 64" "int m = \<bar>n\<bar>" using assms by (auto simp: m_def)
  have "\<forall>x \<in> set (base_rep 10 m). x < 10" using base_rep_digits by auto
  then have pm: "map print_digit (base_rep 10 m) = map str_digit (base_rep 10 m)" using print_digit_small by simp
  have t: "Print_toString m 10 = Some (map str_digit (base_rep 10 m))" using Print_toString_rep [of 10 m] m pm by simp
  obtain d ds where ds: "map str_digit (base_rep 10 m) = d # ds" using base_rep_nonempty [of 10 m] by (cases "map str_digit (base_rep 10 m)") auto
  have dig: "\<forall>x \<in> set (d # ds). isdigit x" unfolding ds [symmetric] using base_rep_digits [of 10 _ m] digit_char(1) by auto
  have val: "digits_from 0 (d # ds) = \<bar>n\<bar>" using digits_value_rep [of m] m(2) unfolding ds digits_value_def digits_from_def by simp
  have "Print_long_text n 10 = Some (if n < 0 then CHR ''-'' # d # ds else d # ds)"
    using t ds assms by (auto simp: Print_long_text_def m_def)
  then show ?thesis using dig val by blast
qed

context byte_stream
begin

lemma parseInt_text:
  assumes "ok s" and n: "\<bar>n\<bar> + 48 < 2 ^ 63" and str: "Print_long_text n 10 = Some str" and p: "pending s = junk @ str @ rest"
    and junk: "\<forall>x \<in> set junk. \<not> isdigit x \<and> x \<noteq> CHR ''-''" and rest: "rest = [] \<or> \<not> isdigit (hd rest) \<and> hd rest \<noteq> CHR 0x01"
  shows "\<exists>s'. parseInt vt SKIP_ALL 1 s = Some (n, s') \<and> sv_available vt s' = (0, s') \<and>
    (rest \<noteq> [] \<longrightarrow> (\<exists>lost. rest = lost @ pending s'))"
proof -
  obtain d ds where t: "str = (if n < 0 then CHR ''-'' # d # ds else d # ds)" "\<forall>x \<in> set (d # ds). isdigit x" "digits_from 0 (d # ds) = \<bar>n\<bar>"
  proof -
    have "- (2 ^ 63) < n" "n < 2 ^ 63" using n by (auto simp: abs_if split: if_splits)
    from Print_long_text_shape [OF this] show ?thesis using that unfolding str by blast
  qed
  define c cs where "c = hd str" and "cs = tl str"
  have c: "str = c # cs" "isdigit c \<or> c = CHR ''-''" "\<forall>x \<in> set cs. isdigit x" using t by (auto simp: c_def cs_def)
  have nm: "\<not> isdigit CHR ''-''" by (simp add: isdigit_def)
  have dm: "d \<noteq> CHR ''-''" using t(2) nm by auto
  have v: "digits_from 0 (if isdigit c then c # cs else cs) = \<bar>n\<bar>" "c = CHR ''-'' \<longleftrightarrow> n < 0"
    using t nm dm by (auto simp: c_def cs_def)
  obtain s1 where s1: "peekNextDigit vt SKIP_ALL False s = Some (of_char c, s1)" "ok s1" "pending s1 = c # cs @ rest" "buffered s1 \<noteq> []"
    using peekNextDigit_skips [OF assms(1) _ junk c(2), of "cs @ rest"] p c(1) by auto
  obtain s2 where s2: "parse_digits vt 1 (of_char c) False 0 s1 = Some (n < 0, \<bar>n\<bar>, s2)" "after rest s2"
    using parse_digits_value [OF s1(2,4,3) c(2,3) rest, of 0 False] v n by auto
  have val: "(if n < 0 then - \<bar>n\<bar> else \<bar>n\<bar>) = n" by simp
  show ?thesis
  proof (cases "rest = []")
    case True
    then have "discard_available vt s2 = Some s2" using s2(2) by (subst discard_available.simps) (simp add: after_def)
    then show ?thesis using True s1(1) s2 val by (simp add: parseInt_def after_def)
  next
    case False
    then obtain s3 where s3: "discard_available vt s2 = Some s3" "ok s3" "buffered s3 = []" "pending s2 = buffered s2 @ pending s3"
      using discard_all [of s2] s2(2) by (auto simp: after_def)
    moreover have "\<exists>lost. rest = lost @ pending s3"
      by (rule exI [of _ "buffered s2"]) (use False s2(2) s3(4) in \<open>simp add: after_def\<close>)
    ultimately show ?thesis using s1(1) s2 val available [OF s3(2)] by (simp add: parseInt_def)
  qed
qed

end

section \<open>The terminal is a stream of bytes\<close>

definition t_ok :: "terminal \<Rightarrow> bool" where
  "t_ok s \<longleftrightarrow> tsb_inv (t_buf s) \<and> times_out (t_wakes s) \<and> 0 < sint (t_timeout s)"

definition t_pending :: "terminal \<Rightarrow> string" where
  "t_pending s = tsb_queue (t_buf s) @ arriving (t_wakes s)"

definition t_buffered :: "terminal \<Rightarrow> string" where
  "t_buffered s = tsb_queue (t_buf s)"

lemma terminal_wait:
  assumes "t_ok s"
  shows "\<exists>b ws. waitForData (sint (t_timeout s)) (t_wakes s) (t_buf s) = Some (b, ws) \<and> tsb_inv b \<and>
    (tsb_queue b = [] \<longleftrightarrow> t_pending s = []) \<and> (tsb_queue b \<noteq> [] \<longrightarrow> times_out ws \<and> tsb_queue b @ arriving ws = t_pending s)"
  using waitForData_returns [of "sint (t_timeout s)" "t_wakes s" "t_buf s"] assms by (auto simp: t_ok_def t_pending_def)

interpretation tstream: byte_stream "Terminal_vtable errno" t_ok t_pending t_buffered
proof
  fix s c cs
  assume ok: "t_ok s" and p: "t_pending s = c # cs"
  obtain b ws where w: "waitForData (sint (t_timeout s)) (t_wakes s) (t_buf s) = Some (b, ws)" "tsb_inv b"
    "tsb_queue b \<noteq> []" "times_out ws" "tsb_queue b @ arriving ws = c # cs" using terminal_wait [OF ok] p by fastforce
  then obtain q where q: "tsb_queue b = c # q" "q @ arriving ws = cs" by (cases "tsb_queue b") auto
  show "\<exists>s'. sv_timedRead (Terminal_vtable errno) s = Some (of_char c, s') \<and> t_ok s' \<and> t_pending s' = cs"
    using w q ok by (auto simp: Terminal_vtable_def Terminal_timedRead_def tsb_read_def readData_def terminal_result_def
      t_ok_def t_pending_def tsb_inv_def)
  show "\<exists>s'. sv_timedPeek (Terminal_vtable errno) s = Some (of_char c, s') \<and> t_ok s' \<and> t_pending s' = t_pending s \<and> t_buffered s' \<noteq> []"
    using w q ok p by (auto simp: Terminal_vtable_def Terminal_timedPeek_def tsb_peek_def peekData_def terminal_result_def
      t_ok_def t_pending_def t_buffered_def)
next
  fix s assume ok: "t_ok s" and p: "t_pending s = []"
  obtain b ws where w: "waitForData (sint (t_timeout s)) (t_wakes s) (t_buf s) = Some (b, ws)" "tsb_inv b" "tsb_queue b = []"
    using terminal_wait [OF ok] p by fastforce
  show "\<exists>s'. sv_timedRead (Terminal_vtable errno) s = Some (- 1, s')"
    using w by (auto simp: Terminal_vtable_def Terminal_timedRead_def tsb_read_def readData_def terminal_result_def)
  show "\<exists>s'. sv_timedPeek (Terminal_vtable errno) s = Some (- 1, s') \<and> sv_available (Terminal_vtable errno) s' = (0, s')"
    using w by (auto simp: Terminal_vtable_def Terminal_timedPeek_def tsb_peek_def peekData_def terminal_result_def
      Terminal_available_def tsb_inv_def)
next
  fix s c bs assume "t_ok s" "t_buffered s = c # bs"
  then show "\<exists>s'. sv_read (Terminal_vtable errno) s = (of_char c, s') \<and> t_ok s' \<and> t_pending s = c # t_pending s' \<and> t_buffered s' = bs"
    by (auto simp: Terminal_vtable_def Terminal_read_def readData_def terminal_result_def t_ok_def t_pending_def t_buffered_def tsb_inv_def)
next
  fix s assume "t_ok s"
  then show "sv_available (Terminal_vtable errno) s = (int (length (t_buffered s)), s)"
    by (simp add: Terminal_vtable_def Terminal_available_def t_ok_def tsb_inv_def t_buffered_def)
qed

section \<open>Properties\<close>

definition targets_for :: "string list \<Rightarrow> multi_target list" where
  "targets_for strs = map (\<lambda>str. \<lparr>mt_str = str, mt_len = length str, mt_index = 0\<rparr>) strs"

text \<open>C7. \<open>findMulti\<close> is the reference search: it reads up to the first place where the input ends with one of the
  targets, for every set of targets, overlapping ones included, returns the first target that ends there, and leaves the
  rest of the input; it returns -1 at the time-out if no target occurs.\<close>

theorem findMulti_first_hit:
  assumes "t_ok s" "[] \<notin> set strs"
  shows "\<exists>s'. findMulti (Terminal_vtable errno) (targets_for strs) s =
      Some (case first_hit strs [] (t_pending s) of None \<Rightarrow> - 1 | Some (i, r) \<Rightarrow> int i, s') \<and>
    (\<forall>i r. first_hit strs [] (t_pending s) = Some (i, r) \<longrightarrow> t_ok s' \<and> t_pending s' = r)"
proof -
  have m: "map mt_str (targets_for strs) = strs" by (simp add: targets_for_def comp_def)
  have t: "\<forall>t \<in> set (targets_for strs). tracks t []" using assms(2) by (auto simp: targets_for_def intro!: tracks_new)
  have "List.find (\<lambda>i. mt_len (targets_for strs ! i) = 0) [0..<length (targets_for strs)] = None"
    using assms(2) by (auto simp: find_None_iff targets_for_def set_conv_nth)
  then show ?thesis using tstream.findMulti_loop_pending [OF assms(1) t, of errno] unfolding m by (simp add: findMulti_def)
qed

definition demo_terminal :: "string \<Rightarrow> string \<Rightarrow> terminal" where
  "demo_terminal now later = \<lparr>t_buf = writeData_buf now tsb_new, t_wakes = [(later, False), ([], True)], t_timeout = 1000, read_error = 0\<rparr>"

lemma demo_terminal_ok: "t_ok (demo_terminal now later)" "t_pending (demo_terminal now later) = now @ later"
  by (simp_all add: demo_terminal_def t_ok_def t_pending_def tsb_inv_def writeData_buf_queue tsb_new_def)

theorem findMulti_first_hit_witness:
  "\<exists>s'. findMulti (Terminal_vtable 0) (targets_for [''11112'', ''13'']) (demo_terminal ''0111'' ''112x13'') = Some (0, s') \<and> t_pending s' = ''x13''"
proof -
  have "first_hit [''11112'', ''13''] [] ''0111112x13'' = Some (0, ''x13'')"
    by (simp add: ending_def suffix_def upt_rec numeral_2_eq_2)
  then show ?thesis
    using findMulti_first_hit [OF demo_terminal_ok(1), of "[''11112'', ''13'']" 0 "''0111''" "''112x13''"]
    by (auto simp: demo_terminal_ok(2))
qed



text \<open>C11. The reads with a time limit return what is sent before the time-out: \<open>readBytes\<close> so many bytes of it,
  \<open>readStringUntil\<close> what comes before the terminator, which is taken too, \<open>readString\<close> all of it.\<close>

theorem stream_reads_return:
  assumes "t_ok s"
  shows "(\<exists>s'. readBytes (Terminal_vtable errno) n s = Some (take n (t_pending s), s')) \<and>
    (\<exists>s'. readStringUntil (Terminal_vtable errno) c s = Some (takeWhile (\<lambda>x. x \<noteq> c) (t_pending s), s') \<and>
      (c \<in> set (t_pending s) \<longrightarrow> t_ok s' \<and> t_pending s = takeWhile (\<lambda>x. x \<noteq> c) (t_pending s) @ c # t_pending s')) \<and>
    (\<exists>s'. readString (Terminal_vtable errno) s = Some (t_pending s, s'))"
proof -
  have u: "\<exists>s'. readStringUntil (Terminal_vtable errno) c s = Some (takeWhile (\<lambda>x. x \<noteq> c) (t_pending s), s') \<and>
      (\<forall>y ys. dropWhile (\<lambda>x. x \<noteq> c) (t_pending s) = y # ys \<longrightarrow> t_ok s' \<and> t_pending s' = ys)"
    using tstream.readString_loop_pending [OF assms, of errno "\<lambda>k. k = of_char c" "[]"] by (simp add: readStringUntil_def)
  have "\<exists>ys. dropWhile (\<lambda>x. x \<noteq> c) (t_pending s) = c # ys" if m: "c \<in> set (t_pending s)"
  proof (cases "dropWhile (\<lambda>x. x \<noteq> c) (t_pending s)")
    case (Cons y ys)
    then show ?thesis using hd_dropWhile [of "\<lambda>x. x \<noteq> c" "t_pending s"] by auto
  qed (use m in \<open>auto simp: dropWhile_eq_Nil_conv\<close>)
  then have t: "\<exists>s'. readStringUntil (Terminal_vtable errno) c s = Some (takeWhile (\<lambda>x. x \<noteq> c) (t_pending s), s') \<and>
      (c \<in> set (t_pending s) \<longrightarrow> t_ok s' \<and> t_pending s = takeWhile (\<lambda>x. x \<noteq> c) (t_pending s) @ c # t_pending s')"
    using u takeWhile_dropWhile_id [of "\<lambda>x. x \<noteq> c" "t_pending s"] by metis
  have "\<exists>s'. readString (Terminal_vtable errno) s = Some (t_pending s, s')"
    using tstream.readString_loop_pending [OF assms, of errno "\<lambda>k. False" "[]"] by (auto simp: readString_def)
  then show ?thesis using t tstream.readBytes_pending [OF assms, of errno n] by blast
qed

theorem stream_reads_return_witness:
  "(\<exists>s'. readBytes (Terminal_vtable 0) 4 (demo_terminal ''ab;'' ''cd'') = Some (''ab;c'', s')) \<and>
   (\<exists>s'. readStringUntil (Terminal_vtable 0) CHR '';'' (demo_terminal ''ab;'' ''cd'') = Some (''ab'', s') \<and> t_pending s' = ''cd'')"
  using stream_reads_return [OF demo_terminal_ok(1) [of "''ab;''" "''cd''"], of 0 4 "CHR '';''"]
  by (auto simp: demo_terminal_ok(2))

section \<open>The time limit of the base class\<close>

text \<open>The default \<open>timedRead\<close> seen through what \<open>read\<close> and \<open>millis\<close> return, poll after poll.\<close>

lemma timed_poll_first:
  assumes rd: "\<And>k. rd k = (inp k, k)" and mil: "\<And>k. millis k = (clk k, Suc k)"
    and first: "\<And>j. i \<le> j \<Longrightarrow> j < k \<Longrightarrow> inp j < 0 \<and> clk j - start < timeout" "i \<le> k" "0 \<le> inp k \<or> \<not> clk k - start < timeout"
  shows "\<exists>s'. timed_poll rd millis start timeout i = Some (if 0 \<le> inp k then inp k else - 1, s')"
  using first
proof (induction "k - i" arbitrary: i)
  case 0
  then have "i = k" by simp
  then show ?case using 0 by (subst timed_poll.simps) (auto simp: rd mil)
next
  case (Suc d)
  then have i: "i < k" "inp i < 0" "clk i - start < timeout" by auto
  have "\<exists>s'. timed_poll rd millis start timeout (Suc i) = Some (if 0 \<le> inp k then inp k else - 1, s')"
    by (rule Suc.hyps(1)) (use Suc i in auto)
  then show ?case using i by (subst timed_poll.simps) (auto simp: rd mil)
qed

text \<open>The default \<open>timedRead\<close> returns as soon as the clock has advanced by the time-out, across a wrap-around of the
  clock too, and gives the first byte that a poll finds before.\<close>

lemma timedRead_returns:
  assumes rd: "\<And>k. rd k = (inp k, k)" and mil: "\<And>k. millis k = (clk k, Suc k)"
    and t: "i < k" "timeout \<le> clk k - clk i"
  shows "\<exists>j s'. Stream_timed rd millis timeout i = Some (if 0 \<le> inp j then inp j else - 1, s') \<and> i < j \<and> j \<le> k \<and>
    (\<forall>m. i < m \<and> m < j \<longrightarrow> inp m < 0 \<and> clk m - clk i < timeout)"
proof -
  define Q where "Q j \<longleftrightarrow> i < j \<and> (0 \<le> inp j \<or> \<not> clk j - clk i < timeout)" for j
  have "Q k" using t by (auto simp: Q_def)
  define j where "j = (LEAST j. Q j)"
  have j: "Q j" "j \<le> k" unfolding j_def using \<open>Q k\<close> by (rule LeastI, rule Least_le)
  have l: "inp m < 0 \<and> clk m - clk i < timeout" if "i < m" "m < j" for m
  proof -
    have "\<not> Q m" using that(2) unfolding j_def by (rule not_less_Least)
    then show ?thesis using that(1) by (auto simp: Q_def)
  qed
  have "\<exists>s'. timed_poll rd millis (clk i) timeout (Suc i) = Some (if 0 \<le> inp j then inp j else - 1, s')"
    by (rule timed_poll_first [of rd inp millis clk]) (use rd mil j l in \<open>auto simp: Q_def\<close>)
  then show ?thesis using j l by (auto simp: Stream_timed_def mil Q_def)
qed

lemma timedRead_returns_witness: "\<exists>s'. Stream_timed (\<lambda>k. (- 1, k)) (\<lambda>k. (of_nat k - 4, Suc k)) 6 1 = Some (- 1, s')"
proof -
  have "(6 :: size_t) \<le> (of_nat 7 - 4) - (of_nat 1 - 4)" by simp
  from timedRead_returns [of "\<lambda>k. (- 1, k)" "\<lambda>k. - 1" "\<lambda>k. (of_nat k - 4, Suc k)" "\<lambda>k. of_nat k - 4", OF refl refl _ this]
  show ?thesis by simp
qed

end
