(* ===== verification/Pwm.thy ===== *)
theory Pwm
  imports Converter Complex_Main
begin

text \<open>
  The hardware PWM engines of \<open>SocPwm\<close>: \<open>Bcm2835Engine\<close> (\<open>src/arch/arm/broadcom/pwm_bcm2835.cpp\<close>), \<open>Rp1Engine\<close>
  (\<open>pwm_rp1.cpp\<close>) and \<open>HxEngine\<close> (\<open>src/arch/arm/allwinner/pwm_hx.cpp\<close>).

  The units are parameters: how a register reads, what a write to it does and what the passing of time does. What is
  relied on of them is in the locales: which registers read back as written, and that the clock generator stops and
  starts in finite time after it was told to. \<open>None\<close> is undefined behaviour (a division by zero) or a loop that never
  ends. \<open>fp\<close> rounds a real to a \<open>double\<close>.
\<close>

unbundle bit_operations_syntax

record 'h pwm_hw =
  rdPwm :: "nat \<Rightarrow> 'h \<Rightarrow> u32"
  wrPwm :: "nat \<Rightarrow> u32 \<Rightarrow> 'h \<Rightarrow> 'h"
  rdClk :: "nat \<Rightarrow> 'h \<Rightarrow> u32"
  wrClk :: "nat \<Rightarrow> u32 \<Rightarrow> 'h \<Rightarrow> 'h"
  delayUs :: "nat \<Rightarrow> 'h \<Rightarrow> 'h"

text \<open>The divisor for a frequency, computed in \<open>double\<close>; a range of zero divides by zero, which no integer can hold.\<close>

definition ceil_divisor :: "(real \<Rightarrow> real) \<Rightarrow> int \<Rightarrow> int \<Rightarrow> int \<Rightarrow> int option" where
  "ceil_divisor fp clkFreq freq rng = (if rng = 0 then None else Some \<lceil>fp (fp (of_int clkFreq / of_int freq) / of_int rng)\<rceil>)"

section \<open>BCM2835\<close>

abbreviation (input) CTL :: nat where "CTL \<equiv> 0"
abbreviation (input) RNG1 :: nat where "RNG1 \<equiv> 4"
abbreviation (input) DAT1 :: nat where "DAT1 \<equiv> 5"
abbreviation (input) RNG2 :: nat where "RNG2 \<equiv> 8"
abbreviation (input) DAT2 :: nat where "DAT2 \<equiv> 9"
abbreviation (input) CM_PWMCTL :: nat where "CM_PWMCTL \<equiv> 40"
abbreviation (input) CM_PWMDIV :: nat where "CM_PWMDIV \<equiv> 41"
abbreviation (input) PASSWD :: u32 where "PASSWD \<equiv> 0x5A000000"
abbreviation (input) BUSY :: u32 where "BUSY \<equiv> 0x80"
abbreviation (input) KILL :: u32 where "KILL \<equiv> 0x20"
abbreviation (input) ENAB :: u32 where "ENAB \<equiv> 0x10"
abbreviation (input) SRC_OSC :: u32 where "SRC_OSC \<equiv> 1"

record bcmpwm = iodevice +
  bp_mapped :: bool
  bp_rngReg :: nat
  bp_dataReg :: nat
  bp_ctlMasqInit :: u32
  bp_ctlMasqStartStop :: u32
  bp_clkFreq :: u32

text \<open>The constructor puts the pin into PWM mode first, which throws on a pin that has none.\<close>

definition Bcm2835Engine_new :: "('p \<Rightarrow> 'p res) \<Rightarrow> nat \<Rightarrow> bool \<Rightarrow> iodevice \<Rightarrow> 'p \<Rightarrow> (bcmpwm \<times> 'p) res" where
  "Bcm2835Engine_new setModePwm mcuNumber is2711 io p = (case setModePwm p of Inl x \<Rightarrow> Inl x
     | Inr p \<Rightarrow> let d = iodevice.extend io (bcmpwm.fields False RNG1 DAT1 0x1C 0x81 (if is2711 then 54000000 else 19200000));
         d = (if mcuNumber = 13 \<or> mcuNumber = 19
           then d\<lparr>bp_rngReg := RNG2, bp_dataReg := DAT2, bp_ctlMasqStartStop := 0x8100, bp_ctlMasqInit := 0x1C00\<rparr> else d)
       in Inr (d, p))"

definition Bcm2835Engine_open :: "bool \<Rightarrow> bool \<Rightarrow> u32 \<Rightarrow> bcmpwm \<Rightarrow> bool \<times> bcmpwm" where
  "Bcm2835Engine_open pwmMaps clockMaps m d = (if \<not> pwmMaps then (False, d)
     else if \<not> clockMaps then (False, d\<lparr>bp_mapped := False\<rparr>)
     else IoDevice_Private_open m (d\<lparr>bp_mapped := True\<rparr>))"

definition Bcm2835Engine_close :: "bcmpwm \<Rightarrow> bcmpwm" where
  "Bcm2835Engine_close d = IoDevice_Private_close (d\<lparr>bp_mapped := False\<rparr>)"

definition Bcm2835Engine_read :: "'h pwm_hw \<Rightarrow> bcmpwm \<Rightarrow> 'h \<Rightarrow> int" where
  "Bcm2835Engine_read hw d h = uint (rdPwm hw (bp_dataReg d) h)"

definition Bcm2835Engine_write :: "'h pwm_hw \<Rightarrow> int \<Rightarrow> bcmpwm \<Rightarrow> 'h \<Rightarrow> bool \<times> 'h" where
  "Bcm2835Engine_write hw value d h = (True, wrPwm hw (bp_dataReg d) (of_int value) h)"

definition Bcm2835Engine_setEnable :: "'h pwm_hw \<Rightarrow> bool \<Rightarrow> bcmpwm \<Rightarrow> 'h \<Rightarrow> 'h" where
  "Bcm2835Engine_setEnable hw enable d h = (
     let ctl = rdPwm hw CTL h;
       ctl = (if enable then (ctl AND NOT (bp_ctlMasqInit d)) OR bp_ctlMasqStartStop d else ctl AND NOT (bp_ctlMasqStartStop d))
     in delayUs hw 10 (wrPwm hw CTL ctl h))"

definition Bcm2835Engine_isEnabled :: "'h pwm_hw \<Rightarrow> bcmpwm \<Rightarrow> 'h \<Rightarrow> bool" where
  "Bcm2835Engine_isEnabled hw d h \<longleftrightarrow> rdPwm hw CTL h AND bp_ctlMasqStartStop d = bp_ctlMasqStartStop d"

definition Bcm2835Engine_range :: "'h pwm_hw \<Rightarrow> bcmpwm \<Rightarrow> 'h \<Rightarrow> int" where
  "Bcm2835Engine_range hw d h = uint (rdPwm hw (bp_rngReg d) h)"

definition Bcm2835Engine_max :: "'h pwm_hw \<Rightarrow> bcmpwm \<Rightarrow> 'h \<Rightarrow> int" where
  "Bcm2835Engine_max hw d h = Bcm2835Engine_range hw d h - 1"

definition Bcm2835Engine_setRange :: "'h pwm_hw \<Rightarrow> int \<Rightarrow> bcmpwm \<Rightarrow> 'h \<Rightarrow> int \<times> 'h" where
  "Bcm2835Engine_setRange hw r d h = (let h = wrPwm hw (bp_rngReg d) (of_int r) h in (Bcm2835Engine_range hw d h, h))"

definition Bcm2835Engine_clockDivisor :: "'h pwm_hw \<Rightarrow> 'h \<Rightarrow> u32" where
  "Bcm2835Engine_clockDivisor hw h = drop_bit 12 (rdClk hw CM_PWMDIV h)"

definition Bcm2835Engine_frequency :: "'h pwm_hw \<Rightarrow> bcmpwm \<Rightarrow> 'h \<Rightarrow> int option" where
  "Bcm2835Engine_frequency hw d h = (
     let dv = uint (Bcm2835Engine_clockDivisor hw h); rng = Bcm2835Engine_range hw d h
     in if dv = 0 then Some 0 else if rng = 0 then None else Some (uint (bp_clkFreq d) div dv div rng))"

text \<open>The loops that wait for the clock generator to stop and to start.\<close>

partial_function (option) wait_busy :: "'h pwm_hw \<Rightarrow> bool \<Rightarrow> 'h \<Rightarrow> 'h option" where
  "wait_busy hw want h = (if (rdClk hw CM_PWMCTL h AND BUSY \<noteq> 0) = want then Some h
     else wait_busy hw want (delayUs hw 1 h))"

definition Bcm2835Engine_setClockDivisor :: "'h pwm_hw \<Rightarrow> u32 \<Rightarrow> 'h \<Rightarrow> 'h option" where
  "Bcm2835Engine_setClockDivisor hw dv h = (
     let dv = (if dv < 2 then 2 else if dv > 4095 then 4095 else dv);
       backupctl = rdPwm hw CTL h;
       h = delayUs hw 10 (wrPwm hw CTL 0 h);
       h = delayUs hw 110 (wrClk hw CM_PWMCTL (PASSWD OR KILL) h)
     in case wait_busy hw False h of None \<Rightarrow> None
     | Some h \<Rightarrow>
       let h = wrClk hw CM_PWMDIV (PASSWD OR push_bit 12 dv) h;
         h = wrClk hw CM_PWMCTL (PASSWD OR ENAB OR SRC_OSC) h;
         h = wrPwm hw CTL backupctl h
       in wait_busy hw True h)"

definition Bcm2835Engine_frequencyDivisor :: "(real \<Rightarrow> real) \<Rightarrow> 'h pwm_hw \<Rightarrow> int \<Rightarrow> bcmpwm \<Rightarrow> 'h \<Rightarrow> u32 option" where
  "Bcm2835Engine_frequencyDivisor fp hw freq d h =
     map_option of_int (ceil_divisor fp (uint (bp_clkFreq d)) freq (Bcm2835Engine_range hw d h))"

definition Bcm2835Engine_setFrequency :: "(real \<Rightarrow> real) \<Rightarrow> 'h pwm_hw \<Rightarrow> int \<Rightarrow> bcmpwm \<Rightarrow> 'h \<Rightarrow> (int \<times> 'h) option" where
  "Bcm2835Engine_setFrequency fp hw f d h = (
     let set = (if f > 0 then Option.bind (Bcm2835Engine_frequencyDivisor fp hw f d h) (\<lambda>v. Bcm2835Engine_setClockDivisor hw v h) else Some h)
     in Option.bind set (\<lambda>h. map_option (\<lambda>r. (r, h)) (Bcm2835Engine_frequency hw d h)))"

section \<open>RP1\<close>

abbreviation (input) PwmGlobalCtrlReg :: nat where "PwmGlobalCtrlReg \<equiv> 0"
abbreviation (input) PwmChanBlockBase :: nat where "PwmChanBlockBase \<equiv> 5"
abbreviation (input) PwmChanBlockSize :: nat where "PwmChanBlockSize \<equiv> 4"
abbreviation (input) PwmChanCtrlReg :: nat where "PwmChanCtrlReg \<equiv> 0"
abbreviation (input) PwmChanRangeReg :: nat where "PwmChanRangeReg \<equiv> 1"
abbreviation (input) PwmChanDutyReg :: nat where "PwmChanDutyReg \<equiv> 3"
abbreviation (input) PwmGlobalCtrlSetUpdate :: u32 where "PwmGlobalCtrlSetUpdate \<equiv> 0x80000000"
abbreviation (input) PwmChanCtrlFifoPopMask :: u32 where "PwmChanCtrlFifoPopMask \<equiv> 0x100"
abbreviation (input) TrailingEdgeMsMode :: u32 where "TrailingEdgeMsMode \<equiv> 1"
abbreviation (input) Pwm0ClkCtrlReg :: nat where "Pwm0ClkCtrlReg \<equiv> 29"
abbreviation (input) Pwm0ClkDivIntReg :: nat where "Pwm0ClkDivIntReg \<equiv> 30"
abbreviation (input) Pwm0ClkDivFracReg :: nat where "Pwm0ClkDivFracReg \<equiv> 31"
abbreviation (input) Pwm0SelReg :: nat where "Pwm0SelReg \<equiv> 32"

record rp1pwm = iodevice +
  rp_mapped :: bool
  rp_channel :: nat
  rp_rngReg :: nat
  rp_dataReg :: nat
  rp_ctlReg :: nat
  rp_clkFreq :: u32
  rp_mode :: u32

definition rp1_channel :: "nat \<Rightarrow> nat res" where
  "rp1_channel mcuNumber = (if mcuNumber = 12 then Inr 0 else if mcuNumber = 13 then Inr 1
     else if mcuNumber = 18 then Inr 2 else if mcuNumber = 19 then Inr 3 else Inl Runtime_error)"

definition Rp1Engine_new :: "('p \<Rightarrow> 'p res) \<Rightarrow> nat \<Rightarrow> iodevice \<Rightarrow> 'p \<Rightarrow> (rp1pwm \<times> 'p) res" where
  "Rp1Engine_new setModePwm mcuNumber io p = (case setModePwm p of Inl x \<Rightarrow> Inl x
     | Inr p \<Rightarrow> (case rp1_channel mcuNumber of Inl x \<Rightarrow> Inl x
       | Inr c \<Rightarrow> Inr (iodevice.extend io (rp1pwm.fields False c
             (PwmChanBlockBase + PwmChanBlockSize * c + PwmChanRangeReg)
             (PwmChanBlockBase + PwmChanBlockSize * c + PwmChanDutyReg)
             (PwmChanBlockBase + PwmChanBlockSize * c + PwmChanCtrlReg) 50000000 TrailingEdgeMsMode), p)))"

definition Rp1Engine_read :: "'h pwm_hw \<Rightarrow> rp1pwm \<Rightarrow> 'h \<Rightarrow> int" where
  "Rp1Engine_read hw d h = uint (rdPwm hw (rp_dataReg d) h)"

definition Rp1Engine_write :: "'h pwm_hw \<Rightarrow> int \<Rightarrow> rp1pwm \<Rightarrow> 'h \<Rightarrow> bool \<times> 'h" where
  "Rp1Engine_write hw value d h = (True, wrPwm hw (rp_dataReg d) (of_int value) h)"

definition Rp1Engine_setEnable :: "'h pwm_hw \<Rightarrow> bool \<Rightarrow> rp1pwm \<Rightarrow> 'h \<Rightarrow> 'h" where
  "Rp1Engine_setEnable hw enable d h = (
     let ctl = rdPwm hw PwmGlobalCtrlReg h;
       (ctl, h) = (if enable
         then (ctl OR (push_bit (rp_channel d) 1 OR PwmGlobalCtrlSetUpdate),
               wrPwm hw (rp_ctlReg d) (rp_mode d OR PwmChanCtrlFifoPopMask) h)
         else ((ctl AND NOT (push_bit (rp_channel d) 1)) OR PwmGlobalCtrlSetUpdate, wrPwm hw (rp_ctlReg d) 0 h))
     in delayUs hw 10 (wrPwm hw PwmGlobalCtrlReg ctl h))"

definition Rp1Engine_isEnabled :: "'h pwm_hw \<Rightarrow> rp1pwm \<Rightarrow> 'h \<Rightarrow> bool" where
  "Rp1Engine_isEnabled hw d h \<longleftrightarrow> rdPwm hw (rp_ctlReg d) h = rp_mode d OR PwmChanCtrlFifoPopMask \<and>
     rdPwm hw PwmGlobalCtrlReg h AND push_bit (rp_channel d) 1 = push_bit (rp_channel d) 1"

definition Rp1Engine_range :: "'h pwm_hw \<Rightarrow> rp1pwm \<Rightarrow> 'h \<Rightarrow> int" where
  "Rp1Engine_range hw d h = uint (rdPwm hw (rp_rngReg d) h)"

definition Rp1Engine_max :: "'h pwm_hw \<Rightarrow> rp1pwm \<Rightarrow> 'h \<Rightarrow> int" where
  "Rp1Engine_max hw d h = Rp1Engine_range hw d h + 1"

definition Rp1Engine_setRange :: "'h pwm_hw \<Rightarrow> int \<Rightarrow> rp1pwm \<Rightarrow> 'h \<Rightarrow> int \<times> 'h" where
  "Rp1Engine_setRange hw r d h = (let h = wrPwm hw (rp_rngReg d) (of_int r) h in (Rp1Engine_range hw d h, h))"

definition Rp1Engine_clockDivisor :: "'h pwm_hw \<Rightarrow> 'h \<Rightarrow> u32" where
  "Rp1Engine_clockDivisor hw h = rdClk hw Pwm0ClkDivIntReg h"

definition Rp1Engine_frequency :: "'h pwm_hw \<Rightarrow> rp1pwm \<Rightarrow> 'h \<Rightarrow> int option" where
  "Rp1Engine_frequency hw d h = (
     let dv = uint (Rp1Engine_clockDivisor hw h); rng = Rp1Engine_range hw d h
     in if dv = 0 then Some 0 else if rng = 0 then None else Some (uint (rp_clkFreq d) div dv div rng))"

text \<open>The register that is cleared and restored is \<open>PwmChanCtrlReg\<close>, an offset within a channel block: as an offset
  from the base it is the global control register.\<close>

definition Rp1Engine_setClockDivisor :: "'h pwm_hw \<Rightarrow> u32 \<Rightarrow> 'h \<Rightarrow> 'h" where
  "Rp1Engine_setClockDivisor hw dv h = (
     let dv = (if dv > 4095 then 4095 else dv);
       backupctl = rdPwm hw PwmChanCtrlReg h;
       h = delayUs hw 10 (wrPwm hw PwmChanCtrlReg 0 h);
       h = delayUs hw 110 (wrClk hw Pwm0ClkCtrlReg 0x10000000 h)
     in if dv \<ge> 1 then
       let h = wrClk hw Pwm0ClkDivIntReg dv h;
         h = wrClk hw Pwm0ClkDivFracReg 0 h;
         h = wrClk hw Pwm0SelReg 1 h;
         h = wrClk hw Pwm0ClkCtrlReg 0x11000840 h;
         h = wrPwm hw PwmChanCtrlReg backupctl h
       in delayUs hw 10 h
     else h)"

definition Rp1Engine_setFrequency :: "(real \<Rightarrow> real) \<Rightarrow> 'h pwm_hw \<Rightarrow> int \<Rightarrow> rp1pwm \<Rightarrow> 'h \<Rightarrow> (int \<times> 'h) option" where
  "Rp1Engine_setFrequency fp hw f d h = (if f > 0
     then Option.bind (ceil_divisor fp (uint (rp_clkFreq d)) f (Rp1Engine_range hw d h)) (\<lambda>v.
       let h = Rp1Engine_setClockDivisor hw (of_int v) h in map_option (\<lambda>r. (r, h)) (Rp1Engine_frequency hw d h))
     else Some (0, h))"

text \<open>The mapping of the PCIe device is shared by all engines: it is opened by the first and its state is passed along.\<close>

definition Rp1Engine_open :: "string \<Rightarrow> bool \<Rightarrow> u32 \<Rightarrow> bool \<times> rp1pwm \<Rightarrow> (bool \<times> bool \<times> rp1pwm) res" where
  "Rp1Engine_open pcieDevice maps m s = (let (iomap, d) = s in
     if \<not> iomap \<and> pcieDevice = [] then Inl (System_error ENODEV)
     else if \<not> iomap \<and> \<not> maps then Inr (False, False, d)
     else let (r, d) = IoDevice_Private_open m (d\<lparr>rp_mapped := True\<rparr>) in Inr (r, True, d))"

definition Rp1Engine_close :: "rp1pwm \<Rightarrow> rp1pwm" where
  "Rp1Engine_close d = IoDevice_Private_close (d\<lparr>rp_mapped := False\<rparr>)"

section \<open>Allwinner H\<close>

abbreviation (input) PWM_CH_CTRL :: nat where "PWM_CH_CTRL \<equiv> 0x100"
abbreviation (input) PWM_CH0_PERIOD :: nat where "PWM_CH0_PERIOD \<equiv> 0x101"
abbreviation (input) PWM_CH0_PRESCAL_MASK :: u32 where "PWM_CH0_PRESCAL_MASK \<equiv> 0xF"
abbreviation (input) PWM_CH0_ACT_STA :: u32 where "PWM_CH0_ACT_STA \<equiv> 0x20"
abbreviation (input) PWM_RUN :: u32 where "PWM_RUN \<equiv> 0x10 OR 0x40"
abbreviation (input) PWM0_RDY :: u32 where "PWM0_RDY \<equiv> 0x10000000"
abbreviation (input) HX_CLOCK_FREQ :: int where "HX_CLOCK_FREQ \<equiv> 24000000"

text \<open>The divisors in the order of the map, with their codes in the control register.\<close>

definition divisorMap :: "(int \<times> u32) list" where
  "divisorMap = [(1, 15), (120, 0), (180, 1), (240, 2), (360, 3), (480, 4), (12000, 8), (24000, 9), (36000, 10),
     (48000, 11), (72000, 12)]"

record hxpwm = iodevice +
  hp_mapped :: bool

definition HxEngine_readReg :: "'h pwm_hw \<Rightarrow> nat \<Rightarrow> 'h \<Rightarrow> u32" where
  "HxEngine_readReg hw offset h = rdPwm hw offset h"

definition HxEngine_writeReg :: "'h pwm_hw \<Rightarrow> nat \<Rightarrow> u32 \<Rightarrow> 'h \<Rightarrow> 'h" where
  "HxEngine_writeReg hw offset v h = delayUs hw 1000 (wrPwm hw offset v h)"

definition HxEngine_period :: "'h pwm_hw \<Rightarrow> 'h \<Rightarrow> u32" where
  "HxEngine_period hw h = HxEngine_readReg hw PWM_CH0_PERIOD h"

definition HxEngine_setPeriod :: "'h pwm_hw \<Rightarrow> u32 \<Rightarrow> 'h \<Rightarrow> bool \<times> 'h" where
  "HxEngine_setPeriod hw p h = (True, HxEngine_writeReg hw PWM_CH0_PERIOD p h)"

definition HxEngine_value :: "'h pwm_hw \<Rightarrow> 'h \<Rightarrow> u16" where
  "HxEngine_value hw h = ucast (HxEngine_period hw h AND 0xFFFF)"

definition HxEngine_setValue :: "'h pwm_hw \<Rightarrow> u16 \<Rightarrow> 'h \<Rightarrow> bool \<times> 'h" where
  "HxEngine_setValue hw v h = HxEngine_setPeriod hw ((HxEngine_period hw h AND NOT 0x0000FFFF) OR ucast v) h"

definition HxEngine_open :: "'h pwm_hw \<Rightarrow> bool \<Rightarrow> u32 \<Rightarrow> hxpwm \<times> 'h \<Rightarrow> bool \<times> hxpwm \<times> 'h" where
  "HxEngine_open hw maps m s = (let (d, h) = s in
     if maps then
       let d = d\<lparr>hp_mapped := True\<rparr>;
         ctl = (HxEngine_readReg hw PWM_CH_CTRL h AND NOT (PWM0_RDY OR 0x200 OR 0x80)) OR PWM_CH0_ACT_STA;
         h = HxEngine_writeReg hw PWM_CH_CTRL ctl h
       in if ctl = HxEngine_readReg hw PWM_CH_CTRL h AND NOT PWM0_RDY
         then let (r, d) = IoDevice_Private_open m d in (r, d, h) else (False, d, h)
     else (False, d, h))"

definition HxEngine_close :: "hxpwm \<Rightarrow> hxpwm" where
  "HxEngine_close d = IoDevice_Private_close (d\<lparr>hp_mapped := False\<rparr>)"

definition HxEngine_new :: "('p \<Rightarrow> 'p res) \<Rightarrow> 'h pwm_hw \<Rightarrow> bool \<Rightarrow> iodevice \<Rightarrow> 'p \<times> 'h \<Rightarrow> (hxpwm \<times> 'p \<times> 'h) res" where
  "HxEngine_new setModePwm hw maps io s = (let (p, h) = s in case setModePwm p of Inl x \<Rightarrow> Inl x
     | Inr p \<Rightarrow> let (_, d, h) = HxEngine_open hw maps ReadWrite (iodevice.extend io (hxpwm.fields False), h)
       in Inr (HxEngine_close d, p, h))"

definition HxEngine_setEnable :: "'h pwm_hw \<Rightarrow> bool \<Rightarrow> 'h \<Rightarrow> 'h" where
  "HxEngine_setEnable hw enable h = (let ctl = HxEngine_readReg hw PWM_CH_CTRL h
     in HxEngine_writeReg hw PWM_CH_CTRL (if enable then ctl OR PWM_RUN else ctl AND NOT PWM_RUN) h)"

definition HxEngine_isEnabled :: "'h pwm_hw \<Rightarrow> 'h \<Rightarrow> bool" where
  "HxEngine_isEnabled hw h \<longleftrightarrow> HxEngine_readReg hw PWM_CH_CTRL h AND PWM_RUN = PWM_RUN"

definition HxEngine_range :: "'h pwm_hw \<Rightarrow> 'h \<Rightarrow> int" where
  "HxEngine_range hw h = (let r = uint (drop_bit 16 (HxEngine_period hw h)) in if r = 0 then 0 else r + 1)"

definition HxEngine_max :: "'h pwm_hw \<Rightarrow> 'h \<Rightarrow> int" where
  "HxEngine_max hw h = HxEngine_range hw h - 1"

text \<open>\<open>r - 1\<close> is a \<open>long\<close>, -1 for \<open>r = 0\<close>, and becomes 32 bits before the shift. When the value has to be lowered, what is
  returned is the success of \<open>setValue\<close> as a number.\<close>

definition HxEngine_setRange :: "'h pwm_hw \<Rightarrow> int \<Rightarrow> 'h \<Rightarrow> int \<times> 'h" where
  "HxEngine_setRange hw r h = (
     let r = (if r < 2 then 2 else r); r = r AND 0xFFFF;
       p = (HxEngine_period hw h AND NOT 0xFFFF0000) OR push_bit 16 (of_int (r - 1));
       (ok, h) = HxEngine_setPeriod hw p h
     in if ok then
       if uint (HxEngine_value hw h) > HxEngine_max hw h
       then let (b, h) = HxEngine_setValue hw (of_int (HxEngine_max hw h)) h in (if b then 1 else 0, h)
       else (HxEngine_range hw h, h)
     else (- 1, h))"

definition HxEngine_clockDivisor :: "'h pwm_hw \<Rightarrow> 'h \<Rightarrow> int" where
  "HxEngine_clockDivisor hw h = (let divBits = HxEngine_readReg hw PWM_CH_CTRL h AND PWM_CH0_PRESCAL_MASK
     in case find (\<lambda>(_, code). code = divBits) divisorMap of Some (dv, _) \<Rightarrow> dv | None \<Rightarrow> 0)"

definition HxEngine_frequency :: "'h pwm_hw \<Rightarrow> 'h \<Rightarrow> int" where
  "HxEngine_frequency hw h = (let dv = HxEngine_clockDivisor hw h; r = uint (of_int (HxEngine_range hw h) :: u16)
     in if dv \<noteq> 0 \<and> r \<noteq> 0 then HX_CLOCK_FREQ div dv div r else 0)"

definition HxEngine_divisorFrequency :: "'h pwm_hw \<Rightarrow> int \<Rightarrow> 'h \<Rightarrow> int option" where
  "HxEngine_divisorFrequency hw divisor h = (if divisor = 0 \<or> HxEngine_range hw h = 0 then None
     else Some (HX_CLOCK_FREQ div divisor div HxEngine_range hw h))"

text \<open>The search for the nearest divisor: \<open>freq\<close> gives the frequency of each.\<close>

fun nearest :: "(int \<Rightarrow> int) \<Rightarrow> int \<Rightarrow> int \<Rightarrow> int \<Rightarrow> int list \<Rightarrow> int" where
  "nearest freq fTarget ret delta [] = ret"
| "nearest freq fTarget ret delta (k # ks) = (let d = \<bar>fTarget - freq k\<bar> in
     if d < delta then nearest freq fTarget k d ks else nearest freq fTarget ret delta ks)"

definition HxEngine_findValidDivisor :: "'h pwm_hw \<Rightarrow> int \<Rightarrow> 'h \<Rightarrow> int option" where
  "HxEngine_findValidDivisor hw dv h = (if dv = 0 then Some 0
     else if dv \<in> set (map fst divisorMap) then Some dv
     else map_option (\<lambda>fTarget.
       let freq = (\<lambda>k. the (HxEngine_divisorFrequency hw k h)); k = fst (hd divisorMap)
       in nearest freq fTarget k \<bar>fTarget - freq k\<bar> (map fst (tl divisorMap)))
       (HxEngine_divisorFrequency hw dv h))"

definition HxEngine_frequencyDivisor :: "(real \<Rightarrow> real) \<Rightarrow> 'h pwm_hw \<Rightarrow> int \<Rightarrow> 'h \<Rightarrow> int option" where
  "HxEngine_frequencyDivisor fp hw freq h = Option.bind (ceil_divisor fp HX_CLOCK_FREQ freq (HxEngine_range hw h)) (\<lambda>dv.
     HxEngine_findValidDivisor hw dv h)"

definition HxEngine_setClockDivisor :: "'h pwm_hw \<Rightarrow> int \<Rightarrow> 'h \<Rightarrow> 'h res option" where
  "HxEngine_setClockDivisor hw dv h = (
     let dv = (if dv < 1 then 1 else if dv > 72000 then 72000 else dv)
     in map_option (\<lambda>dv.
       let previousState = HxEngine_isEnabled hw h;
         h = (if previousState then HxEngine_setEnable hw False h else h)
       in case map_at divisorMap dv of Inl x \<Rightarrow> Inl x
       | Inr code \<Rightarrow>
         let h = HxEngine_writeReg hw PWM_CH_CTRL ((HxEngine_readReg hw PWM_CH_CTRL h AND NOT PWM_CH0_PRESCAL_MASK) OR code) h
         in Inr (if previousState then HxEngine_setEnable hw previousState h else h))
       (HxEngine_findValidDivisor hw dv h))"

definition HxEngine_setFrequency :: "(real \<Rightarrow> real) \<Rightarrow> 'h pwm_hw \<Rightarrow> int \<Rightarrow> 'h \<Rightarrow> (int \<times> 'h) res option" where
  "HxEngine_setFrequency fp hw f h = (if f > 0
     then Option.bind (HxEngine_frequencyDivisor fp hw f h) (\<lambda>dv. map_option (map_sum id (\<lambda>h. (HxEngine_frequency hw h, h)))
       (HxEngine_setClockDivisor hw dv h))
     else Some (Inr (0, h)))"

section \<open>The divisor computed in double\<close>

text \<open>What is used of IEEE arithmetic: the rounding of a normal number has a relative error of at most \<open>2\<^sup>-\<^sup>5\<^sup>3\<close>.\<close>

definition fp_law :: "(real \<Rightarrow> real) \<Rightarrow> bool" where
  "fp_law fp \<longleftrightarrow> (\<forall>x. 1 / 2 ^ 100 \<le> x \<and> x \<le> 2 ^ 100 \<longrightarrow> \<bar>fp x - x\<bar> \<le> x * (1 / 2 ^ 53))"

lemma fp_bounds:
  assumes "fp_law fp" "1 / 2 ^ 100 \<le> x" "x \<le> 2 ^ 100"
  shows "x * (1 - 1 / 2 ^ 53) \<le> fp x" "fp x \<le> x * (1 + 1 / 2 ^ 53)"
proof -
  have "\<bar>fp x - x\<bar> \<le> x * (1 / 2 ^ 53)" using assms unfolding fp_law_def by blast
  then show "x * (1 - 1 / 2 ^ 53) \<le> fp x" "fp x \<le> x * (1 + 1 / 2 ^ 53)"
    by (simp_all only: abs_le_iff right_diff_distrib distrib_left mult_1_right) linarith+
qed

lemma rounded_quotient:
  fixes C f r e x y n :: real
  assumes "0 < C" "0 < f" "0 < r" "0 \<le> e" "e < 1" "2 * e * (f + 1) < 1"
    and x: "C / f * (1 - e) \<le> x" and y: "x / r * (1 - e) \<le> y" and n: "y \<le> n"
  shows "C < (f + 1) * (n * r)"
proof -
  have "C / f * (1 - e) * (1 - e) \<le> x * (1 - e)" using x assms by (intro mult_right_mono) auto
  also have "\<dots> = x / r * (1 - e) * r" using assms by simp
  also have "\<dots> \<le> n * r" using y n assms by (intro mult_right_mono) auto
  finally have nr: "C / f * ((1 - e) * (1 - e)) \<le> n * r" by (simp only: mult.assoc)
  have "f = (f + 1) * (1 - 2 * e) - (1 - 2 * e * (f + 1))" by (simp add: algebra_simps)
  also have "\<dots> < (f + 1) * (1 - 2 * e)" using assms by simp
  also have "\<dots> \<le> (f + 1) * ((1 - e) * (1 - e))" using assms by (intro mult_left_mono) (auto simp: algebra_simps)
  finally have "C / f * f < C / f * ((f + 1) * ((1 - e) * (1 - e)))" using assms by (intro mult_strict_left_mono) auto
  also have "\<dots> = (f + 1) * (C / f * ((1 - e) * (1 - e)))" by (simp only: mult.left_commute)
  also have "\<dots> \<le> (f + 1) * (n * r)" using nr assms by (intro mult_left_mono) auto
  finally show ?thesis using assms by simp
qed

lemma ceil_divisor_value:
  assumes law: "fp_law fp" and C: "0 < C" "C < 2 ^ 31" and f: "0 < f" "f \<le> 2 ^ 50" and r: "0 < r" "r < 2 ^ 32"
    and n: "ceil_divisor fp C f r = Some n"
  shows "0 < n" "n < 2 ^ 32" "C div n div r \<le> f"
proof -
  let ?C = "real_of_int C" and ?f = "real_of_int f" and ?r = "real_of_int r" and ?e = "1 / 2 ^ 53 :: real"
  define x where "x = fp (?C / ?f)"
  define y where "y = fp (x / ?r)"
  have Cr: "1 \<le> ?C" "?C \<le> 2 ^ 31" using C of_int_le_iff [of C "2 ^ 31", where ?'a = real] by simp_all
  have fr: "1 \<le> ?f" "?f \<le> 2 ^ 50" using f of_int_le_iff [of f "2 ^ 50", where ?'a = real] by simp_all
  have rr: "1 \<le> ?r" "?r \<le> 2 ^ 32" using r of_int_le_iff [of r "2 ^ 32", where ?'a = real] by simp_all
  have "?C * 1 \<le> ?C * ?f" using Cr fr by (intro mult_left_mono) auto
  then have "?C / ?f \<le> ?C" using fr by (simp add: pos_divide_le_eq)
  then have q: "1 / 2 ^ 50 \<le> ?C / ?f" "?C / ?f \<le> 2 ^ 31"
    using frac_le [of 1 ?C ?f "2 ^ 50"] Cr fr by simp_all
  have "1 / 2 ^ 100 \<le> (1 / 2 ^ 50 :: real)" "(2 ^ 31 :: real) \<le> 2 ^ 100" by simp_all
  then have "1 / 2 ^ 100 \<le> ?C / ?f" "?C / ?f \<le> 2 ^ 100" using q by (blast intro: order_trans)+
  from fp_bounds [OF law this] have x: "?C / ?f * (1 - ?e) \<le> x" "x \<le> ?C / ?f * (1 + ?e)" by (simp_all only: x_def)
  have e: "1 / 2 \<le> 1 - ?e" "1 + ?e \<le> 2" by simp_all
  have "1 / 2 ^ 50 * (1 / 2) \<le> ?C / ?f * (1 - ?e)" using q e Cr fr by (intro mult_mono) auto
  then have xl: "1 / 2 ^ 51 \<le> x" using x by simp
  have "?C / ?f * (1 + ?e) \<le> 2 ^ 31 * (1 + ?e)" using q by (intro mult_right_mono) auto
  then have xu: "x \<le> 2 ^ 31 * (1 + ?e)" using x by linarith
  have x0: "0 \<le> x" using xl by (rule order_trans [rotated]) simp
  then have "x * 1 \<le> x * ?r" using rr by (intro mult_left_mono) auto
  then have "x / ?r \<le> x" using rr by (simp add: pos_divide_le_eq)
  then have xr: "1 / 2 ^ 51 / 2 ^ 32 \<le> x / ?r" "x / ?r \<le> 2 ^ 31 * (1 + ?e)"
    using frac_le [OF x0 xl, of ?r "2 ^ 32"] xu rr by (simp, linarith)
  have "1 / 2 ^ 100 \<le> (1 / 2 ^ 51 / 2 ^ 32 :: real)" "(2 ^ 31 * (1 + ?e) :: real) \<le> 2 ^ 100" by simp_all
  then have "1 / 2 ^ 100 \<le> x / ?r" "x / ?r \<le> 2 ^ 100" using xr by (blast intro: order_trans)+
  from fp_bounds [OF law this] have y: "x / ?r * (1 - ?e) \<le> y" "y \<le> x / ?r * (1 + ?e)" by (simp_all only: y_def)
  have n: "n = \<lceil>y\<rceil>" using n r by (simp add: ceil_divisor_def x_def y_def)
  have "0 < x / ?r" by (rule less_le_trans [OF _ xr(1)]) simp
  then have "0 < x / ?r * (1 - ?e)" by simp
  then have "0 < y" using y(1) by linarith
  then show pos: "0 < n" unfolding n by simp
  have "x / ?r * (1 + ?e) \<le> 2 ^ 31 * (1 + ?e) * (1 + ?e)" using xr(2) by (intro mult_right_mono) auto
  then have "y < 2 ^ 31 + 1" using y(2) by simp
  then show "n < 2 ^ 32" unfolding n by (simp add: ceiling_less_iff)
  have "2 * ?e * (?f + 1) \<le> 2 * ?e * (2 ^ 50 + 1)" using fr by (intro mult_left_mono) auto
  then have "2 * ?e * (?f + 1) < 1" by simp
  then have "?C < (?f + 1) * (real_of_int n * ?r)"
    by (intro rounded_quotient [OF _ _ _ _ _ _ x(1) y(1)]) (use Cr fr rr n in \<open>auto simp: le_of_int_ceiling\<close>)
  then have "C < (f + 1) * (n * r)" by (metis of_int_1 of_int_add of_int_less_iff of_int_mult)
  have m: "0 < n * r" using pos r by simp
  have "C div (n * r) < f + 1"
  proof (rule ccontr)
    assume "\<not> C div (n * r) < f + 1"
    then have "(f + 1) * (n * r) \<le> C div (n * r) * (n * r)" using m by (intro mult_right_mono) auto
    also have "\<dots> \<le> C" using m by (simp add: minus_mod_eq_div_mult [symmetric])
    finally show False using \<open>C < (f + 1) * (n * r)\<close> by simp
  qed
  then show "C div n div r \<le> f" using r by (simp add: zdiv_zmult2_eq)
qed

section \<open>BCM2835: the clock and the channels\<close>

text \<open>What is relied on of the unit: the PWM registers read back as written, and nothing else changes them; the divisor
  register keeps what is written with the password, which does not read back; the clock generator stops some time after
  it is killed and is running some time after it is enabled.\<close>

lemma divisor_field:
  fixes w :: u32
  assumes "w \<le> 4095"
  shows "push_bit 12 w AND 0xFFFFFF = push_bit 12 w" "drop_bit 12 (push_bit 12 w) = w"
proof -
  have "uint w \<le> 4095" using assms by (simp add: word_le_def)
  then have "uint (take_bit 12 w) = uint w" by (simp add: unsigned_take_bit_eq take_bit_int_eq_self)
  then have t: "take_bit 12 w = w" by (simp only: word_uint_eq_iff)
  have b: "k < 12" if "bit w k" for k using that by (subst (asm) t [symmetric]) (simp add: bit_take_bit_iff)
  have m: "(0xFFFFFF :: u32) = mask 24" by (simp add: mask_eq_exp_minus_1)
  show "push_bit 12 w AND 0xFFFFFF = push_bit 12 w" unfolding m
    by (rule bit_eqI) (auto simp: bit_and_iff bit_mask_iff bit_push_bit_iff dest: b)
  show "drop_bit 12 (push_bit 12 w) = w"
    by (rule bit_eqI) (auto simp: bit_drop_bit_eq bit_push_bit_iff dest: b)
qed

locale bcm_pwm =
  fixes hw :: "'h pwm_hw"
  assumes pwm_rw: "i \<in> {CTL, RNG1, DAT1, RNG2, DAT2} \<Longrightarrow> rdPwm hw i (wrPwm hw j v h) = (if i = j then v else rdPwm hw i h)"
    and pwm_keep: "rdPwm hw i (wrClk hw j v h) = rdPwm hw i h" "rdPwm hw i (delayUs hw k h) = rdPwm hw i h"
    and div_rw: "v AND 0xFFFFFF = v \<Longrightarrow> rdClk hw CM_PWMDIV (wrClk hw CM_PWMDIV (PASSWD OR v) h) = v"
    and div_keep: "rdClk hw CM_PWMDIV (wrClk hw CM_PWMCTL v h) = rdClk hw CM_PWMDIV h"
      "rdClk hw CM_PWMDIV (wrPwm hw j v h) = rdClk hw CM_PWMDIV h" "rdClk hw CM_PWMDIV (delayUs hw k h) = rdClk hw CM_PWMDIV h"
    and stops: "\<exists>n. rdClk hw CM_PWMCTL ((delayUs hw 1 ^^ n) (delayUs hw 110 (wrClk hw CM_PWMCTL (PASSWD OR KILL) h))) AND BUSY = 0"
    and starts: "\<exists>n. rdClk hw CM_PWMCTL ((delayUs hw 1 ^^ n) (wrPwm hw CTL v (wrClk hw CM_PWMCTL (PASSWD OR ENAB OR SRC_OSC) h))) AND BUSY \<noteq> 0"
begin

lemma delays_keep:
  "rdPwm hw i ((delayUs hw 1 ^^ n) h) = rdPwm hw i h" "rdClk hw CM_PWMDIV ((delayUs hw 1 ^^ n) h) = rdClk hw CM_PWMDIV h"
  by (induction n) (simp_all add: pwm_keep div_keep)

lemma wait_busy_returns:
  assumes "\<exists>n. (rdClk hw CM_PWMCTL ((delayUs hw 1 ^^ n) h) AND BUSY \<noteq> 0) = want"
  shows "\<exists>n. wait_busy hw want h = Some ((delayUs hw 1 ^^ n) h)"
proof -
  obtain n where "(rdClk hw CM_PWMCTL ((delayUs hw 1 ^^ n) h) AND BUSY \<noteq> 0) = want" using assms by blast
  then show ?thesis
  proof (induction n arbitrary: h)
    case 0
    then show ?case by (subst wait_busy.simps) (auto intro: exI [of _ 0])
  next
    case (Suc n)
    show ?case
    proof (cases "(rdClk hw CM_PWMCTL h AND BUSY \<noteq> 0) = want")
      case True
      then show ?thesis by (subst wait_busy.simps) (auto intro: exI [of _ 0])
    next
      case False
      obtain m where "wait_busy hw want (delayUs hw 1 h) = Some ((delayUs hw 1 ^^ m) (delayUs hw 1 h))"
        using Suc by (auto simp: funpow_swap1)
      then show ?thesis using False by (subst wait_busy.simps) (auto simp: funpow_swap1 intro!: exI [of _ "Suc m"])
    qed
  qed
qed

lemma setClockDivisor_sets:
  "\<exists>h'. Bcm2835Engine_setClockDivisor hw v h = Some h' \<and>
     Bcm2835Engine_clockDivisor hw h' = (if v < 2 then 2 else if v > 4095 then 4095 else v) \<and>
     (\<forall>i \<in> {CTL, RNG1, DAT1, RNG2, DAT2}. rdPwm hw i h' = rdPwm hw i h)"
proof -
  define w where "w = (if v < 2 then 2 else if v > 4095 then 4095 else v)"
  have "w \<le> 4095" by (auto simp: w_def)
  from divisor_field [OF this] have f: "push_bit 12 w AND 0xFFFFFF = push_bit 12 w" "drop_bit 12 (push_bit 12 w) = w" .
  define h1 where "h1 = delayUs hw 10 (wrPwm hw CTL 0 h)"
  obtain n where n: "wait_busy hw False (delayUs hw 110 (wrClk hw CM_PWMCTL (PASSWD OR KILL) h1)) =
      Some ((delayUs hw 1 ^^ n) (delayUs hw 110 (wrClk hw CM_PWMCTL (PASSWD OR KILL) h1)))"
    using wait_busy_returns [of _ False] stops [of h1] by auto
  define h2 where "h2 = (delayUs hw 1 ^^ n) (delayUs hw 110 (wrClk hw CM_PWMCTL (PASSWD OR KILL) h1))"
  define h3 where "h3 = wrClk hw CM_PWMDIV (PASSWD OR push_bit 12 w) h2"
  define h4 where "h4 = wrPwm hw CTL (rdPwm hw CTL h) (wrClk hw CM_PWMCTL (PASSWD OR ENAB OR SRC_OSC) h3)"
  obtain m where m: "wait_busy hw True h4 = Some ((delayUs hw 1 ^^ m) h4)"
    using wait_busy_returns [of h4 True] starts [of "rdPwm hw CTL h" h3] by (auto simp: h4_def)
  have "Bcm2835Engine_setClockDivisor hw v h = Some ((delayUs hw 1 ^^ m) h4)"
    unfolding Bcm2835Engine_setClockDivisor_def Let_def w_def [symmetric] h1_def [symmetric] n option.case
    unfolding h2_def [symmetric] h3_def [symmetric] h4_def [symmetric] by (rule m)
  moreover have "Bcm2835Engine_clockDivisor hw ((delayUs hw 1 ^^ m) h4) = w"
    unfolding Bcm2835Engine_clockDivisor_def delays_keep h4_def div_keep h3_def div_rw [OF f(1)] by (rule f(2))
  moreover have "\<forall>i \<in> {CTL, RNG1, DAT1, RNG2, DAT2}. rdPwm hw i ((delayUs hw 1 ^^ m) h4) = rdPwm hw i h"
    unfolding delays_keep h4_def h3_def h2_def h1_def by (simp add: pwm_rw pwm_keep delays_keep [simplified])
  ultimately show ?thesis unfolding w_def by blast
qed

end

definition bcm_channel :: "bcmpwm \<Rightarrow> bool" where
  "bcm_channel d \<longleftrightarrow> (bp_rngReg d, bp_dataReg d, bp_ctlMasqInit d, bp_ctlMasqStartStop d) \<in>
     {(RNG1, DAT1, 0x1C, 0x81), (RNG2, DAT2, 0x1C00, 0x8100)}"


text \<open>A simulated unit: the registers, and a clock generator that follows its control register after a delay.\<close>

record bcm_pwm_state =
  ps_pwm :: "nat \<Rightarrow> u32"
  ps_div :: u32
  ps_busy :: bool
  ps_target :: bool
  ps_lag :: nat

definition bcm_pwm_sim :: "bcm_pwm_state pwm_hw" where
  "bcm_pwm_sim = \<lparr>rdPwm = (\<lambda>i h. ps_pwm h i), wrPwm = (\<lambda>i v h. h\<lparr>ps_pwm := (ps_pwm h)(i := v)\<rparr>),
     rdClk = (\<lambda>i h. if i = CM_PWMDIV then ps_div h else if i = CM_PWMCTL \<and> ps_busy h then BUSY else 0),
     wrClk = (\<lambda>i v h. if v AND 0xFF000000 \<noteq> PASSWD then h
       else if i = CM_PWMDIV then h\<lparr>ps_div := v AND 0xFFFFFF\<rparr>
       else if i = CM_PWMCTL then h\<lparr>ps_target := (v AND KILL = 0 \<and> v AND ENAB \<noteq> 0), ps_lag := 3\<rparr> else h),
     delayUs = (\<lambda>k h. if ps_lag h \<le> k then h\<lparr>ps_busy := ps_target h, ps_lag := 0\<rparr> else h\<lparr>ps_lag := ps_lag h - k\<rparr>)\<rparr>"

interpretation bsim: bcm_pwm bcm_pwm_sim
proof
  fix v :: u32 and h
  assume v: "v AND 0xFFFFFF = v"
  have "(0x5A000000 OR v) AND 0xFF000000 = 0x5A000000" "(0x5A000000 OR v) AND 0xFFFFFF = v"
  proof -
    have "v AND 0xFF000000 = (v AND 0xFFFFFF) AND 0xFF000000" by (simp only: v)
    also have "\<dots> = 0" by (simp add: and.assoc)
    finally have "v AND 0xFF000000 = 0" .
    then show "(0x5A000000 OR v) AND 0xFF000000 = 0x5A000000" "(0x5A000000 OR v) AND 0xFFFFFF = v"
      using v by (simp_all add: bit.conj_disj_distrib2)
  qed
  then show "rdClk bcm_pwm_sim 41 (wrClk bcm_pwm_sim 41 (0x5A000000 OR v) h) = v" by (simp add: bcm_pwm_sim_def)
next
  fix h
  have "rdClk bcm_pwm_sim 40 ((delayUs bcm_pwm_sim 1 ^^ 0) (delayUs bcm_pwm_sim 110 (wrClk bcm_pwm_sim 40 (0x5A000000 OR 0x20) h))) AND 0x80 = 0"
    by (simp add: bcm_pwm_sim_def)
  then show "\<exists>n. rdClk bcm_pwm_sim 40 ((delayUs bcm_pwm_sim 1 ^^ n) (delayUs bcm_pwm_sim 110 (wrClk bcm_pwm_sim 40 (0x5A000000 OR 0x20) h))) AND 0x80 = 0" ..
next
  fix v h
  have "rdClk bcm_pwm_sim 40 ((delayUs bcm_pwm_sim 1 ^^ 3) (wrPwm bcm_pwm_sim 0 v (wrClk bcm_pwm_sim 40 (0x5A000000 OR 0x10 OR 1) h))) AND 0x80 \<noteq> 0"
    by (simp add: bcm_pwm_sim_def numeral_3_eq_3)
  then show "\<exists>n. rdClk bcm_pwm_sim 40 ((delayUs bcm_pwm_sim 1 ^^ n) (wrPwm bcm_pwm_sim 0 v (wrClk bcm_pwm_sim 40 (0x5A000000 OR 0x10 OR 1) h))) AND 0x80 \<noteq> 0" ..
qed (auto simp: bcm_pwm_sim_def)

definition bcm_demo :: bcmpwm where
  "bcm_demo = iodevice.extend iodevice_new (bcmpwm.fields True RNG1 DAT1 0x1C 0x81 19200000)"

definition bcm_demo_state :: bcm_pwm_state where
  "bcm_demo_state = \<lparr>ps_pwm = (\<lambda>i. 1024), ps_div = 0, ps_busy = True, ps_target = True, ps_lag = 0\<rparr>"


section \<open>RP1: the channels\<close>

text \<open>What is relied on of the unit: the registers of the channels read back as written, the four enable bits of the global
  control register too (the update bit does not), and the integer divisor of the clock.\<close>

locale rp1_pwm =
  fixes hw :: "'h pwm_hw"
  assumes chan_rw: "PwmChanBlockBase \<le> i \<Longrightarrow> rdPwm hw i (wrPwm hw j v h) = (if i = j then v else rdPwm hw i h)"
    and glob_rw: "k < 4 \<Longrightarrow> bit (rdPwm hw PwmGlobalCtrlReg (wrPwm hw j v h)) k = bit (if j = PwmGlobalCtrlReg then v else rdPwm hw PwmGlobalCtrlReg h) k"
    and pwm_keep: "rdPwm hw i (wrClk hw j v h) = rdPwm hw i h" "rdPwm hw i (delayUs hw n h) = rdPwm hw i h"
    and div_rw: "rdClk hw Pwm0ClkDivIntReg (wrClk hw j v h) = (if j = Pwm0ClkDivIntReg then v else rdClk hw Pwm0ClkDivIntReg h)"
    and div_keep: "rdClk hw Pwm0ClkDivIntReg (wrPwm hw j v h) = rdClk hw Pwm0ClkDivIntReg h"
      "rdClk hw Pwm0ClkDivIntReg (delayUs hw n h) = rdClk hw Pwm0ClkDivIntReg h"

definition rp1_engine :: "rp1pwm \<Rightarrow> bool" where
  "rp1_engine d \<longleftrightarrow> rp_channel d < 4 \<and> rp_rngReg d = 6 + 4 * rp_channel d \<and> rp_dataReg d = 8 + 4 * rp_channel d \<and>
     rp_ctlReg d = 5 + 4 * rp_channel d \<and> rp_mode d = TrailingEdgeMsMode"

lemma Rp1Engine_new_engine: "Rp1Engine_new sm k io p = Inr (d, p') \<Longrightarrow> rp1_engine d"
  by (auto simp: Rp1Engine_new_def rp1_channel_def rp1_engine_def rp1pwm.defs iodevice.defs split: sum.splits if_splits)

lemma single_bit_test: "k < 32 \<Longrightarrow> (w :: u32) AND push_bit k 1 = push_bit k 1 \<longleftrightarrow> bit w k"
  by (auto simp: and_single_bit push_bit_of_1 bit_simps split: if_splits)

lemma low_bit_mask: "k < 4 \<Longrightarrow> \<not> bit (0x80000000 :: u32) k" "k < 4 \<Longrightarrow> \<not> bit (0x80000000 :: int) k"
proof -
  have "(0x80000000 :: u32) = push_bit 31 1" "(0x80000000 :: int) = push_bit 31 1" by simp_all
  then show "k < 4 \<Longrightarrow> \<not> bit (0x80000000 :: u32) k" "k < 4 \<Longrightarrow> \<not> bit (0x80000000 :: int) k"
    by (simp_all only: bit_push_bit_iff) simp_all
qed

context rp1_pwm
begin

lemma isEnabled_bit:
  "rp1_engine d \<Longrightarrow> Rp1Engine_isEnabled hw d h \<longleftrightarrow> rdPwm hw (5 + 4 * rp_channel d) h = 0x101 \<and> bit (rdPwm hw PwmGlobalCtrlReg h) (rp_channel d)"
  using single_bit_test [of "rp_channel d" "rdPwm hw 0 h"] by (simp add: Rp1Engine_isEnabled_def rp1_engine_def)

lemma setEnable_effect:
  assumes "rp1_engine d"
  shows "5 \<le> i \<Longrightarrow> rdPwm hw i (Rp1Engine_setEnable hw e d h) = (if i = 5 + 4 * rp_channel d then if e then 0x101 else 0 else rdPwm hw i h)"
    and "k < 4 \<Longrightarrow> bit (rdPwm hw PwmGlobalCtrlReg (Rp1Engine_setEnable hw e d h)) k = (if k = rp_channel d then e else bit (rdPwm hw PwmGlobalCtrlReg h) k)"
  using assms by (auto simp: Rp1Engine_setEnable_def Let_def pwm_keep chan_rw glob_rw rp1_engine_def bit_simps low_bit_mask)

end

text \<open>C35. The four channels of the RP1 are independent: what one is set to, enable, range and value, it reports, and the others
  keep theirs.\<close>

theorem rp1_pwm_channels:
  assumes hw: "rp1_pwm hw" and d: "rp1_engine d" "rp1_engine d'"
  shows "let h1 = Rp1Engine_setEnable hw e d h; h2 = snd (Rp1Engine_setRange hw r d h); h3 = snd (Rp1Engine_write hw v d h);
      same = rp_channel d' = rp_channel d
    in Rp1Engine_isEnabled hw d' h1 = (if same then e else Rp1Engine_isEnabled hw d' h) \<and>
       Rp1Engine_range hw d' h1 = Rp1Engine_range hw d' h \<and> Rp1Engine_read hw d' h1 = Rp1Engine_read hw d' h \<and>
       Rp1Engine_range hw d' h2 = (if same then r mod 2 ^ 32 else Rp1Engine_range hw d' h) \<and>
       Rp1Engine_read hw d' h2 = Rp1Engine_read hw d' h \<and> Rp1Engine_isEnabled hw d' h2 = Rp1Engine_isEnabled hw d' h \<and>
       Rp1Engine_read hw d' h3 = (if same then v mod 2 ^ 32 else Rp1Engine_read hw d' h) \<and>
       Rp1Engine_range hw d' h3 = Rp1Engine_range hw d' h \<and> Rp1Engine_isEnabled hw d' h3 = Rp1Engine_isEnabled hw d' h"
proof -
  note rules = rp1_pwm.isEnabled_bit [OF hw d(2)] rp1_pwm.setEnable_effect [OF hw d(1)] rp1_pwm.chan_rw [OF hw] rp1_pwm.glob_rw [OF hw]
  have c: "rp_channel d < 4" "rp_channel d' < 4" using d by (auto simp: rp1_engine_def)
  have "6 + 4 * rp_channel d' \<noteq> 5 + 4 * rp_channel d" "8 + 4 * rp_channel d' \<noteq> 5 + 4 * rp_channel d"
    "8 + 4 * rp_channel d' \<noteq> 6 + 4 * rp_channel d" "5 + 4 * rp_channel d' \<noteq> 6 + 4 * rp_channel d"
    "6 + 4 * rp_channel d' \<noteq> 8 + 4 * rp_channel d" "5 + 4 * rp_channel d' \<noteq> 8 + 4 * rp_channel d" by presburger+
  note ne = this
  show ?thesis
    using d c ne by (auto simp: Let_def rules Rp1Engine_range_def Rp1Engine_read_def Rp1Engine_setRange_def Rp1Engine_write_def
      rp1_engine_def uint_word_of_int)
qed

text \<open>A simulated unit: plain registers, except for the update bit, which reads zero.\<close>

record rp1_pwm_state =
  rs_pwm :: "nat \<Rightarrow> u32"
  rs_clk :: "nat \<Rightarrow> u32"

definition rp1_pwm_sim :: "rp1_pwm_state pwm_hw" where
  "rp1_pwm_sim = \<lparr>rdPwm = (\<lambda>i h. rs_pwm h i),
     wrPwm = (\<lambda>i v h. h\<lparr>rs_pwm := (rs_pwm h)(i := if i = PwmGlobalCtrlReg then take_bit 31 v else v)\<rparr>),
     rdClk = (\<lambda>i h. rs_clk h i), wrClk = (\<lambda>i v h. h\<lparr>rs_clk := (rs_clk h)(i := v)\<rparr>), delayUs = (\<lambda>k h. h)\<rparr>"

interpretation rsim: rp1_pwm rp1_pwm_sim
  by unfold_locales (auto simp: rp1_pwm_sim_def bit_take_bit_iff)

definition rp1_demo :: "nat \<Rightarrow> rp1pwm" where
  "rp1_demo c = iodevice.extend iodevice_new (rp1pwm.fields True c (6 + 4 * c) (8 + 4 * c) (5 + 4 * c) 50000000 TrailingEdgeMsMode)"

lemma rp1_demo_engine: "c < 4 \<Longrightarrow> rp1_engine (rp1_demo c)" "rp_channel (rp1_demo c) = c"
  by (simp_all add: rp1_demo_def rp1_engine_def rp1pwm.defs iodevice.defs iodevice_new_def)

theorem rp1_pwm_channels_witness:
  "Rp1Engine_isEnabled rp1_pwm_sim (rp1_demo 2)
     (Rp1Engine_setEnable rp1_pwm_sim True (rp1_demo 2) \<lparr>rs_pwm = (\<lambda>i. 0), rs_clk = (\<lambda>i. 0)\<rparr>)"
  using rp1_pwm_channels [OF rsim.rp1_pwm_axioms rp1_demo_engine(1) [of 2] rp1_demo_engine(1) [of 2],
    of True "\<lparr>rs_pwm = (\<lambda>i. 0), rs_clk = (\<lambda>i. 0)\<rparr>" 0 0] by (simp add: Let_def)

lemma rp1_setFrequency_not_above:
  assumes hw: "rp1_pwm hw" and fp: "fp_law fp" and f: "0 < f" "f \<le> 2 ^ 50"
    and d: "rp1_engine d" "0 < uint (rp_clkFreq d)" "uint (rp_clkFreq d) < 2 ^ 31" and r: "0 < Rp1Engine_range hw d h"
  shows "\<exists>g h'. Rp1Engine_setFrequency fp hw f d h = Some (g, h') \<and>
    g \<le> max f (uint (rp_clkFreq d) div 4095 div Rp1Engine_range hw d h) \<and>
    (\<forall>i \<ge> 5. rdPwm hw i h' = rdPwm hw i h) \<and> (\<forall>k < 4. bit (rdPwm hw PwmGlobalCtrlReg h') k = bit (rdPwm hw PwmGlobalCtrlReg h) k)"
proof -
  let ?C = "uint (rp_clkFreq d)" and ?r = "Rp1Engine_range hw d h"
  have r32: "?r < 2 ^ 32" unfolding Rp1Engine_range_def using uint_lt2p [of "rdPwm hw (rp_rngReg d) h"] by simp
  obtain n where n: "ceil_divisor fp ?C f ?r = Some n" using r by (simp add: ceil_divisor_def)
  note v = ceil_divisor_value [OF fp d(2,3) f r r32 n]
  define w :: u32 where "w = of_int n"
  have w: "uint w = n" using v(1,2) by (simp add: w_def uint_word_of_int)
  then have w1: "1 \<le> w" using v(1) by (simp add: word_le_def)
  define h' where "h' = Rp1Engine_setClockDivisor hw w h"
  have keep: "5 \<le> i \<Longrightarrow> rdPwm hw i h' = rdPwm hw i h" "k < 4 \<Longrightarrow> bit (rdPwm hw PwmGlobalCtrlReg h') k = bit (rdPwm hw PwmGlobalCtrlReg h) k" for i k
    unfolding h'_def Rp1Engine_setClockDivisor_def Let_def
    by (auto simp: rp1_pwm.pwm_keep [OF hw] rp1_pwm.chan_rw [OF hw] rp1_pwm.glob_rw [OF hw] w1)
  have dv: "Rp1Engine_clockDivisor hw h' = (if w > 4095 then 4095 else w)"
    using w1 by (auto simp: h'_def Rp1Engine_setClockDivisor_def Rp1Engine_clockDivisor_def Let_def rp1_pwm.div_rw [OF hw] rp1_pwm.div_keep [OF hw])
  define k where "k = uint (Rp1Engine_clockDivisor hw h')"
  have k: "k = (if n > 4095 then 4095 else n)" unfolding k_def dv using w by (auto simp: word_less_def)
  have rng: "Rp1Engine_range hw d h' = ?r" using keep(1) d(1) by (simp add: Rp1Engine_range_def rp1_engine_def)
  have fr: "Rp1Engine_frequency hw d h' = Some (?C div k div ?r)"
    using r k rng v(1) by (auto simp: Rp1Engine_frequency_def Let_def k_def [symmetric])
  have "?C div k div ?r \<le> max f (?C div 4095 div ?r)" using k v(3) by (auto split: if_splits)
  then show ?thesis using f n fr keep by (auto simp: Rp1Engine_setFrequency_def w_def [symmetric] h'_def [symmetric] Let_def)
qed

section \<open>Allwinner H: range and frequency\<close>

locale hx_pwm =
  fixes hw :: "'h pwm_hw"
  assumes period_rw: "rdPwm hw PWM_CH0_PERIOD (wrPwm hw j v h) = (if j = PWM_CH0_PERIOD then v else rdPwm hw PWM_CH0_PERIOD h)"
    and ctrl_rw: "k \<noteq> 28 \<Longrightarrow> bit (rdPwm hw PWM_CH_CTRL (wrPwm hw j v h)) k = bit (if j = PWM_CH_CTRL then v else rdPwm hw PWM_CH_CTRL h) k"
    and delay_keep: "rdPwm hw PWM_CH0_PERIOD (delayUs hw n h) = rdPwm hw PWM_CH0_PERIOD h"
      "k \<noteq> 28 \<Longrightarrow> bit (rdPwm hw PWM_CH_CTRL (delayUs hw n h)) k = bit (rdPwm hw PWM_CH_CTRL h) k"
begin

lemma period_writeReg: "HxEngine_period hw (HxEngine_writeReg hw j v h) = (if j = PWM_CH0_PERIOD then v else HxEngine_period hw h)"
  by (simp add: HxEngine_period_def HxEngine_readReg_def HxEngine_writeReg_def delay_keep period_rw)

lemma ctrl_writeReg:
  "k \<noteq> 28 \<Longrightarrow> bit (HxEngine_readReg hw PWM_CH_CTRL (HxEngine_writeReg hw j v h)) k = bit (if j = PWM_CH_CTRL then v else HxEngine_readReg hw PWM_CH_CTRL h) k"
  by (simp add: HxEngine_readReg_def HxEngine_writeReg_def delay_keep ctrl_rw)

end

lemma period_fields:
  fixes p :: u32 and q :: int
  shows "drop_bit 16 ((p AND NOT 0xFFFF0000) OR push_bit 16 (of_int q)) = (take_bit 16 (of_int q) :: u32)"
    and "((p AND NOT 0xFFFF0000) OR push_bit 16 (of_int q)) AND 0xFFFF = p AND 0xFFFF"
    and "drop_bit 16 ((p AND NOT 0x0000FFFF) OR (ucast (v :: u16))) = drop_bit 16 p"
    and "((p AND NOT 0x0000FFFF) OR (ucast v)) AND 0xFFFF = ucast v"
proof -
  have m: "(0xFFFF :: u32) = mask 16" "(0xFFFF0000 :: u32) = NOT (mask 16)" by (simp_all add: mask_eq_exp_minus_1)
  show "drop_bit 16 ((p AND NOT 0xFFFF0000) OR push_bit 16 (of_int q)) = (take_bit 16 (of_int q) :: u32)" unfolding m
    by (rule bit_eqI) (auto simp: bit_drop_bit_eq bit_or_iff bit_and_iff bit_not_iff bit_mask_iff bit_push_bit_iff bit_take_bit_iff)
  show "((p AND NOT 0xFFFF0000) OR push_bit 16 (of_int q)) AND 0xFFFF = p AND 0xFFFF" unfolding m
    by (rule bit_eqI) (auto simp: bit_or_iff bit_and_iff bit_not_iff bit_mask_iff bit_push_bit_iff)
  show "drop_bit 16 ((p AND NOT 0x0000FFFF) OR (ucast (v :: u16))) = drop_bit 16 p" unfolding m
    by (rule bit_eqI) (auto simp: bit_drop_bit_eq bit_or_iff bit_and_iff bit_not_iff bit_mask_iff bit_ucast_iff dest: bit_imp_le_length)
  show "((p AND NOT 0x0000FFFF) OR (ucast v)) AND 0xFFFF = ucast v" unfolding m
    by (rule bit_eqI) (auto simp: bit_or_iff bit_and_iff bit_not_iff bit_mask_iff bit_ucast_iff dest: bit_imp_le_length)
qed

lemma value_uint: "uint (HxEngine_value hw h) = uint (HxEngine_period hw h AND 0xFFFF)"
proof -
  have "(0xFFFF :: u32) = mask 16" by (simp add: mask_eq_exp_minus_1)
  then have t: "HxEngine_period hw h AND 0xFFFF = take_bit 16 (HxEngine_period hw h)" by (simp only: take_bit_eq_mask)
  show ?thesis unfolding HxEngine_value_def t by (simp add: unsigned_ucast_eq unsigned_take_bit_eq)
qed

text \<open>\<open>setRange\<close> of an Allwinner PWM sets every range from 2 to 65536, 65536 by the wrap-around of the masked value, and lowers
  the value to the new maximum if it does not fit; what it returns then is 1, the success of that, and not the range.\<close>

lemma hx_setRange_range:
  assumes hw: "hx_pwm hw" and r: "2 \<le> r" "r \<le> 65536"
  shows "let (ret, h') = HxEngine_setRange hw r h; v = uint (HxEngine_value hw h)
    in HxEngine_range hw h' = r \<and> uint (HxEngine_value hw h') = min v (r - 1) \<and> ret = (if v > r - 1 then 1 else r)"
proof -
  define p where "p = (HxEngine_period hw h AND NOT 0xFFFF0000) OR push_bit 16 (of_int ((r AND 0xFFFF) - 1))"
  define h1 where "h1 = HxEngine_writeReg hw PWM_CH0_PERIOD p h"
  have m: "(0xFFFF :: int) = mask 16" by (simp add: mask_eq_exp_minus_1)
  have "uint (take_bit 16 (of_int ((r AND 0xFFFF) - 1) :: u32)) = (r - 1) mod 2 ^ 16"
  proof -
    have t: "uint (take_bit 16 (of_int z :: u32)) = take_bit 16 z" for z
      by (simp only: unsigned_take_bit_eq uint_word_of_int_eq take_bit_take_bit) simp
    show ?thesis unfolding t m take_bit_eq_mask [symmetric] unfolding take_bit_eq_mod by (rule mod_diff_left_eq)
  qed
  also have "\<dots> = r - 1" using r by simp
  finally have f: "uint (drop_bit 16 p) = r - 1" unfolding p_def period_fields(1) .
  have p1: "HxEngine_period hw h1 = p" by (simp add: h1_def hx_pwm.period_writeReg [OF hw])
  have r1: "HxEngine_range hw h1 = r" using r f by (simp add: HxEngine_range_def p1)
  have v1: "uint (HxEngine_value hw h1) = uint (HxEngine_value hw h)" unfolding value_uint p1 by (simp only: p_def period_fields(2))
  have m1: "HxEngine_max hw h1 = r - 1" using r1 by (simp add: HxEngine_max_def)
  define x :: u16 where "x = of_int (r - 1)"
  have x: "uint x = r - 1" unfolding x_def uint_word_of_int_eq using r by (simp add: take_bit_int_eq_self_iff)
  define h2 where "h2 = HxEngine_writeReg hw PWM_CH0_PERIOD ((p AND NOT 0x0000FFFF) OR ucast x) h1"
  have p2: "HxEngine_period hw h2 = (p AND NOT 0x0000FFFF) OR ucast x" by (simp add: h2_def hx_pwm.period_writeReg [OF hw])
  have r2: "HxEngine_range hw h2 = r" using r f by (simp only: HxEngine_range_def p2 period_fields(3) Let_def) simp
  have v2: "uint (HxEngine_value hw h2) = r - 1"
    unfolding value_uint p2 period_fields(4) using x r by (simp add: unsigned_ucast_eq take_bit_int_eq_self_iff)
  have s: "HxEngine_setRange hw r h = (if uint (HxEngine_value hw h) > r - 1 then (1, h2) else (r, h1))"
  proof -
    have c: "(if r < 2 then 2 else r) = r" using r by simp
    show ?thesis
      unfolding HxEngine_setRange_def Let_def c HxEngine_setPeriod_def HxEngine_setValue_def prod.case p_def [symmetric]
      unfolding h1_def [symmetric] v1 m1 r1 p1 x_def [symmetric] h2_def [symmetric] by simp
  qed
  show ?thesis unfolding s using r1 r2 v1 v2 by (auto simp: Let_def min_def)
qed

text \<open>At the largest range the frequency reads zero, because it is computed from the range in 16 bits; above it the range
  itself may become zero.\<close>

lemma hx_frequency_16bit: "HxEngine_range hw h = 65536 \<Longrightarrow> HxEngine_frequency hw h = 0"
  by (simp add: HxEngine_frequency_def Let_def uint_word_of_int)

lemma nearest_spec:
  "nearest freq t k \<bar>t - freq k\<bar> ks \<in> set (k # ks) \<and> (\<forall>j \<in> set (k # ks). \<bar>t - freq (nearest freq t k \<bar>t - freq k\<bar> ks)\<bar> \<le> \<bar>t - freq j\<bar>)"
proof (induction ks arbitrary: k)
  case (Cons a ks)
  show ?case
  proof (cases "\<bar>t - freq a\<bar> < \<bar>t - freq k\<bar>")
    case True
    then show ?thesis using Cons [of a] by (auto simp: Let_def)
  next
    case False
    then show ?thesis using Cons [of k] by (auto simp: Let_def)
  qed
qed simp

lemma findValidDivisor_nearest:
  assumes "0 < dv" "0 < HxEngine_range hw h"
  shows "\<exists>k. HxEngine_findValidDivisor hw dv h = Some k \<and> k \<in> set (map fst divisorMap) \<and>
    (\<forall>j \<in> set (map fst divisorMap). \<bar>HX_CLOCK_FREQ div dv div HxEngine_range hw h - HX_CLOCK_FREQ div k div HxEngine_range hw h\<bar> \<le>
      \<bar>HX_CLOCK_FREQ div dv div HxEngine_range hw h - HX_CLOCK_FREQ div j div HxEngine_range hw h\<bar>)"
proof (cases "dv \<in> set (map fst divisorMap)")
  case True
  then show ?thesis using assms by (auto simp: HxEngine_findValidDivisor_def)
next
  case False
  define freq where "freq k = HX_CLOCK_FREQ div k div HxEngine_range hw h" for k
  define g where "g = (\<lambda>k. the (HxEngine_divisorFrequency hw k h))"
  have gf: "g k = freq k" if "k \<in> set (map fst divisorMap)" for k
    using that assms by (auto simp: g_def freq_def HxEngine_divisorFrequency_def divisorMap_def)
  have ks: "set (map fst divisorMap) = set (fst (hd divisorMap) # map fst (tl divisorMap))" by (simp add: divisorMap_def)
  define k where "k = nearest g (freq dv) (fst (hd divisorMap)) \<bar>freq dv - g (fst (hd divisorMap))\<bar> (map fst (tl divisorMap))"
  have k: "k \<in> set (map fst divisorMap)" "\<forall>j \<in> set (map fst divisorMap). \<bar>freq dv - g k\<bar> \<le> \<bar>freq dv - g j\<bar>"
    using nearest_spec [of g "freq dv" "fst (hd divisorMap)" "map fst (tl divisorMap)"] unfolding ks k_def by blast+
  have "HxEngine_findValidDivisor hw dv h = Some k"
    using False assms by (simp add: HxEngine_findValidDivisor_def HxEngine_divisorFrequency_def Let_def k_def freq_def g_def)
  then show ?thesis using k gf unfolding freq_def by auto
qed

context hx_pwm
begin

lemma ctrl_field:
  assumes "\<not> bit m 28"
  shows "HxEngine_readReg hw PWM_CH_CTRL (HxEngine_writeReg hw PWM_CH_CTRL v h) AND m = v AND m"
proof (rule bit_eqI)
  fix k
  show "bit (HxEngine_readReg hw PWM_CH_CTRL (HxEngine_writeReg hw PWM_CH_CTRL v h) AND m) k = bit (v AND m) k"
    using assms ctrl_writeReg [of k PWM_CH_CTRL v h] by (cases "k = 28") (auto simp: bit_and_iff)
qed

lemma masks_28: "\<not> bit (0xF :: u32) 28" "\<not> bit (0x50 :: u32) 28"
  by (simp_all add: bit_iff_odd_drop_bit)

lemma enable_fields:
  "HxEngine_readReg hw PWM_CH_CTRL (HxEngine_setEnable hw e h) AND 0xF = HxEngine_readReg hw PWM_CH_CTRL h AND 0xF"
  "HxEngine_isEnabled hw (HxEngine_setEnable hw e h) = e"
  "HxEngine_period hw (HxEngine_setEnable hw e h) = HxEngine_period hw h"
  using ctrl_field [OF masks_28(1)] ctrl_field [OF masks_28(2)]
  by (auto simp: HxEngine_setEnable_def HxEngine_isEnabled_def Let_def period_writeReg bit.conj_disj_distrib2 and.assoc)

lemma setClockDivisor_effect:
  assumes "k \<in> set (map fst divisorMap)"
  shows "\<exists>h'. HxEngine_setClockDivisor hw k h = Some (Inr h') \<and> HxEngine_clockDivisor hw h' = k \<and>
    HxEngine_isEnabled hw h' = HxEngine_isEnabled hw h \<and> HxEngine_period hw h' = HxEngine_period hw h"
proof -
  have b: "1 \<le> k" "k \<le> 72000" using assms by (auto simp: divisorMap_def)
  have v: "HxEngine_findValidDivisor hw k h = Some k" using assms b by (simp add: HxEngine_findValidDivisor_def)
  obtain code where code: "map_at divisorMap k = Inr code" "code AND 0xF = code" "code AND 0x50 = 0"
    "find (\<lambda>(_, c). c = code) divisorMap = Some (k, code)"
    using assms by (auto simp: divisorMap_def map_at_def)
  define e where "e = HxEngine_isEnabled hw h"
  define h1 where "h1 = (if e then HxEngine_setEnable hw False h else h)"
  define h2 where "h2 = HxEngine_writeReg hw PWM_CH_CTRL ((HxEngine_readReg hw PWM_CH_CTRL h1 AND NOT PWM_CH0_PRESCAL_MASK) OR code) h1"
  define h3 where "h3 = (if e then HxEngine_setEnable hw e h2 else h2)"
  have s: "HxEngine_setClockDivisor hw k h = Some (Inr h3)"
  proof -
    have c: "(if k < 1 then 1 else if 72000 < k then 72000 else k) = k" using b by simp
    show ?thesis
      unfolding HxEngine_setClockDivisor_def Let_def c v option.map e_def [symmetric] h1_def [symmetric] code(1) sum.case
      unfolding h2_def [symmetric] h3_def [symmetric] ..
  qed
  have "HxEngine_readReg hw PWM_CH_CTRL h2 AND 0xF = code"
    using ctrl_field [OF masks_28(1)] code(2) by (simp add: h2_def bit.conj_disj_distrib2 and.assoc)
  then have "HxEngine_readReg hw PWM_CH_CTRL h3 AND 0xF = code" by (simp add: h3_def enable_fields)
  then have c: "HxEngine_clockDivisor hw h3 = k" using code(4) by (simp add: HxEngine_clockDivisor_def Let_def)
  have "HxEngine_isEnabled hw h2 = HxEngine_isEnabled hw h1"
    using ctrl_field [OF masks_28(2)] code(3) by (simp add: HxEngine_isEnabled_def h2_def bit.conj_disj_distrib2 and.assoc)
  then have en: "HxEngine_isEnabled hw h3 = HxEngine_isEnabled hw h"
    by (cases e) (simp_all add: h3_def h1_def enable_fields e_def [symmetric])
  have "HxEngine_period hw h3 = HxEngine_period hw h" by (simp add: h3_def h2_def h1_def enable_fields period_writeReg)
  then show ?thesis using s c en by blast
qed

end


definition hx_pwm_sim :: "(nat \<Rightarrow> u32) pwm_hw" where
  "hx_pwm_sim = \<lparr>rdPwm = (\<lambda>i h. h i), wrPwm = (\<lambda>i v h. h(i := v)), rdClk = (\<lambda>i h. 0), wrClk = (\<lambda>i v h. h),
     delayUs = (\<lambda>k h. h(PWM_CH_CTRL := h PWM_CH_CTRL OR PWM0_RDY))\<rparr>"

lemma rdy_bit: "k \<noteq> 28 \<Longrightarrow> \<not> bit (0x10000000 :: u32) k"
proof -
  have "(0x10000000 :: u32) = push_bit 28 1" by simp
  then show "k \<noteq> 28 \<Longrightarrow> \<not> bit (0x10000000 :: u32) k" by (simp only: bit_push_bit_iff bit_1_iff) simp
qed

interpretation xsim: hx_pwm hx_pwm_sim
  by unfold_locales (auto simp: hx_pwm_sim_def bit_or_iff rdy_bit simp del: bit_numeral_word_iff)

lemma fp_law_id: "fp_law id"
  by (auto simp: fp_law_def intro: mult_nonneg_nonneg order_trans [of 0 "1 / 2 ^ 100"])

lemma hx_setRange_range_witness:
  "fst (HxEngine_setRange hx_pwm_sim 256 (\<lambda>i. 0x10000200)) = 1 \<and> HxEngine_range hx_pwm_sim (snd (HxEngine_setRange hx_pwm_sim 256 (\<lambda>i. 0x10000200))) = 256"
proof -
  have "uint (HxEngine_value hx_pwm_sim (\<lambda>i. 0x10000200)) = 512"
    by (simp add: value_uint HxEngine_period_def HxEngine_readReg_def hx_pwm_sim_def)
  then show ?thesis using hx_setRange_range [OF xsim.hx_pwm_axioms, of 256 "\<lambda>i. 0x10000200"] by (simp add: split_beta Let_def)
qed


end
