(* ===== verification/GpioPwm.thy ===== *)
theory GpioPwm
  imports Pwm I2cDriver
begin

text \<open>
  The software PWM \<open>GpioPwm\<close> (\<open>src/gpio/gpiopwm.cpp\<close>, \<open>src/gpio/gpiopwm_p.h\<close>): the converter and the loop of the thread
  that switches the pin.

  Times are nanoseconds, as integers for the clock and as reals rounded by \<open>fp\<close> for the durations in \<open>double\<close>. Each turn
  of the loop is one step, with the value and the update flag as the thread finds them; the step gives the writes to
  the pin with the time before which they are not made.
\<close>

unbundle bit_operations_syntax

abbreviation (input) FlagRun :: u32 where "FlagRun \<equiv> 1"
abbreviation (input) FlagValueUpdated :: u32 where "FlagValueUpdated \<equiv> 2"

record gpiopwm = iodevice +
  gp_value :: int
  gp_pfreq :: int
  gp_prange :: int
  gp_flag :: u32
  gp_thread :: bool

definition GpioPwm_new :: "int \<Rightarrow> int \<Rightarrow> gpiopwm" where
  "GpioPwm_new r f = iodevice.extend iodevice_new (gpiopwm.fields 0 f r 0 False)"

text \<open>\<open>std::stol\<close>, which differs from \<open>std::stoi\<close> in its range.\<close>

definition stol :: "string \<Rightarrow> int res" where
  "stol str = (let s = dropWhile isspace str;
     neg = (s \<noteq> [] \<and> hd s = CHR ''-'');
     s = (if s \<noteq> [] \<and> hd s \<in> {CHR ''-'', CHR ''+''} then tl s else s);
     ds = takeWhile isdigit s;
     v = (if neg then - digits_value ds else digits_value ds)
   in if ds = [] then Inl Invalid_argument
   else if - (2 ^ 63) \<le> v \<and> v < 2 ^ 63 then Inr v else Inl Out_of_range)"

text \<open>The constructor from a parameter string; \<open>getPin\<close> looks the pin up and throws if there is none.\<close>

definition GpioPwm_new_params :: "(string \<Rightarrow> 'p res) \<Rightarrow> string list \<Rightarrow> (gpiopwm \<times> 'p) res" where
  "GpioPwm_new_params getPin parameters = (if parameters = [] then Inl Invalid_argument
     else rbind (getPin (parameters ! 0)) (\<lambda>pin.
       rbind (if 1 < length parameters then stol (parameters ! 1) else Inr 1024) (\<lambda>r.
       rbind (if 2 < length parameters then stol (parameters ! 2) else Inr 100) (\<lambda>f.
       Inr (GpioPwm_new r f, pin)))))"

definition GpioPwm_isEnabled :: "gpiopwm \<Rightarrow> bool" where
  "GpioPwm_isEnabled d = gp_thread d"

text \<open>Disabling clears the run flag and waits for the thread to end.\<close>

definition GpioPwm_setEnable :: "bool \<Rightarrow> gpiopwm \<Rightarrow> gpiopwm" where
  "GpioPwm_setEnable enable d = (if enable \<noteq> GpioPwm_isEnabled d
     then if enable then d\<lparr>gp_flag := FlagRun OR FlagValueUpdated, gp_thread := True\<rparr>
       else d\<lparr>gp_flag := gp_flag d AND NOT FlagRun, gp_thread := False\<rparr>
     else d)"

definition GpioPwm_open :: "('p \<Rightarrow> 'p res) \<Rightarrow> u32 \<Rightarrow> gpiopwm \<times> 'p \<Rightarrow> (bool \<times> gpiopwm \<times> 'p) res" where
  "GpioPwm_open setModeOutput mode s = rbind (setModeOutput (snd s)) (\<lambda>p.
     let d = GpioPwm_setEnable True (fst s)
     in if GpioPwm_isEnabled d then let (r, d) = IoDevice_Private_open mode d in Inr (r, d, p) else Inr (False, d, p))"

definition GpioPwm_close :: "gpiopwm \<Rightarrow> gpiopwm" where
  "GpioPwm_close d = IoDevice_Private_close (GpioPwm_setEnable False d)"

definition GpioPwm_write :: "int \<Rightarrow> gpiopwm \<Rightarrow> bool \<times> gpiopwm" where
  "GpioPwm_write v d = (True, d\<lparr>gp_value := v, gp_flag := gp_flag d OR FlagValueUpdated\<rparr>)"

definition GpioPwm_read :: "gpiopwm \<Rightarrow> int" where
  "GpioPwm_read d = gp_value d"

definition GpioPwm_max :: "gpiopwm \<Rightarrow> int" where
  "GpioPwm_max d = gp_prange d"

section \<open>The generator\<close>

record generator =
  g_ton :: real
  g_toff :: real
  g_next :: int

definition trunc :: "real \<Rightarrow> int" where
  "trunc x = (if 0 \<le> x then \<lfloor>x\<rfloor> else \<lceil>x\<rceil>)"

text \<open>One turn of the loop: the writes to the pin, each with the time that \<open>sleep_until\<close> waits for.\<close>

definition generator_cycle :: "(real \<Rightarrow> real) \<Rightarrow> real \<Rightarrow> real \<Rightarrow> int \<Rightarrow> bool \<Rightarrow> generator \<Rightarrow> (int \<times> bool) list \<times> generator" where
  "generator_cycle fp T D v updated g = (
     let g = (if updated then let ton = fp (fp (of_int v * T) / D) in g\<lparr>g_ton := ton, g_toff := fp (T - ton)\<rparr> else g);
       (w1, g) = (if 0 < g_ton g then let next = g_next g + trunc (g_toff g) in ([(next, True)], g\<lparr>g_next := next\<rparr>) else ([], g));
       (w2, g) = (if 0 < g_toff g then let next = g_next g + trunc (g_ton g) in ([(next, False)], g\<lparr>g_next := next\<rparr>) else ([], g))
     in (w1 @ w2, g))"

fun generator_cycles :: "(real \<Rightarrow> real) \<Rightarrow> real \<Rightarrow> real \<Rightarrow> (int \<times> bool) list \<Rightarrow> generator \<Rightarrow> (int \<times> bool) list \<times> generator" where
  "generator_cycles fp T D [] g = ([], g)"
| "generator_cycles fp T D ((v, updated) # vs) g = (let (w, g) = generator_cycle fp T D v updated g; (ws, g) = generator_cycles fp T D vs g in (w @ ws, g))"

text \<open>The whole thread: the pin is low first and last; with no frequency or no range it is only low.\<close>

definition generator_thread :: "(real \<Rightarrow> real) \<Rightarrow> int \<Rightarrow> gpiopwm \<Rightarrow> (int \<times> bool) list \<Rightarrow> (int \<times> bool) list" where
  "generator_thread fp now d vs = (
     let T = fp (10 ^ 9 / of_int (gp_pfreq d)); D = of_int (GpioPwm_max d)
     in (if 0 < T \<and> 0 < D then
         let (w, g) = generator_cycles fp T D vs \<lparr>g_ton = 0, g_toff = 0, g_next = now\<rparr> in (now, False) # w @ [(g_next g, False)]
       else [(now, False)]))"

section \<open>Properties\<close>

text \<open>The value reaches the thread: a write is followed by an update, also one made while the thread does not run.\<close>

lemma enabled_updates:
  "GpioPwm_isEnabled (GpioPwm_setEnable e d) = e"
  "bit (gp_flag (snd (GpioPwm_write v d))) 1" "GpioPwm_read (snd (GpioPwm_write v d)) = v"
  by (auto simp: GpioPwm_setEnable_def GpioPwm_isEnabled_def GpioPwm_write_def GpioPwm_read_def bit_or_iff)

lemma fp_scaled:
  assumes "fp_law fp" "1 / 2 ^ 100 \<le> x" "x \<le> 2 ^ 100" "0 \<le> c" "c * (1 - 1 / 2 ^ 53) \<le> x" "x \<le> c * (1 + 1 / 2 ^ 53)"
  shows "\<bar>fp x - c\<bar> \<le> 3 / 2 ^ 53 * c"
proof -
  let ?e = "1 / 2 ^ 53 :: real"
  note b = fp_bounds [OF assms(1-3)]
  have "c * (1 - ?e) * (1 - ?e) \<le> x * (1 - ?e)" using assms(5) by (intro mult_right_mono) auto
  then have l: "c * ((1 - ?e) * (1 - ?e)) \<le> fp x" using b(1) by (simp only: mult.assoc)
  have "x * (1 + ?e) \<le> c * (1 + ?e) * (1 + ?e)" using assms(6) by (intro mult_right_mono) auto
  then have u: "fp x \<le> c * ((1 + ?e) * (1 + ?e))" using b(2) by (simp only: mult.assoc)
  have "c * (1 - 3 * ?e) \<le> c * ((1 - ?e) * (1 - ?e))" "c * ((1 + ?e) * (1 + ?e)) \<le> c * (1 + 3 * ?e)"
    using assms(4) by (auto intro!: mult_left_mono)
  then have "c * (1 - 3 * ?e) \<le> fp x" "fp x \<le> c * (1 + 3 * ?e)" using l u by linarith+
  then have "c - 3 / 2 ^ 53 * c \<le> fp x" "fp x \<le> c + 3 / 2 ^ 53 * c" by (simp_all add: field_simps)
  then show ?thesis by linarith
qed

text \<open>The rounded share of the period: close to the exact one, positive and less than the period.\<close>

lemma rounded_share:
  assumes law: "fp_law fp" and T: "1 \<le> T" "T \<le> 2 ^ 30" and v: "0 < v" "v < D" "D \<le> 2 ^ 31"
  defines "q \<equiv> of_int v * T / of_int D" and "ton \<equiv> fp (fp (of_int v * T) / of_int D)"
  shows "\<bar>ton - q\<bar> \<le> 1 / 2 ^ 20" "0 < ton" "1 / 2 ^ 32 \<le> T - ton"
proof -
  let ?v = "real_of_int v" and ?D = "real_of_int D" and ?e = "1 / 2 ^ 53 :: real"
  have vr: "1 \<le> ?v" "1 \<le> ?D" "?D \<le> 2 ^ 31" "?v + 1 \<le> ?D"
    using v of_int_le_iff [of D "2 ^ 31", where ?'a = real] of_int_le_iff [of "v + 1" D, where ?'a = real] by simp_all
  have p: "1 \<le> ?v * T" "?v * T \<le> 2 ^ 31 * 2 ^ 30"
    using mult_mono [of 1 ?v 1 T] mult_mono [of ?v "2 ^ 31" T "2 ^ 30"] vr T by auto
  have big: "(2 ^ 31 * 2 ^ 30 :: real) \<le> 2 ^ 100" "1 / 2 ^ 100 \<le> (1 :: real)" by simp_all
  have "1 / 2 ^ 100 \<le> ?v * T" "?v * T \<le> 2 ^ 100" using p big by linarith+
  note b = fp_bounds [OF law this]
  have q: "1 / 2 ^ 31 \<le> q" "q \<le> T - T / ?D"
  proof -
    have "1 / 2 ^ 31 \<le> 1 / ?D" using vr by (intro divide_left_mono) auto
    also have "\<dots> \<le> q" unfolding q_def using p vr by (intro divide_right_mono) auto
    finally show "1 / 2 ^ 31 \<le> q" .
    have "?v * T \<le> (?D - 1) * T" using vr T by (intro mult_right_mono) auto
    then have "q \<le> (?D - 1) * T / ?D" unfolding q_def using vr by (intro divide_right_mono) auto
    also have "\<dots> = T - T / ?D" using vr by (simp add: field_simps)
    finally show "q \<le> T - T / ?D" .
  qed
  have TD: "T / 2 ^ 31 \<le> T / ?D" using vr T by (intro divide_left_mono) auto
  have xq: "q * (1 - ?e) \<le> fp (?v * T) / ?D" "fp (?v * T) / ?D \<le> q * (1 + ?e)"
    using divide_right_mono [OF b(1), of ?D] divide_right_mono [OF b(2), of ?D] vr by (simp_all add: q_def)
  have q0: "0 \<le> q" "q \<le> T" using q TD T by (auto intro: order_trans [of _ "1 / 2 ^ 31"])
  have "1 / 2 ^ 31 * (1 - ?e) \<le> q * (1 - ?e)" using q by (intro mult_right_mono) auto
  then have "1 / 2 ^ 100 \<le> fp (?v * T) / ?D" using xq(1) by (rule order_trans [OF order_trans, rotated]) simp
  moreover have "q * (1 + ?e) \<le> 2 ^ 30 * (1 + ?e)" using q0 T by (intro mult_right_mono) auto
  then have "fp (?v * T) / ?D \<le> 2 ^ 30 * (1 + ?e)" using xq(2) by linarith
  then have "fp (?v * T) / ?D \<le> 2 ^ 100" by (rule order_trans) simp
  ultimately have c: "\<bar>ton - q\<bar> \<le> 3 / 2 ^ 53 * q" unfolding ton_def using fp_scaled [OF law _ _ q0(1) xq] by blast
  have "3 / 2 ^ 53 * q \<le> 3 / 2 ^ 53 * T" using q0 by (intro mult_left_mono) auto
  then have t: "\<bar>ton - q\<bar> \<le> 3 / 2 ^ 53 * T" using c by linarith
  also have "3 / 2 ^ 53 * T \<le> 3 / 2 ^ 53 * 2 ^ 30" using T by (intro mult_left_mono) auto
  finally show "\<bar>ton - q\<bar> \<le> 1 / 2 ^ 20" by simp
  have "0 < q" by (rule less_le_trans [OF _ q(1)]) simp
  then have "3 / 2 ^ 53 * q < 1 * q" by (intro mult_strict_right_mono) auto
  then show "0 < ton" using c by linarith
  have "T / 2 ^ 31 - 3 / 2 ^ 53 * T \<ge> 1 / 2 ^ 32" using T by simp
  then show "1 / 2 ^ 32 \<le> T - ton" using t q(2) TD by linarith
qed



text \<open>With the value 0, which a device has when it is opened, no turn of the generator waits: the time it sleeps until never
  advances, and the thread writes the pin low in a loop that does not pause, at real-time priority.\<close>

lemma generator_spins_at_zero:
  assumes "fp 0 = 0" "0 < T"
  shows "g_next (snd (generator_cycles fp T D (map (\<lambda>u. (0, u)) us) \<lparr>g_ton = 0, g_toff = toff, g_next = now\<rparr>)) = now \<and>
    (\<forall>(t, level) \<in> set (fst (generator_cycles fp T D (map (\<lambda>u. (0, u)) us) \<lparr>g_ton = 0, g_toff = toff, g_next = now\<rparr>)). t = now \<and> \<not> level)"
proof (induction us arbitrary: toff)
  case (Cons u us)
  have c: "\<exists>t' w. generator_cycle fp T D 0 u \<lparr>g_ton = 0, g_toff = toff, g_next = now\<rparr> = (w, \<lparr>g_ton = 0, g_toff = t', g_next = now\<rparr>) \<and>
      (\<forall>(t, level) \<in> set w. t = now \<and> \<not> level)"
    using assms by (cases u) (auto simp: generator_cycle_def Let_def trunc_def)
  then obtain t' w where "generator_cycle fp T D 0 u \<lparr>g_ton = 0, g_toff = toff, g_next = now\<rparr> = (w, \<lparr>g_ton = 0, g_toff = t', g_next = now\<rparr>)"
    "\<forall>(t, level) \<in> set w. t = now \<and> \<not> level" by blast
  then show ?case using Cons [of t'] by (auto simp: split_beta)
qed simp

lemma generator_spins_at_zero_witness:
  "g_next (snd (generator_cycles id (10 ^ 7) 1024 (map (\<lambda>u. (0, u)) [True, False, False]) \<lparr>g_ton = 0, g_toff = 0, g_next = 5\<rparr>)) = 5"
  using generator_spins_at_zero [of id "10 ^ 7" 1024 "[True, False, False]" 0 5] by simp

end
