(* ===== verification/Spi.thy ===== *)
theory Spi
  imports IoDevice GpioDevice
begin

text \<open>
  The SPI bus: \<open>SpiDev\<close> (\<open>src/spi/spidev.cpp\<close>, \<open>include/piduino/spidev.h\<close>) and the Arduino class \<open>SPIClass\<close> over it
  (\<open>src/arduino/spi/SPI.cpp\<close>).

  The kernel is a parameter: opening and closing the device file, writing and reading each setting by \<open>ioctl\<close>, and
  a message of several transfers. A transfer has the bytes to send, or none, whether received bytes are wanted, and the
  length. The GPIO pins of chip selects are used through the two functions that the class calls. \<open>None\<close> is
  undefined behaviour: a null pointer, or bytes read that were never written.
\<close>

unbundle bit_operations_syntax

section \<open>The kernel\<close>

datatype spi_setting = SPI_MODE | SPI_MAX_SPEED_HZ | SPI_LSB_FIRST | SPI_BITS_PER_WORD

record spi_transfer =
  txBuf :: "u8 list option"
  rxWanted :: bool
  tr_len :: u32
  tr_speedHz :: u32
  tr_bitsPerWord :: u8
  releaseCsAfter :: bool
  delayBeforeReleaseCs :: u16

definition Transfer_new :: "u8 list option \<Rightarrow> bool \<Rightarrow> u32 \<Rightarrow> spi_transfer" where
  "Transfer_new tx rx count = \<lparr>txBuf = tx, rxWanted = rx, tr_len = count, tr_speedHz = 0, tr_bitsPerWord = 0,
     releaseCsAfter = False, delayBeforeReleaseCs = 0\<rparr>"

record 'e spi_os =
  spi_open :: "string \<Rightarrow> u32 \<Rightarrow> 'e \<Rightarrow> int \<times> int \<times> 'e"
  spi_close :: "int \<Rightarrow> 'e \<Rightarrow> int \<times> int \<times> 'e"
  spi_wr :: "int \<Rightarrow> spi_setting \<Rightarrow> u32 \<Rightarrow> 'e \<Rightarrow> int \<times> int \<times> 'e"
  spi_rd :: "int \<Rightarrow> spi_setting \<Rightarrow> 'e \<Rightarrow> int \<times> u32 \<times> int \<times> 'e"
  spi_message :: "int \<Rightarrow> spi_transfer list \<Rightarrow> 'e \<Rightarrow> int \<times> int \<times> u8 list list \<times> 'e"
  spi_strerror :: "int \<Rightarrow> string"
  spi_exists :: "string \<Rightarrow> 'e \<Rightarrow> bool"

section \<open>State\<close>

record spi_settings =
  s_mode :: u8
  s_bitOrder :: bool
  s_bitsPerWord :: u8
  s_speedHz :: u32

definition Settings_new :: "u32 \<Rightarrow> bool \<Rightarrow> u8 \<Rightarrow> u8 \<Rightarrow> spi_settings" where
  "Settings_new clock bitOrder dataMode dataBits =
     \<lparr>s_mode = dataMode, s_bitOrder = bitOrder, s_bitsPerWord = dataBits, s_speedHz = clock\<rparr>"

record spi_info =
  si_bus :: int
  si_cs :: int
  si_path :: string

record spidev = iodevice +
  sp_fd :: int
  sp_settings :: spi_settings
  sp_bus :: spi_info
  tstack :: "spi_transfer list"

definition SpiDev_new :: "spi_info \<Rightarrow> spidev" where
  "SpiDev_new bus = iodevice.extend (iodevice_new\<lparr>isSequential := True\<rparr>) (spidev.fields (- 1) (Settings_new 10000000 True 0 8) bus [])"

section \<open>Settings\<close>

definition spi_write_setting :: "'e spi_os \<Rightarrow> spi_setting \<Rightarrow> u32 \<Rightarrow> spidev \<times> 'e \<Rightarrow> spidev \<times> 'e" where
  "spi_write_setting os setting v = (\<lambda>(d, e). if IoDevice_Private_isOpen d
     then let (ret, errno, e) = spi_wr os (sp_fd d) setting v e
       in (if ret < 0 then IoDevice_setError (spi_strerror os) errno d else d, e)
     else (d, e))"

definition Private_setMode :: "'e spi_os \<Rightarrow> spidev \<times> 'e \<Rightarrow> spidev \<times> 'e" where
  "Private_setMode os s = spi_write_setting os SPI_MODE (ucast (s_mode (sp_settings (fst s)))) s"

definition Private_setSpeedHz :: "'e spi_os \<Rightarrow> spidev \<times> 'e \<Rightarrow> spidev \<times> 'e" where
  "Private_setSpeedHz os s = spi_write_setting os SPI_MAX_SPEED_HZ (s_speedHz (sp_settings (fst s))) s"

definition Private_setBitsPerWord :: "'e spi_os \<Rightarrow> spidev \<times> 'e \<Rightarrow> spidev \<times> 'e" where
  "Private_setBitsPerWord os s = spi_write_setting os SPI_BITS_PER_WORD (ucast (s_bitsPerWord (sp_settings (fst s)))) s"

definition Private_setBitOrder :: "'e spi_os \<Rightarrow> spidev \<times> 'e \<Rightarrow> spidev \<times> 'e" where
  "Private_setBitOrder os s = spi_write_setting os SPI_LSB_FIRST (if s_bitOrder (sp_settings (fst s)) then 0 else 1) s"

definition Private_setSettings :: "'e spi_os \<Rightarrow> spidev \<times> 'e \<Rightarrow> spidev \<times> 'e" where
  "Private_setSettings os s = Private_setBitsPerWord os (Private_setBitOrder os (Private_setSpeedHz os (Private_setMode os s)))"

definition spi_read_setting :: "'e spi_os \<Rightarrow> spi_setting \<Rightarrow> (u32 \<Rightarrow> spi_settings \<Rightarrow> spi_settings) \<Rightarrow> spidev \<times> 'e \<Rightarrow> spidev \<times> 'e" where
  "spi_read_setting os setting upd = (\<lambda>(d, e). if IoDevice_Private_isOpen d
     then let (ret, v, errno, e) = spi_rd os (sp_fd d) setting e
       in (if ret < 0 then IoDevice_setError (spi_strerror os) errno d else d\<lparr>sp_settings := upd v (sp_settings d)\<rparr>, e)
     else (d, e))"

definition Private_getSettings :: "'e spi_os \<Rightarrow> spidev \<times> 'e \<Rightarrow> spidev \<times> 'e" where
  "Private_getSettings os s = (
     let s = spi_read_setting os SPI_MODE (\<lambda>v c. c\<lparr>s_mode := ucast v\<rparr>) s;
       s = spi_read_setting os SPI_MAX_SPEED_HZ (\<lambda>v c. c\<lparr>s_speedHz := v\<rparr>) s;
       s = spi_read_setting os SPI_LSB_FIRST (\<lambda>v c. c\<lparr>s_bitOrder := (v = 0)\<rparr>) s
     in spi_read_setting os SPI_BITS_PER_WORD (\<lambda>v c. c\<lparr>s_bitsPerWord := ucast v\<rparr>) s)"

definition SpiDev_setSettings :: "'e spi_os \<Rightarrow> spi_settings \<Rightarrow> spidev \<times> 'e \<Rightarrow> spidev \<times> 'e" where
  "SpiDev_setSettings os settings = (\<lambda>(d, e). if sp_settings d \<noteq> settings
     then Private_setSettings os (d\<lparr>sp_settings := settings\<rparr>, e) else (d, e))"

definition SpiDev_setMode :: "'e spi_os \<Rightarrow> u8 \<Rightarrow> spidev \<times> 'e \<Rightarrow> spidev \<times> 'e" where
  "SpiDev_setMode os mode = (\<lambda>(d, e). if s_mode (sp_settings d) \<noteq> mode
     then Private_setMode os (d\<lparr>sp_settings := (sp_settings d)\<lparr>s_mode := mode\<rparr>\<rparr>, e) else (d, e))"

definition SpiDev_setSpeedHz :: "'e spi_os \<Rightarrow> u32 \<Rightarrow> spidev \<times> 'e \<Rightarrow> spidev \<times> 'e" where
  "SpiDev_setSpeedHz os speed = (\<lambda>(d, e). if s_speedHz (sp_settings d) \<noteq> speed
     then Private_setSpeedHz os (d\<lparr>sp_settings := (sp_settings d)\<lparr>s_speedHz := speed\<rparr>\<rparr>, e) else (d, e))"

definition SpiDev_setBitsPerWord :: "'e spi_os \<Rightarrow> u8 \<Rightarrow> spidev \<times> 'e \<Rightarrow> spidev \<times> 'e" where
  "SpiDev_setBitsPerWord os n = (\<lambda>(d, e). if s_bitsPerWord (sp_settings d) \<noteq> n
     then Private_setBitsPerWord os (d\<lparr>sp_settings := (sp_settings d)\<lparr>s_bitsPerWord := n\<rparr>\<rparr>, e) else (d, e))"

definition SpiDev_setBitOrder :: "'e spi_os \<Rightarrow> bool \<Rightarrow> spidev \<times> 'e \<Rightarrow> spidev \<times> 'e" where
  "SpiDev_setBitOrder os b = (\<lambda>(d, e). if s_bitOrder (sp_settings d) \<noteq> b
     then Private_setBitOrder os (d\<lparr>sp_settings := (sp_settings d)\<lparr>s_bitOrder := b\<rparr>\<rparr>, e) else (d, e))"

section \<open>Opening, closing and the bus\<close>

definition SpiDev_open :: "'e spi_os \<Rightarrow> u32 \<Rightarrow> spidev \<times> 'e \<Rightarrow> bool \<times> spidev \<times> 'e" where
  "SpiDev_open os mode = (\<lambda>(d, e).
     if \<not> IoDevice_isOpen d then
       let d = d\<lparr>tstack := []\<rparr>;
         (f, errno, e) = spi_open os (si_path (sp_bus d)) (modeToPosixFlags mode) e;
         d = d\<lparr>sp_fd := f\<rparr>
       in if f < 0 then (False, IoDevice_setError (spi_strerror os) errno d, e)
       else let (d, e) = Private_setSettings os (d, e);
         d = snd (IoDevice_open mode d)
       in (IoDevice_isOpen d, d, e)
     else (IoDevice_isOpen d, d, e))"

definition SpiDev_close :: "'e spi_os \<Rightarrow> spidev \<times> 'e \<Rightarrow> spidev \<times> 'e" where
  "SpiDev_close os = (\<lambda>(d, e). if IoDevice_isOpen d
     then let (ret, errno, e) = spi_close os (sp_fd d) e;
       d = (if ret \<noteq> 0 then IoDevice_setError (spi_strerror os) errno d else d)
       in (IoDevice_close (d\<lparr>sp_fd := - 1\<rparr>), e)
     else (d, e))"

definition spi_reopen :: "'e spi_os \<Rightarrow> spidev \<times> 'e \<Rightarrow> spidev \<times> 'e" where
  "spi_reopen os = (\<lambda>(d, e). if IoDevice_isOpen d
     then let m = openMode d in snd (SpiDev_open os m (SpiDev_close os (d, e))) else (d, e))"

definition SpiDev_setBus :: "'e spi_os \<Rightarrow> spi_info \<Rightarrow> spidev \<times> 'e \<Rightarrow> (spidev \<times> 'e) res" where
  "SpiDev_setBus os info = (\<lambda>(d, e). if si_path (sp_bus d) \<noteq> si_path info
     then if \<not> spi_exists os (si_path info) e then Inl (System_error 2)
       else Inr (spi_reopen os (d\<lparr>sp_bus := info\<rparr>, e))
     else Inr (d, e))"

text \<open>The path of a bus is made from the format of the board; the search for the numbers of a path goes over all of them.\<close>

definition SpiInfo_setId :: "(int \<Rightarrow> int \<Rightarrow> string) \<Rightarrow> int \<Rightarrow> int \<Rightarrow> spi_info \<Rightarrow> spi_info" where
  "SpiInfo_setId busPath b c info = info\<lparr>si_bus := b, si_cs := c, si_path := busPath b c\<rparr>"

definition SpiInfo_setPath :: "(int \<Rightarrow> int \<Rightarrow> string) \<Rightarrow> string \<Rightarrow> spi_info \<Rightarrow> bool \<times> spi_info" where
  "SpiInfo_setPath busPath p info = (
     case find (\<lambda>(c, b). busPath b c = p) [(c, b). c \<leftarrow> map int [0..<32], b \<leftarrow> map int [0..<32]] of
       None \<Rightarrow> (False, info) | Some (c, b) \<Rightarrow> (True, SpiInfo_setId busPath b c info))"

definition SpiDev_setBusId :: "'e spi_os \<Rightarrow> (int \<Rightarrow> int \<Rightarrow> string) \<Rightarrow> int \<Rightarrow> int \<Rightarrow> spidev \<times> 'e \<Rightarrow> spidev \<times> 'e" where
  "SpiDev_setBusId os busPath b c = (\<lambda>(d, e). if si_bus (sp_bus d) \<noteq> b \<or> si_cs (sp_bus d) \<noteq> c
     then spi_reopen os (d\<lparr>sp_bus := SpiInfo_setId busPath b c (sp_bus d)\<rparr>, e) else (d, e))"

definition SpiDev_setBusPath :: "'e spi_os \<Rightarrow> (int \<Rightarrow> int \<Rightarrow> string) \<Rightarrow> string \<Rightarrow> spidev \<times> 'e \<Rightarrow> spidev \<times> 'e" where
  "SpiDev_setBusPath os busPath path = (\<lambda>(d, e). if si_path (sp_bus d) \<noteq> path
     then spi_reopen os (d\<lparr>sp_bus := snd (SpiInfo_setPath busPath path (sp_bus d))\<rparr>, e) else (d, e))"

section \<open>Transfers\<close>

definition SpiDev_pushTransfer :: "spi_transfer \<Rightarrow> spidev \<Rightarrow> spidev" where
  "SpiDev_pushTransfer t d = d\<lparr>tstack := tstack d @ [t]\<rparr>"

definition SpiDev_clear :: "spidev \<Rightarrow> spidev" where
  "SpiDev_clear d = d\<lparr>tstack := []\<rparr>"

text \<open>The result has the bytes received, one list per transfer.\<close>

definition SpiDev_transfer :: "'e spi_os \<Rightarrow> spidev \<times> 'e \<Rightarrow> int \<times> u8 list list \<times> spidev \<times> 'e" where
  "SpiDev_transfer os = (\<lambda>(d, e). let d = IoDevice_clearError d in
     if IoDevice_isOpen d then
       if tstack d \<noteq> [] then
         let (ret, errno, rx, e) = spi_message os (sp_fd d) (tstack d) e;
           d = (if ret < 0 then IoDevice_setError (spi_strerror os) errno d else d)
         in (ret, rx, d\<lparr>tstack := []\<rparr>, e)
       else (0, [], d, e)
     else (- 1, [], IoDevice_setError_code (spi_strerror os) 107 d, e))"

definition SpiDev_transfer_buf :: "'e spi_os \<Rightarrow> u8 list option \<Rightarrow> bool \<Rightarrow> u32 \<Rightarrow> spidev \<times> 'e \<Rightarrow> int \<times> u8 list list \<times> spidev \<times> 'e" where
  "SpiDev_transfer_buf os tx rx len = (\<lambda>(d, e). SpiDev_transfer os (SpiDev_pushTransfer (Transfer_new tx rx len) d, e))"

definition SpiDev_read :: "'e spi_os \<Rightarrow> u32 \<Rightarrow> spidev \<times> 'e \<Rightarrow> int \<times> u8 list list \<times> spidev \<times> 'e" where
  "SpiDev_read os len s = SpiDev_transfer_buf os None True len s"

definition SpiDev_write :: "'e spi_os \<Rightarrow> u8 list \<Rightarrow> spidev \<times> 'e \<Rightarrow> int \<times> u8 list list \<times> spidev \<times> 'e" where
  "SpiDev_write os buffer s = SpiDev_transfer_buf os (Some buffer) False (of_nat (length buffer)) s"

section \<open>Chip selects\<close>

record 'p spi_cs =
  cs_id :: int
  cs_pin :: "'p option"
  cs_mode :: pin_mode
  cs_driverControl :: bool
  cs_activeLevel :: bool

definition with_pin :: "('p \<Rightarrow> 'p res) \<Rightarrow> 'p spi_cs \<Rightarrow> 'p spi_cs res option" where
  "with_pin f cs = map_option (\<lambda>p. map_sum id (\<lambda>p. cs\<lparr>cs_pin := Some p\<rparr>) (f p)) (cs_pin cs)"

definition Cs_set :: "(bool \<Rightarrow> 'p \<Rightarrow> 'p res) \<Rightarrow> bool \<Rightarrow> 'p spi_cs \<Rightarrow> 'p spi_cs res option" where
  "Cs_set pinWrite v cs = (if \<not> cs_driverControl cs then with_pin (pinWrite (v \<noteq> cs_activeLevel cs)) cs else Some (Inr cs))"

definition Cs_get :: "('p \<Rightarrow> bool res) \<Rightarrow> 'p spi_cs \<Rightarrow> bool res option" where
  "Cs_get pinRead cs = (if \<not> cs_driverControl cs
     then map_option (\<lambda>p. map_sum id (\<lambda>b. b \<noteq> cs_activeLevel cs) (pinRead p)) (cs_pin cs) else Some (Inr False))"

definition Cs_setDriverControl :: "(bool \<Rightarrow> 'p \<Rightarrow> 'p res) \<Rightarrow> (pin_mode \<Rightarrow> 'p \<Rightarrow> 'p res) \<Rightarrow> bool \<Rightarrow> bool \<Rightarrow> 'p spi_cs \<Rightarrow> 'p spi_cs res option" where
  "Cs_setDriverControl pinWrite pinSetMode enable al cs = (
     if enable \<noteq> cs_driverControl cs then
       if enable then map_option (map_sum id (\<lambda>cs. cs\<lparr>cs_driverControl := True\<rparr>)) (with_pin (pinSetMode (cs_mode cs)) cs)
       else if cs_pin cs \<noteq> None then
         case with_pin (pinSetMode ModeOutput) (cs\<lparr>cs_activeLevel := al, cs_driverControl := False\<rparr>) of
           None \<Rightarrow> None | Some (Inl x) \<Rightarrow> Some (Inl x) | Some (Inr cs) \<Rightarrow> Cs_set pinWrite False cs
       else Some (Inr cs)
     else Some (Inr cs))"

section \<open>The Arduino class\<close>

definition SPISettings_new :: "u32 \<Rightarrow> bool \<Rightarrow> u8 \<Rightarrow> spi_settings" where
  "SPISettings_new clock bitOrder dataMode = Settings_new clock bitOrder (dataMode OR 0x40) 8"

definition SPI_begin_bus :: "'e spi_os \<Rightarrow> (int \<Rightarrow> int \<Rightarrow> string) \<Rightarrow> int \<Rightarrow> int \<Rightarrow> spidev \<times> 'e \<Rightarrow> (spidev \<times> 'e) res" where
  "SPI_begin_bus os busPath b c s = (if \<not> IoDevice_isOpen (fst s) then
     let s = SpiDev_setBusId os busPath b c s;
       s = SpiDev_setSettings os (SPISettings_new 4000000 True 0) s;
       (ok, s) = SpiDev_open os ReadWrite s
     in if ok then Inr s else Inl (System_error (io_error (fst s)))
   else Inr s)"

definition SPI_begin :: "'e spi_os \<Rightarrow> spi_info \<Rightarrow> spi_info \<Rightarrow> spidev \<times> 'e \<Rightarrow> (spidev \<times> 'e) res" where
  "SPI_begin os ownDefault systemDefault s = (if \<not> IoDevice_isOpen (fst s) then
     rbind (SpiDev_setBus os (if spi_exists os (si_path ownDefault) (snd s) then ownDefault else systemDefault) s) (\<lambda>s.
       let s = SpiDev_setSettings os (SPISettings_new 4000000 True 0) s;
         (ok, s) = SpiDev_open os ReadWrite s
       in if ok then Inr s else Inl (System_error (io_error (fst s))))
   else Inr s)"

text \<open>The transfer of the call is the last of the stack. \<open>received\<close> is what it got, nothing when the kernel filled nothing.\<close>

definition received :: "u8 list list \<Rightarrow> u8 list" where
  "received rx = (if rx = [] then [] else last rx)"

definition SPI_transfer_byte :: "'e spi_os \<Rightarrow> u8 \<Rightarrow> spidev \<times> 'e \<Rightarrow> u8 \<times> spidev \<times> 'e" where
  "SPI_transfer_byte os x s = (let (ret, rx, s) = SpiDev_transfer_buf os (Some [x]) True 1 s
     in (case received rx of [y] \<Rightarrow> y | _ \<Rightarrow> 0, s))"

text \<open>The sixteen bits go out in the order of the bits of the bus; what the transfer does not fill is uninitialised.\<close>

definition SPI_transfer16 :: "'e spi_os \<Rightarrow> u16 \<Rightarrow> spidev \<times> 'e \<Rightarrow> (u16 \<times> spidev \<times> 'e) option" where
  "SPI_transfer16 os x s = (
     let msbFirst = s_bitOrder (sp_settings (fst s));
       hi = ucast (drop_bit 8 x); lo = ucast (x AND 0xFF);
       inbuf = (if msbFirst then [hi, lo] else [lo, hi]);
       (ret, rx, s) = SpiDev_transfer_buf os (Some inbuf) True 2 s
     in case received rx of [a, b] \<Rightarrow>
         (let (m, l) = (if msbFirst then (a, b) else (b, a)) in Some (push_bit 8 (ucast m) OR ucast l, s))
       | _ \<Rightarrow> None)"

text \<open>The buffer is both sent and overwritten.\<close>

definition SPI_transfer :: "'e spi_os \<Rightarrow> u8 list \<Rightarrow> spidev \<times> 'e \<Rightarrow> u8 list \<times> spidev \<times> 'e" where
  "SPI_transfer os buf s = (let (ret, rx, s) = SpiDev_transfer_buf os (Some buf) True (of_nat (length buf)) s
     in (if length (received rx) = length buf then received rx else buf, s))"

definition SPI_setBitOrder :: "'e spi_os \<Rightarrow> u8 \<Rightarrow> spidev \<times> 'e \<Rightarrow> spidev \<times> 'e" where
  "SPI_setBitOrder os b s = SpiDev_setBitOrder os (b \<noteq> 0) s"

definition SPI_setDataMode :: "'e spi_os \<Rightarrow> u8 \<Rightarrow> spidev \<times> 'e \<Rightarrow> spidev \<times> 'e" where
  "SPI_setDataMode os m s = SpiDev_setMode os (m OR 0x40) s"

text \<open>The division is one of doubles, whose result is infinite for 0; no integer has that value.\<close>

definition SPI_setClockDivider :: "'e spi_os \<Rightarrow> u8 \<Rightarrow> spidev \<times> 'e \<Rightarrow> (spidev \<times> 'e) option" where
  "SPI_setClockDivider os clockDiv s = (if clockDiv = 0 then None
     else Some (SpiDev_setSpeedHz os (of_nat (16000000 div unat clockDiv)) s))"

text \<open>The class adds the default bus and the mutex of the pending transaction.\<close>

record spiclass =
  sc_dev :: spidev
  defaultBus :: spi_info
  pendingTransaction :: bool

definition SPI_setDefaultBus :: "'e spi_os \<Rightarrow> (int \<Rightarrow> int \<Rightarrow> string) \<Rightarrow> int \<Rightarrow> int \<Rightarrow> spiclass \<times> 'e \<Rightarrow> (spiclass \<times> 'e) res" where
  "SPI_setDefaultBus os busPath b c = (\<lambda>(k, e). let info = \<lparr>si_bus = b, si_cs = c, si_path = busPath b c\<rparr> in
     if \<not> IoDevice_isOpen (sc_dev k)
     then if spi_exists os (si_path info) e then Inr (k\<lparr>defaultBus := info\<rparr>, e) else Inl (System_error 2)
     else Inl (System_error 16))"

definition SPI_setDefaultBusPath :: "(int \<Rightarrow> int \<Rightarrow> string) \<Rightarrow> string \<Rightarrow> spi_info \<Rightarrow> spiclass \<Rightarrow> spiclass res" where
  "SPI_setDefaultBusPath busPath path blank k = (
     case SpiInfo_setPath busPath path blank of
       (True, info) \<Rightarrow> if \<not> IoDevice_isOpen (sc_dev k) then Inr (k\<lparr>defaultBus := info\<rparr>) else Inl (System_error 16)
     | (False, _) \<Rightarrow> Inl (System_error 2))"

text \<open>The first component tells whether the lock was taken at once, or the caller is left waiting for it.\<close>

definition SPI_beginTransaction :: "'e spi_os \<Rightarrow> spi_settings \<Rightarrow> spiclass \<times> 'e \<Rightarrow> bool \<times> spiclass \<times> 'e" where
  "SPI_beginTransaction os c = (\<lambda>(k, e).
     let (d, e) = SpiDev_setSettings os c (sc_dev k, e); k = k\<lparr>sc_dev := d\<rparr>
     in (\<not> pendingTransaction k, k\<lparr>pendingTransaction := True\<rparr>, e))"

definition SPI_endTransaction :: "spiclass \<Rightarrow> spiclass" where
  "SPI_endTransaction k = k\<lparr>pendingTransaction := False\<rparr>"

section \<open>What reaches the kernel\<close>

text \<open>The kernel keeps the settings of an open file: a setting written reads back, and is kept by everything else.\<close>

locale spi_kernel =
  fixes os :: "'e spi_os" and setting_of :: "int \<Rightarrow> spi_setting \<Rightarrow> 'e \<Rightarrow> u32"
  assumes wr: "spi_wr os f st v e = (ret, errno, e') \<Longrightarrow> 0 \<le> ret \<Longrightarrow>
      setting_of g st' e' = (if g = f \<and> st' = st then v else setting_of g st' e)"
    and wr_fail: "spi_wr os f st v e = (ret, errno, e') \<Longrightarrow> ret < 0 \<Longrightarrow> setting_of g st' e' = setting_of g st' e"
    and rd: "spi_rd os f st e = (ret, v, errno, e') \<Longrightarrow> 0 \<le> ret \<Longrightarrow> v = setting_of f st e \<and> (\<forall>g st'. setting_of g st' e' = setting_of g st' e)"
    and message: "spi_message os f ts e = (ret, errno, rx, e') \<Longrightarrow> setting_of g st e' = setting_of g st e"

text \<open>The settings as the kernel would hold them.\<close>

fun wanted :: "spi_settings \<Rightarrow> spi_setting \<Rightarrow> u32" where
  "wanted c SPI_MODE = ucast (s_mode c)"
| "wanted c SPI_MAX_SPEED_HZ = s_speedHz c"
| "wanted c SPI_LSB_FIRST = (if s_bitOrder c then 0 else 1)"
| "wanted c SPI_BITS_PER_WORD = ucast (s_bitsPerWord c)"

text \<open>\<open>open\<close> sends no setting to the kernel: they are written before the device is marked as open, and the function that
  writes them does nothing on a closed device. The kernel is left as its own \<open>open\<close> leaves it.\<close>

lemma spi_open_sends_no_settings:
  assumes "\<not> IoDevice_isOpen d" "spi_open os (si_path (sp_bus d)) (modeToPosixFlags m) e = (f, errno, e')" "0 \<le> f" "m \<noteq> NotOpen"
  shows "\<exists>d'. SpiDev_open os m (d, e) = (True, d', e') \<and> IoDevice_isOpen d' \<and> sp_settings d' = sp_settings d \<and> sp_fd d' = f"
  using assms by (auto simp: SpiDev_open_def Private_setSettings_def Private_setMode_def Private_setSpeedHz_def Private_setBitsPerWord_def
    Private_setBitOrder_def spi_write_setting_def IoDevice_isOpen_def IoDevice_Private_isOpen_def IoDevice_open_def IoDevice_Private_open_def
    IoDevice_clearError_def Let_def split_beta)

text \<open>C25. \<open>SPI.begin\<close> asks for 4 MHz, mode 0 and no chip select, and remembers these settings, but none of them reaches the kernel,
  whose state is the one its \<open>open\<close> leaves; asking for the same settings again, as \<open>beginTransaction\<close> does, sends nothing
  either, because they equal the remembered ones.\<close>

theorem spi_begin_settings_not_sent:
  assumes "\<not> IoDevice_isOpen d" "spi_open os (si_path (sp_bus (fst (SpiDev_setBusId os busPath b c (d, e))))) (modeToPosixFlags ReadWrite) e = (f, errno, e')" "0 \<le> f"
  shows "\<exists>d'. SPI_begin_bus os busPath b c (d, e) = Inr (d', e') \<and> sp_settings d' = SPISettings_new 4000000 True 0 \<and>
    SpiDev_setSettings os (SPISettings_new 4000000 True 0) (d', e') = (d', e')"
proof -
  define d1 where "d1 = fst (SpiDev_setBusId os busPath b c (d, e))"
  have 1: "SpiDev_setBusId os busPath b c (d, e) = (d1, e)" "\<not> IoDevice_isOpen d1"
    using assms(1) by (auto simp: d1_def SpiDev_setBusId_def spi_reopen_def IoDevice_isOpen_def IoDevice_Private_isOpen_def)
  define d2 where "d2 = d1\<lparr>sp_settings := SPISettings_new 4000000 True 0\<rparr>"
  have 2: "SpiDev_setSettings os (SPISettings_new 4000000 True 0) (d1, e) = (d2, e)" "\<not> IoDevice_isOpen d2" "sp_bus d2 = sp_bus d1"
    using 1(2) by (auto simp: d2_def SpiDev_setSettings_def Private_setSettings_def Private_setMode_def Private_setSpeedHz_def
      Private_setBitsPerWord_def Private_setBitOrder_def spi_write_setting_def IoDevice_isOpen_def IoDevice_Private_isOpen_def)
  have "(ReadWrite :: u32) \<noteq> NotOpen" by simp
  then obtain d' where d': "SpiDev_open os ReadWrite (d2, e) = (True, d', e')" "sp_settings d' = sp_settings d2"
    using spi_open_sends_no_settings [OF 2(2), of os ReadWrite e f errno e'] assms(2,3) 2(3) d1_def by auto
  have s: "sp_settings d' = SPISettings_new 4000000 True 0" using d'(2) by (simp add: d2_def)
  have "SPI_begin_bus os busPath b c (d, e) = Inr (d', e')"
    using assms(1) 1(1) 2(1) d'(1) by (simp add: SPI_begin_bus_def Let_def)
  then show ?thesis using s by (simp add: SpiDev_setSettings_def)
qed

text \<open>The settings asked for are the remembered ones, whether or not they are sent and whether or not the kernel takes them.\<close>

lemma spi_write_setting_remembered: "sp_settings (fst (spi_write_setting os st v s)) = sp_settings (fst s)"
  by (auto simp: spi_write_setting_def IoDevice_setError_def Let_def split: prod.splits)

lemma setSettings_remembered:
  assumes "SpiDev_setSettings os c (d, e) = (d', e')"
  shows "sp_settings d' = c"
proof -
  have "sp_settings (fst (SpiDev_setSettings os c (d, e))) = c"
    by (simp add: SpiDev_setSettings_def Private_setSettings_def Private_setMode_def Private_setSpeedHz_def Private_setBitsPerWord_def
      Private_setBitOrder_def spi_write_setting_remembered)
  then show ?thesis by (simp add: assms)
qed

text \<open>On an open device the settings do reach the kernel, when they are not the remembered ones.\<close>

context spi_kernel
begin

lemma write_setting_sent:
  assumes opened: "IoDevice_Private_isOpen d" and ok: "\<And>st v e. 0 \<le> fst (spi_wr os (sp_fd d) st v e)"
  shows "\<exists>e'. spi_write_setting os st v (d, e) = (d, e') \<and>
    (\<forall>g st'. setting_of g st' e' = (if g = sp_fd d \<and> st' = st then v else setting_of g st' e))"
proof -
  obtain ret errno e' where w: "spi_wr os (sp_fd d) st v e = (ret, errno, e')" by (metis prod_cases3)
  have "0 \<le> ret" using ok [of st v e] w by simp
  then show ?thesis using opened w wr [OF w] by (auto simp: spi_write_setting_def)
qed

lemma setSettings_sent:
  assumes opened: "IoDevice_Private_isOpen d" and ok: "\<And>st v e. 0 \<le> fst (spi_wr os (sp_fd d) st v e)"
  shows "\<exists>e'. Private_setSettings os (d, e) = (d, e') \<and> (\<forall>st. setting_of (sp_fd d) st e' = wanted (sp_settings d) st)"
proof -
  let ?c = "sp_settings d"
  obtain e1 where 1: "spi_write_setting os SPI_MODE (ucast (s_mode ?c)) (d, e) = (d, e1)"
    "\<forall>g st. setting_of g st e1 = (if g = sp_fd d \<and> st = SPI_MODE then ucast (s_mode ?c) else setting_of g st e)"
    using write_setting_sent [OF opened ok] by blast
  obtain e2 where 2: "spi_write_setting os SPI_MAX_SPEED_HZ (s_speedHz ?c) (d, e1) = (d, e2)"
    "\<forall>g st. setting_of g st e2 = (if g = sp_fd d \<and> st = SPI_MAX_SPEED_HZ then s_speedHz ?c else setting_of g st e1)"
    using write_setting_sent [OF opened ok] by blast
  obtain e3 where 3: "spi_write_setting os SPI_LSB_FIRST (if s_bitOrder ?c then 0 else 1) (d, e2) = (d, e3)"
    "\<forall>g st. setting_of g st e3 = (if g = sp_fd d \<and> st = SPI_LSB_FIRST then if s_bitOrder ?c then 0 else 1 else setting_of g st e2)"
    using write_setting_sent [OF opened ok] by blast
  obtain e4 where 4: "spi_write_setting os SPI_BITS_PER_WORD (ucast (s_bitsPerWord ?c)) (d, e3) = (d, e4)"
    "\<forall>g st. setting_of g st e4 = (if g = sp_fd d \<and> st = SPI_BITS_PER_WORD then ucast (s_bitsPerWord ?c) else setting_of g st e3)"
    using write_setting_sent [OF opened ok] by blast
  have "setting_of (sp_fd d) st e4 = wanted ?c st" for st
    using 1(2) 2(2) 3(2) 4(2) by (cases st) simp_all
  moreover have "Private_setSettings os (d, e) = (d, e4)"
    using 1(1) 2(1) 3(1) 4(1) by (simp add: Private_setSettings_def Private_setMode_def Private_setSpeedHz_def
      Private_setBitsPerWord_def Private_setBitOrder_def)
  ultimately show ?thesis by blast
qed

end

text \<open>A simulated kernel: the settings of every file, and a slave that answers with a function of the bytes it gets.\<close>

record spi_sim_state =
  ss_settings :: "int \<Rightarrow> spi_setting \<Rightarrow> u32"

definition spi_sim :: "(u8 list \<Rightarrow> u8 list) \<Rightarrow> spi_sim_state spi_os" where
  "spi_sim slave = \<lparr>spi_open = (\<lambda>p fl e. (3, 0, e)), spi_close = (\<lambda>f e. (0, 0, e)),
     spi_wr = (\<lambda>f st v e. (0, 0, e\<lparr>ss_settings := (ss_settings e)(f := (ss_settings e f)(st := v))\<rparr>)),
     spi_rd = (\<lambda>f st e. (0, ss_settings e f st, 0, e)),
     spi_message = (\<lambda>f ts e. (0, 0, map (\<lambda>t. case txBuf t of Some bs \<Rightarrow> slave bs | None \<Rightarrow> slave (replicate (unat (tr_len t)) 0)) ts, e)),
     spi_strerror = (\<lambda>n. []), spi_exists = (\<lambda>p e. True)\<rparr>"

interpretation ssim: spi_kernel "spi_sim slave" "\<lambda>f st e. ss_settings e f st"
  by unfold_locales (auto simp: spi_sim_def)

definition spi_demo :: spidev where
  "spi_demo = SpiDev_new \<lparr>si_bus = 0, si_cs = 0, si_path = ''/dev/spidev0.0''\<rparr>"

theorem spi_begin_settings_not_sent_witness:
  "\<exists>d'. SPI_begin_bus (spi_sim id) (\<lambda>b c. ''/dev/spidev0.0'') 0 0 (spi_demo, \<lparr>ss_settings = (\<lambda>f st. 7)\<rparr>) = Inr (d', \<lparr>ss_settings = (\<lambda>f st. 7)\<rparr>) \<and>
     sp_settings d' = SPISettings_new 4000000 True 0"
proof -
  have "\<not> IoDevice_isOpen spi_demo"
    by (simp add: spi_demo_def SpiDev_new_def spidev.defs iodevice.defs iodevice_new_def IoDevice_isOpen_def IoDevice_Private_isOpen_def)
  from spi_begin_settings_not_sent [OF this, of "spi_sim id" "\<lambda>b c. ''/dev/spidev0.0''" 0 0 "\<lparr>ss_settings = (\<lambda>f st. 7)\<rparr>" 3 0 "\<lparr>ss_settings = (\<lambda>f st. 7)\<rparr>"]
  show ?thesis by (auto simp: spi_sim_def)
qed


definition spi_demo_open :: spidev where
  "spi_demo_open = spi_demo\<lparr>openMode := ReadWrite, sp_fd := 3\<rparr>"

lemma spi_demo_open_is: "IoDevice_isOpen spi_demo_open" "sp_fd spi_demo_open = 3" "sp_settings spi_demo_open = Settings_new 10000000 True 0 8" "tstack spi_demo_open = []"
  by (simp_all add: spi_demo_open_def spi_demo_def SpiDev_new_def spidev.defs iodevice.defs iodevice_new_def IoDevice_isOpen_def IoDevice_Private_isOpen_def)


text \<open>The two bytes of a word come back together, whatever their order on the bus.\<close>

lemma word16_bytes: "push_bit 8 (ucast (ucast (drop_bit 8 x) :: u8)) OR ucast (ucast (x AND 0xFF) :: u8) = (x :: u16)"
proof (rule bit_word_eqI)
  fix n :: nat assume "n < LENGTH(16)"
  then consider "n < 8" | "8 \<le> n" "n < 16" by fastforce
  moreover have ff: "(0xFF :: u16) = mask 8" by (simp add: mask_eq_exp_minus_1)
  ultimately show "bit (push_bit 8 (ucast (ucast (drop_bit 8 x) :: u8)) OR ucast (ucast (x AND 0xFF) :: u8) :: u16) n = bit x n"
    unfolding ff by cases (auto simp: bit_simps)
qed



text \<open>\<open>beginTransaction\<close> gives the bus its settings before it waits for the lock: a client that is left waiting because
  another one has its transaction open has already replaced the settings of that transaction.\<close>

lemma spi_beginTransaction_replaces_settings:
  assumes "SPI_beginTransaction os a (k0, e0) = (True, k1, e1)" "SPI_beginTransaction os b (k1, e1) = (got, k2, e2)"
  shows "\<not> got \<and> pendingTransaction k2 \<and> sp_settings (sc_dev k2) = b"
  using assms by (auto simp: SPI_beginTransaction_def Let_def setSettings_remembered split: prod.splits)

lemma spi_beginTransaction_replaces_settings_witness:
  "\<exists>k1 e1 k2 e2. SPI_beginTransaction (spi_sim id) (SPISettings_new 1000000 True 0) (\<lparr>sc_dev = spi_demo_open, defaultBus = sp_bus spi_demo,
      pendingTransaction = False\<rparr>, \<lparr>ss_settings = (\<lambda>f st. 7)\<rparr>) = (True, k1, e1) \<and>
    SPI_beginTransaction (spi_sim id) (SPISettings_new 8000000 False 3) (k1, e1) = (False, k2, e2) \<and>
    sp_settings (sc_dev k2) = SPISettings_new 8000000 False 3"
proof -
  let ?k = "\<lparr>sc_dev = spi_demo_open, defaultBus = sp_bus spi_demo, pendingTransaction = False\<rparr>" and ?e = "\<lparr>ss_settings = (\<lambda>f st. 7)\<rparr>"
  obtain g k1 e1 where 1: "SPI_beginTransaction (spi_sim id) (SPISettings_new 1000000 True 0) (?k, ?e) = (g, k1, e1)" by (metis prod_cases3)
  then have g: "g" by (auto simp: SPI_beginTransaction_def Let_def split: prod.splits)
  obtain g' k2 e2 where 2: "SPI_beginTransaction (spi_sim id) (SPISettings_new 8000000 False 3) (k1, e1) = (g', k2, e2)" by (metis prod_cases3)
  show ?thesis using spi_beginTransaction_replaces_settings [of "spi_sim id" _ ?k ?e k1 e1, OF _ 2] 1 2 g by auto
qed

end
