(* ===== verification/Options.thy ===== *)
theory Options
  imports Strings
begin

text \<open>
  The option parser of the command line (\<open>include/piduino/popl.h\<close>), which the \<open>main\<close> of every Arduino program uses.

  The class templates \<open>Value<T>\<close> and \<open>Implicit<T>\<close> are modelled for \<open>std::string\<close>, \<open>int\<close> and \<open>bool\<close>; \<open>ty\<close> is the
  template argument and a \<open>val\<close> a value of one of them. An option is one record for the whole hierarchy, with its class
  as a field through which the virtual methods dispatch. Options are shared pointers in a vector of which nothing is
  removed: an option is known by its index there. The variable that an option assigns to belongs to the option.

  A method that throws leaves its object as it is at that point, so that the outcome comes beside the new state.
  \<open>Undefined\<close> is the dereference of a null pointer.
\<close>

section \<open>Options\<close>

datatype argument = Arg_no | Arg_required | Arg_optional

datatype attribute = Inactive | Hidden | Required | Optional | Advanced | Expert

datatype option_name = Unspecified | Short_name | Long_name

datatype option_error = Missing_argument | Invalid_value | Too_many_arguments | Missing_option

text \<open>\<open>invalid_option\<close> with its error, the kind of name used and the value; the message is made of these.\<close>

datatype outcome = Returned | Invalid_option option_error option_name string | Undefined

datatype ty = TString | TInt | TBool

datatype val = VString string | VInt int | VBool bool

datatype opt_class = CValue ty | CImplicit ty | CSwitch

record opt =
  short_n :: string
  long_n :: string
  descr :: string
  attrib :: attribute
  opt_class :: opt_class
  dflt :: "val option"
  assigned :: "val option"
  vals :: "val list"

text \<open>The enumeration \<open>Attribute\<close> is ordered by its numbers.\<close>

fun attribute_num :: "attribute \<Rightarrow> nat" where
  "attribute_num Inactive = 0" | "attribute_num Hidden = 1" | "attribute_num Required = 2"
| "attribute_num Optional = 3" | "attribute_num Advanced = 4" | "attribute_num Expert = 5"

definition Option_new :: "opt_class \<Rightarrow> string \<Rightarrow> string \<Rightarrow> string \<Rightarrow> opt res" where
  "Option_new c sn ln desc = (if length sn > 1 then Inl Invalid_argument
     else if sn = [] \<and> ln = [] then Inl Invalid_argument
     else Inr \<lparr>short_n = sn, long_n = ln, descr = desc, attrib = Optional, opt_class = c,
       dflt = None, assigned = None, vals = []\<rparr>)"

definition short_name :: "opt \<Rightarrow> char" where
  "short_name o' = (if short_n o' \<noteq> [] then hd (short_n o') else CHR 0x00)"

text \<open>The name of an option in messages, with its hyphens.\<close>

definition Option_name :: "option_name \<Rightarrow> bool \<Rightarrow> opt \<Rightarrow> string" where
  "Option_name what hyphen o' = (case what of
     Short_name \<Rightarrow> if short_n o' = [] then [] else (if hyphen then ''-'' else []) @ short_n o'
   | Long_name \<Rightarrow> if long_n o' = [] then [] else (if hyphen then ''--'' else []) @ long_n o'
   | Unspecified \<Rightarrow> [])"

section \<open>Values\<close>

definition is_set :: "opt \<Rightarrow> bool" where "is_set o' \<longleftrightarrow> vals o' \<noteq> []"

definition Value_value :: "nat \<Rightarrow> opt \<Rightarrow> val res" where
  "Value_value idx o' = (if \<not> is_set o' \<and> dflt o' \<noteq> None then Inr (the (dflt o'))
     else if \<not> is_set o' \<or> idx \<ge> length (vals o') then Inl Out_of_range else Inr (vals o' ! idx))"

definition update_reference :: "opt \<Rightarrow> opt" where
  "update_reference o' = (if assigned o' \<noteq> None \<and> (is_set o' \<or> dflt o' \<noteq> None)
     then case Value_value 0 o' of Inr v \<Rightarrow> o'\<lparr>assigned := Some v\<rparr> | Inl _ \<Rightarrow> o' else o')"

definition add_value :: "val \<Rightarrow> opt \<Rightarrow> opt" where
  "add_value v o' = update_reference (o'\<lparr>vals := vals o' @ [v]\<rparr>)"

definition Value_clear :: "opt \<Rightarrow> opt" where
  "Value_clear o' = update_reference (o'\<lparr>vals := []\<rparr>)"

definition Value_set_value :: "val \<Rightarrow> opt \<Rightarrow> opt" where
  "Value_set_value v o' = add_value v (Value_clear o')"

definition set_default :: "val \<Rightarrow> opt \<Rightarrow> opt" where
  "set_default v o' = update_reference (o'\<lparr>dflt := Some v\<rparr>)"

definition Value_assign_to :: "val option \<Rightarrow> opt \<Rightarrow> opt" where
  "Value_assign_to var o' = update_reference (o'\<lparr>assigned := var\<rparr>)"

definition Value_get_default :: "opt \<Rightarrow> val res" where
  "Value_get_default o' = (case dflt o' of None \<Rightarrow> Inl Runtime_error | Some v \<Rightarrow> Inr v)"

definition Value_new :: "opt_class \<Rightarrow> string \<Rightarrow> string \<Rightarrow> string \<Rightarrow> val \<Rightarrow> val option \<Rightarrow> opt res" where
  "Value_new c sn ln desc def var = map_sum id (\<lambda>o'. set_default def (o'\<lparr>assigned := var\<rparr>)) (Option_new c sn ln desc)"

definition Implicit_new :: "ty \<Rightarrow> string \<Rightarrow> string \<Rightarrow> string \<Rightarrow> val \<Rightarrow> val option \<Rightarrow> opt res" where
  "Implicit_new t sn ln desc imp var = Value_new (CImplicit t) sn ln desc imp var"

definition Switch_new :: "string \<Rightarrow> string \<Rightarrow> string \<Rightarrow> val option \<Rightarrow> opt res" where
  "Switch_new sn ln desc var = Value_new CSwitch sn ln desc (VBool False) var"

definition argument_type :: "opt \<Rightarrow> argument" where
  "argument_type o' = (case opt_class o' of CValue _ \<Rightarrow> Arg_required | CImplicit _ \<Rightarrow> Arg_optional | CSwitch \<Rightarrow> Arg_no)"

section \<open>Parsing a value\<close>

text \<open>\<open>is >> v\<close> for the whole numbers: white space, a sign and the longest run of digits; nothing is read when there is
  no digit or the number does not fit. Booleans are read as the numbers 0 and 1.\<close>

definition extract_number :: "string \<Rightarrow> (int \<times> string) option" where
  "extract_number s = (
     let s = dropWhile isspace s;
       neg = (s \<noteq> [] \<and> hd s = CHR ''-'');
       s = (if s \<noteq> [] \<and> (hd s = CHR ''-'' \<or> hd s = CHR ''+'') then tl s else s);
       ds = takeWhile isdigit s
     in if ds = [] then None else Some (if neg then - digits_value ds else digits_value ds, dropWhile isdigit s))"

definition extract_val :: "ty \<Rightarrow> string \<Rightarrow> (val \<times> string) option" where
  "extract_val t s = (case extract_number s of None \<Rightarrow> None | Some (n, rest) \<Rightarrow>
     if t = TBool then if n = 0 \<or> n = 1 then Some (VBool (n = 1), rest) else None
     else if - (2 ^ 31) \<le> n \<and> n < 2 ^ 31 then Some (VInt n, rest) else None)"

lemma extract_number_shorter: "extract_number s = Some (n, rest) \<Longrightarrow> length rest < length s"
proof -
  assume "extract_number s = Some (n, rest)"
  moreover define u where "u = dropWhile isspace s"
  moreover define w where "w = (if u \<noteq> [] \<and> (hd u = CHR ''-'' \<or> hd u = CHR ''+'') then tl u else u)"
  ultimately have "takeWhile isdigit w \<noteq> []" "rest = dropWhile isdigit w"
    by (auto simp: extract_number_def Let_def split: if_splits)
  moreover have "length u \<le> length s" "length w \<le> length u"
    by (simp_all add: u_def w_def length_dropWhile_le)
  moreover have "length w = length (takeWhile isdigit w) + length (dropWhile isdigit w)"
    by (simp flip: length_append)
  ultimately show ?thesis by (cases "takeWhile isdigit w") simp_all
qed

lemma extract_val_shorter: "extract_val t s = Some (v, rest) \<Longrightarrow> length rest < length s"
  by (auto simp: extract_val_def split: option.splits if_splits dest: extract_number_shorter)

text \<open>The loop of \<open>Value<T>::parse\<close> over the stream: how many values were read and the last of them, \<open>None\<close> when a
  read failed.\<close>

function read_values :: "ty \<Rightarrow> nat \<Rightarrow> val option \<Rightarrow> string \<Rightarrow> (nat \<times> val option) option" where
  "read_values t n parsed s = (if s = [] then Some (n, parsed)
     else case extract_val t s of None \<Rightarrow> None | Some (v, rest) \<Rightarrow> read_values t (Suc n) (Some v) rest)"
  by pat_completeness auto
termination by (relation "measure (\<lambda>(t, n, p, s). length s)") (auto dest: extract_val_shorter)

definition Value_parse :: "ty \<Rightarrow> option_name \<Rightarrow> string \<Rightarrow> opt \<Rightarrow> outcome \<times> opt" where
  "Value_parse t what s o' = (
     if t = TString then if s = [] then (Invalid_option Missing_argument what s, o') else (Returned, add_value (VString s) o')
     else case read_values t 0 None s of
       None \<Rightarrow> (Invalid_option Invalid_value what s, o')
     | Some (n, parsed) \<Rightarrow> if n > 1 then (Invalid_option Too_many_arguments what s, o')
         else if s = [] then (Invalid_option Missing_argument what [], o')
         else (case parsed of None \<Rightarrow> (Undefined, o') | Some v \<Rightarrow> (Returned, add_value v o')))"

definition Implicit_parse :: "ty \<Rightarrow> option_name \<Rightarrow> string \<Rightarrow> opt \<Rightarrow> outcome \<times> opt" where
  "Implicit_parse t what s o' = (if s \<noteq> [] then Value_parse t what s o'
     else case dflt o' of None \<Rightarrow> (Undefined, o') | Some v \<Rightarrow> (Returned, add_value v o'))"

text \<open>The virtual method \<open>parse\<close>.\<close>

definition Option_parse :: "option_name \<Rightarrow> string \<Rightarrow> opt \<Rightarrow> outcome \<times> opt" where
  "Option_parse what s o' = (case opt_class o' of
     CValue t \<Rightarrow> Value_parse t what s o' | CImplicit t \<Rightarrow> Implicit_parse t what s o'
   | CSwitch \<Rightarrow> (Returned, add_value (VBool True) o'))"

section \<open>The parser\<close>

record parser =
  opts :: "opt list"
  p_description :: string
  non_option_args :: "string list"
  unknown_options :: "string list"

definition OptionParser_new :: "string \<Rightarrow> parser" where
  "OptionParser_new desc = \<lparr>opts = [], p_description = desc, non_option_args = [], unknown_options = []\<rparr>"

definition OptionParser_add :: "attribute \<Rightarrow> opt \<Rightarrow> parser \<Rightarrow> parser res" where
  "OptionParser_add a o' p = (
     if \<exists>q \<in> set (opts p). short_name o' \<noteq> CHR 0x00 \<and> short_name o' = short_name q \<or>
       long_n o' \<noteq> [] \<and> long_n o' = long_n q
     then Inl Invalid_argument
     else Inr (p\<lparr>opts := opts p @ [o'\<lparr>attrib := a\<rparr>]\<rparr>))"

definition find_option :: "(opt \<Rightarrow> bool) \<Rightarrow> parser \<Rightarrow> nat option" where
  "find_option P p = find (\<lambda>i. P (opts p ! i)) [0..<length (opts p)]"

definition find_option_long :: "string \<Rightarrow> parser \<Rightarrow> nat option" where
  "find_option_long name p = find_option (\<lambda>o'. long_n o' = name) p"

definition find_option_short :: "char \<Rightarrow> parser \<Rightarrow> nat option" where
  "find_option_short c p = find_option (\<lambda>o'. short_name o' = c) p"

text \<open>\<open>get_option\<close> with its cast to the class asked for.\<close>

definition get_option :: "opt_class \<Rightarrow> string \<Rightarrow> parser \<Rightarrow> opt res" where
  "get_option c name p = (case find_option_long name p of None \<Rightarrow> Inl Invalid_argument
     | Some i \<Rightarrow> let o' = opts p ! i; is_a = (case c of
           CValue t \<Rightarrow> opt_class o' \<in> {CValue t, CImplicit t} \<or> t = TBool \<and> opt_class o' = CSwitch | _ \<Rightarrow> opt_class o' = c)
         in if is_a then Inr o' else Inl Invalid_argument)"

definition active :: "nat option \<Rightarrow> parser \<Rightarrow> nat option" where
  "active r p = (case r of Some i \<Rightarrow> if attrib (opts p ! i) = Inactive then None else Some i | None \<Rightarrow> None)"

definition parse_option :: "nat \<Rightarrow> option_name \<Rightarrow> string \<Rightarrow> parser \<Rightarrow> outcome \<times> parser" where
  "parse_option i what s p = (let (r, o') = Option_parse what s (opts p ! i) in (r, p\<lparr>opts := (opts p)[i := o']\<rparr>))"

text \<open>An argument \<open>--name\<close> or \<open>--name=value\<close>; \<open>rest\<close> are the arguments behind it. The number in the result is that of
  the arguments of \<open>rest\<close> it takes.\<close>

definition parse_long :: "string \<Rightarrow> string list \<Rightarrow> parser \<Rightarrow> outcome \<times> nat \<times> parser" where
  "parse_long arg rest p = (
     let opt = drop 2 arg;
       name = takeWhile (\<lambda>c. c \<noteq> CHR ''='') opt;
       optarg = drop (Suc (length name)) opt
     in case active (find_option_long name p) p of
       None \<Rightarrow> (Returned, 0, p\<lparr>unknown_options := unknown_options p @ [arg]\<rparr>)
     | Some i \<Rightarrow>
         if argument_type (opts p ! i) = Arg_no \<and> optarg \<noteq> []
         then (Returned, 0, p\<lparr>unknown_options := unknown_options p @ [arg]\<rparr>)
         else if argument_type (opts p ! i) = Arg_required \<and> optarg = [] \<and> rest \<noteq> []
         then let (r, p) = parse_option i Long_name (hd rest) p in (r, 1, p)
         else let (r, p) = parse_option i Long_name optarg p in (r, 0, p))"

text \<open>The characters of an argument \<open>-abc\<close>; the boolean tells whether one of them is unknown.\<close>

fun short_loop :: "string \<Rightarrow> string list \<Rightarrow> bool \<Rightarrow> parser \<Rightarrow> outcome \<times> nat \<times> bool \<times> parser" where
  "short_loop [] rest unknown p = (Returned, 0, unknown, p)"
| "short_loop (c # cs) rest unknown p = (
     case active (find_option_short c p) p of
       None \<Rightarrow> short_loop cs rest True p
     | Some i \<Rightarrow> (case argument_type (opts p ! i) of
         Arg_required \<Rightarrow> if cs = [] \<and> rest \<noteq> []
           then let (r, p) = parse_option i Short_name (hd rest) p in (r, 1, unknown, p)
           else let (r, p) = parse_option i Short_name cs p in (r, 0, unknown, p)
       | Arg_optional \<Rightarrow> let (r, p) = parse_option i Short_name cs p in (r, 0, unknown, p)
       | Arg_no \<Rightarrow> let (r, p) = parse_option i Short_name [] p in
           if r = Returned then short_loop cs rest unknown p else (r, 0, unknown, p)))"

definition parse_short :: "string \<Rightarrow> string list \<Rightarrow> parser \<Rightarrow> outcome \<times> nat \<times> parser" where
  "parse_short arg rest p = (let (r, k, unknown, p) = short_loop (drop 1 arg) rest False p
     in (r, k, if r = Returned \<and> unknown then p\<lparr>unknown_options := unknown_options p @ [arg]\<rparr> else p))"

definition parse_arg :: "string \<Rightarrow> string list \<Rightarrow> parser \<Rightarrow> outcome \<times> nat \<times> parser" where
  "parse_arg arg rest p = (
     if arg = ''--'' then (Returned, 0, p\<lparr>non_option_args := non_option_args p @ rest\<rparr>)
     else if prefix ''--'' arg then parse_long arg rest p
     else if prefix ''-'' arg then parse_short arg rest p
     else (Returned, 0, p\<lparr>non_option_args := non_option_args p @ [arg]\<rparr>))"

fun parse_args :: "string list \<Rightarrow> parser \<Rightarrow> outcome \<times> parser" where
  "parse_args [] p = (Returned, p)"
| "parse_args (arg # rest) p = (let (r, k, p) = parse_arg arg rest p
     in if r = Returned then parse_args (drop k rest) p else (r, p))"

text \<open>\<open>argv\<close> is without the name of the program.\<close>

definition OptionParser_parse :: "string list \<Rightarrow> parser \<Rightarrow> outcome \<times> parser" where
  "OptionParser_parse argv p = (
     let p = p\<lparr>unknown_options := [], non_option_args := [], opts := map Value_clear (opts p)\<rparr>;
       (r, p) = parse_args argv p
     in if r = Returned \<and> (\<exists>o' \<in> set (opts p). attrib o' = Required \<and> \<not> is_set o')
       then (Invalid_option Missing_option Unspecified [], p) else (r, p))"

declare read_values.simps [simp del]

section \<open>Help\<close>

text \<open>\<open>out << v\<close>.\<close>

fun put_val :: "val \<Rightarrow> string" where
  "put_val (VString s) = s"
| "put_val (VInt n) = (if n < 0 then ''-'' else []) @ map str_digit (base_rep 10 (nat \<bar>n\<bar>))"
| "put_val (VBool b) = (if b then ''1'' else ''0'')"

text \<open>What both printers show of the argument.\<close>

definition argument_string :: "opt \<Rightarrow> string" where
  "argument_string o' = (case argument_type o' of
     Arg_required \<Rightarrow> '' arg'' @ (case dflt o' of None \<Rightarrow> [] | Some v \<Rightarrow> if put_val v = [] then [] else '' (='' @ put_val v @ '')'')
   | Arg_optional \<Rightarrow> (case dflt o' of None \<Rightarrow> [] | Some v \<Rightarrow> '' [=arg(='' @ put_val v @ '')]'')
   | Arg_no \<Rightarrow> [])"

definition Console_to_string :: "opt \<Rightarrow> string" where
  "Console_to_string o' = (if short_name o' \<noteq> CHR 0x00 then ''  -'' @ [short_name o'] @ (if long_n o' \<noteq> [] then '', '' else []) else ''  '') @
     (if long_n o' \<noteq> [] then ''--'' @ long_n o' else []) @ argument_string o'"

definition Groff_to_string :: "opt \<Rightarrow> string" where
  "Groff_to_string o' = (if short_name o' \<noteq> CHR 0x00 then ''-'' @ [short_name o'] @ (if long_n o' \<noteq> [] then '', '' else []) else []) @
     (if long_n o' \<noteq> [] then ''--'' @ long_n o' else []) @ argument_string o'"

text \<open>The lines that \<open>std::getline\<close> gives until it fails: a text that ends with a new line has no empty line behind it.\<close>

fun getlines :: "string \<Rightarrow> string list" where
  "getlines [] = []"
| "getlines (c # cs) = (if c = CHR 0x0A then [] # getlines cs
     else case cs of [] \<Rightarrow> [[c]]
       | d # _ \<Rightarrow> if d = CHR 0x0A then [c] # getlines (tl cs) else (case getlines cs of [] \<Rightarrow> [[c]] | l # ls \<Rightarrow> (c # l) # ls))"

definition shown :: "attribute \<Rightarrow> opt \<Rightarrow> bool" where
  "shown max_attribute o' \<longleftrightarrow> \<not> (attribute_num (attrib o') \<le> attribute_num Hidden \<or> attribute_num max_attribute < attribute_num (attrib o'))"

definition Console_line :: "nat \<Rightarrow> opt \<Rightarrow> string" where
  "Console_line margin o' = (
     let str = Console_to_string o';
       str = (if length str < margin then str @ replicate (margin - length str) (CHR '' '') else str @ [CHR 0x0A] @ replicate margin (CHR '' ''))
     in str @ concat (map (\<lambda>(n, l). (if n > (0::nat) then [CHR 0x0A] @ replicate margin (CHR '' '') else []) @ l) (enumerate 0 (getlines (descr o')))) @ [CHR 0x0A])"

definition Console_print :: "attribute \<Rightarrow> parser \<Rightarrow> string res" where
  "Console_print max_attribute p = (if attribute_num max_attribute < attribute_num Optional then Inl Invalid_argument
     else let margin = min (40 - 2) (foldl (\<lambda>m o'. max m (length (Console_to_string o') + 2)) 20 (opts p))
     in Inr ((if p_description p \<noteq> [] then p_description p @ '':'' @ [CHR 0x0A] else []) @
       concat (map (Console_line margin) (filter (shown max_attribute) (opts p)))))"

definition Groff_print :: "attribute \<Rightarrow> parser \<Rightarrow> string res" where
  "Groff_print max_attribute p = (if attribute_num max_attribute < attribute_num Optional then Inl Invalid_argument
     else Inr ((if p_description p \<noteq> [] then ''.SS '' @ p_description p @ '':'' @ [CHR 0x0A] else []) @
       concat (map (\<lambda>o'. ''.TP'' @ [CHR 0x0A, CHR 0x5C] @ ''fB'' @ Groff_to_string o' @ [CHR 0x5C] @ ''fR'' @ [CHR 0x0A] @
         (if descr o' \<noteq> [] then descr o' @ [CHR 0x0A] else [])) (filter (shown max_attribute) (opts p)))))"

text \<open>Both printers show an option in the same way, the one of the console indented by two columns.\<close>

lemma printers_agree: "Console_to_string o' = ''  '' @ Groff_to_string o'"
  by (simp add: Console_to_string_def Groff_to_string_def)

section \<open>Typing\<close>

fun val_type :: "val \<Rightarrow> ty" where
  "val_type (VString s) = TString" | "val_type (VInt n) = TInt" | "val_type (VBool b) = TBool"

fun class_type :: "opt_class \<Rightarrow> ty" where
  "class_type (CValue t) = t" | "class_type (CImplicit t) = t" | "class_type CSwitch = TBool"

text \<open>An option is well typed when all values it holds are of its type, a default exists where the class needs one, the
  names are as the constructor wants them, and the variable it assigns to has the current value, which is the first one
  given, or else the default.\<close>

definition current :: "opt \<Rightarrow> val option" where
  "current o' = (if vals o' \<noteq> [] then Some (hd (vals o')) else dflt o')"

definition wt_opt :: "opt \<Rightarrow> bool" where
  "wt_opt o' \<longleftrightarrow> (\<forall>v \<in> set (vals o'). val_type v = class_type (opt_class o')) \<and>
     (\<forall>v. dflt o' = Some v \<longrightarrow> val_type v = class_type (opt_class o')) \<and>
     (\<forall>v. assigned o' = Some v \<longrightarrow> val_type v = class_type (opt_class o') \<and> (\<forall>w. current o' = Some w \<longrightarrow> v = w)) \<and>
     (\<forall>t. opt_class o' = CImplicit t \<longrightarrow> dflt o' \<noteq> None) \<and>
     length (short_n o') \<le> 1 \<and> (short_n o' \<noteq> [] \<or> long_n o' \<noteq> [])"

lemma update_reference_current:
  "update_reference o' = o'\<lparr>assigned := (if assigned o' \<noteq> None \<and> current o' \<noteq> None then current o' else assigned o')\<rparr>"
  by (auto simp: update_reference_def Value_value_def is_set_def current_def hd_conv_nth split: sum.splits)

lemma Value_value_current: "Value_value 0 o' = Inr w \<Longrightarrow> current o' = Some w"
  by (auto simp: Value_value_def is_set_def current_def hd_conv_nth split: if_splits)

lemma current_simps [simp]: "current (o'\<lparr>assigned := a\<rparr>) = current o'"
  by (simp add: current_def)

lemma add_value_fields [simp]:
  "vals (add_value v o') = vals o' @ [v]" "dflt (add_value v o') = dflt o'" "opt_class (add_value v o') = opt_class o'"
  "short_n (add_value v o') = short_n o'" "long_n (add_value v o') = long_n o'" "attrib (add_value v o') = attrib o'"
  "descr (add_value v o') = descr o'"
  by (simp_all add: add_value_def update_reference_current)

lemma Value_clear_fields [simp]:
  "vals (Value_clear o') = []" "dflt (Value_clear o') = dflt o'" "opt_class (Value_clear o') = opt_class o'"
  "short_n (Value_clear o') = short_n o'" "long_n (Value_clear o') = long_n o'" "attrib (Value_clear o') = attrib o'"
  "descr (Value_clear o') = descr o'"
  by (simp_all add: Value_clear_def update_reference_current)

lemma wt_add_value: "wt_opt o' \<Longrightarrow> val_type v = class_type (opt_class o') \<Longrightarrow> wt_opt (add_value v o')"
  by (auto simp: wt_opt_def add_value_def update_reference_current current_def split: if_splits)

lemma wt_clear: "wt_opt o' \<Longrightarrow> wt_opt (Value_clear o')"
  by (auto simp: wt_opt_def Value_clear_def update_reference_current current_def split: if_splits)

text \<open>What is fixed of an option once it is declared.\<close>

definition decl :: "opt \<Rightarrow> string \<times> string \<times> attribute \<times> opt_class" where
  "decl o' = (short_n o', long_n o', attrib o', opt_class o')"

lemma decl_ops [simp]: "decl (add_value v o') = decl o'" "decl (Value_clear o') = decl o'"
  by (simp_all add: decl_def)

lemma read_values_typed:
  assumes "read_values t n parsed s = Some (m, q)" "t \<noteq> TString" "\<forall>v. parsed = Some v \<longrightarrow> val_type v = t"
  shows "(\<forall>v. q = Some v \<longrightarrow> val_type v = t) \<and> (s \<noteq> [] \<or> parsed \<noteq> None \<longrightarrow> q \<noteq> None)"
  using assms
proof (induction t n parsed s rule: read_values.induct)
  case (1 t n parsed s)
  show ?case
  proof (cases "s = []")
    case True
    then show ?thesis using 1(2,4) by (simp add: read_values.simps)
  next
    case False
    then obtain v rest where e: "extract_val t s = Some (v, rest)" and r: "read_values t (Suc n) (Some v) rest = Some (m, q)"
      using 1(2) read_values.simps [of t n parsed s] by (auto split: option.splits)
    have "val_type v = t" using e 1(3) by (cases t) (auto simp: extract_val_def split: option.splits if_splits)
    then have "\<forall>u. Some v = Some u \<longrightarrow> val_type u = t" by blast
    from 1(1) [OF False e refl r 1(3) this] show ?thesis by blast
  qed
qed

lemma Value_parse_sound:
  assumes "Value_parse t what s o' = (r, o'')" "wt_opt o'" "class_type (opt_class o') = t"
  shows "r \<noteq> Undefined \<and> wt_opt o'' \<and> decl o'' = decl o'"
proof (cases "t = TString")
  case True
  then show ?thesis using assms wt_add_value [of o' "VString s"] by (auto simp: Value_parse_def split: if_splits)
next
  case False
  show ?thesis
  proof (cases "read_values t 0 None s")
    case None
    then show ?thesis using assms(1,2) False by (auto simp: Value_parse_def)
  next
    case (Some a)
    then obtain m q where a: "read_values t 0 None s = Some (m, q)" by (cases a) simp
    show ?thesis using read_values_typed [OF a False] assms False a wt_add_value [of o']
      by (auto simp: Value_parse_def split: if_splits option.splits)
  qed
qed

lemma Option_parse_sound:
  assumes "Option_parse what s o' = (r, o'')" "wt_opt o'"
  shows "r \<noteq> Undefined \<and> wt_opt o'' \<and> decl o'' = decl o'"
proof (cases "opt_class o'")
  case (CValue t)
  then show ?thesis using assms Value_parse_sound [of t what s o' r o''] by (simp add: Option_parse_def)
next
  case (CImplicit t)
  moreover obtain v where "dflt o' = Some v" "val_type v = t" using assms(2) CImplicit by (auto simp: wt_opt_def)
  ultimately show ?thesis using assms Value_parse_sound [of t what s o' r o''] wt_add_value [OF assms(2), of v]
    by (auto simp: Option_parse_def Implicit_parse_def split: if_splits)
next
  case CSwitch
  then show ?thesis using assms wt_add_value [OF assms(2), of "VBool True"] by (auto simp: Option_parse_def)
qed

text \<open>A parser is well formed when its options are well typed and no two of them have a name in common.\<close>

definition wf_parser :: "parser \<Rightarrow> bool" where
  "wf_parser p \<longleftrightarrow> (\<forall>o' \<in> set (opts p). wt_opt o') \<and>
     distinct (filter (\<lambda>c. c \<noteq> CHR 0x00) (map short_name (opts p))) \<and> distinct (filter (\<lambda>s. s \<noteq> []) (map long_n (opts p)))"

text \<open>\<open>keeps p p'\<close>: the options of \<open>p'\<close> are those of \<open>p\<close> with other values, all well typed.\<close>

definition keeps :: "parser \<Rightarrow> parser \<Rightarrow> bool" where
  "keeps p p' \<longleftrightarrow> ((\<forall>o' \<in> set (opts p). wt_opt o') \<longrightarrow> (\<forall>o' \<in> set (opts p'). wt_opt o')) \<and> map decl (opts p') = map decl (opts p)"

lemma keeps_refl [simp]: "keeps p p"
  by (simp add: keeps_def)

lemma keeps_trans [trans]: "keeps p q \<Longrightarrow> keeps q r \<Longrightarrow> keeps p r"
  unfolding keeps_def by (elim conjE, intro conjI) (blast, metis)

lemma keeps_other [simp]: "keeps q (p\<lparr>unknown_options := u\<rparr>) = keeps q p" "keeps q (p\<lparr>non_option_args := n\<rparr>) = keeps q p"
  by (simp_all add: keeps_def)

lemma names_of_decl: "map short_name xs = map ((\<lambda>s. if s \<noteq> [] then hd s else CHR 0x00) \<circ> fst) (map decl xs)" "map long_n xs = map (fst \<circ> snd) (map decl xs)"
  by (simp_all add: short_name_def decl_def)

lemma decl_names: "map decl xs = map decl ys \<Longrightarrow> map short_name xs = map short_name ys \<and> map long_n xs = map long_n ys"
  unfolding names_of_decl by simp

lemma keeps_wf: "keeps p p' \<Longrightarrow> wf_parser p \<Longrightarrow> wf_parser p'"
  using decl_names [of "opts p'" "opts p"] by (simp add: keeps_def wf_parser_def)

lemma find_option_less: "find_option P p = Some i \<Longrightarrow> i < length (opts p) \<and> P (opts p ! i)"
  using find_SomeD [of _ "[0..<length (opts p)]" i] by (auto simp: find_option_def)

lemma active_less: "active (find_option P p) p = Some i \<Longrightarrow> i < length (opts p)"
  by (auto simp: active_def split: option.splits if_splits dest: find_option_less)

lemma parse_option_sound:
  assumes "parse_option i what s p = (r, p')" "\<forall>o' \<in> set (opts p). wt_opt o'" "i < length (opts p)"
  shows "r \<noteq> Undefined \<and> keeps p p'"
proof -
  obtain o'' where o: "Option_parse what s (opts p ! i) = (r, o'')" "p' = p\<lparr>opts := (opts p)[i := o'']\<rparr>"
    using assms(1) by (auto simp: parse_option_def split: prod.splits)
  have s: "r \<noteq> Undefined \<and> wt_opt o'' \<and> decl o'' = decl (opts p ! i)"
    using Option_parse_sound [OF o(1)] assms(2,3) by simp
  then have "map decl ((opts p)[i := o'']) = map decl (opts p)"
    using assms(3) by (simp add: map_update list_update_same_conv)
  then show ?thesis using s assms(2) o(2) set_update_subset_insert [of "opts p" i o''] by (auto simp: keeps_def)
qed

lemma keeps_wt: "keeps p p' \<Longrightarrow> \<forall>o' \<in> set (opts p). wt_opt o' \<Longrightarrow> \<forall>o' \<in> set (opts p'). wt_opt o'"
  by (simp add: keeps_def)

lemma parse_long_sound:
  assumes "parse_long arg rest p = (r, k, p')" "\<forall>o' \<in> set (opts p). wt_opt o'"
  shows "r \<noteq> Undefined \<and> keeps p p'"
  using assms parse_option_sound [OF _ assms(2)] active_less
  by (fastforce simp: parse_long_def find_option_long_def Let_def split: option.splits if_splits prod.splits)

lemma short_loop_sound:
  assumes "short_loop cs rest u p = (r, k, u', p')" "\<forall>o' \<in> set (opts p). wt_opt o'"
  shows "r \<noteq> Undefined \<and> keeps p p'"
  using assms
proof (induction cs rest u p arbitrary: r k u' p' rule: short_loop.induct)
  case (2 c cs rest unknown p)
  show ?case
  proof (cases "active (find_option_short c p) p")
    case None
    then show ?thesis using 2 by simp
  next
    case (Some i)
    then have i: "i < length (opts p)" using active_less by (simp add: find_option_short_def)
    obtain r1 p1 where o: "parse_option i Short_name [] p = (r1, p1)" by (cases "parse_option i Short_name [] p") simp
    note s = parse_option_sound [OF _ 2(4) i]
    show ?thesis
    proof (cases "argument_type (opts p ! i) = Arg_no \<and> r1 = Returned")
      case True
      then have "short_loop cs rest unknown p1 = (r, k, u', p')" using 2(3) Some o by simp
      then have "r \<noteq> Undefined \<and> keeps p1 p'"
        using 2(2) [OF Some _ o [symmetric]] True keeps_wt [OF _ 2(4)] s [OF o] by simp
      then show ?thesis using s [OF o] keeps_trans by blast
    next
      case False
      then show ?thesis using 2(3) Some o s
        by (cases "argument_type (opts p ! i)") (fastforce split: if_splits prod.splits)+
    qed
  qed
qed simp

lemma parse_arg_sound:
  assumes "parse_arg arg rest p = (r, k, p')" "\<forall>o' \<in> set (opts p). wt_opt o'"
  shows "r \<noteq> Undefined \<and> keeps p p'"
  using assms parse_long_sound [OF _ assms(2)] short_loop_sound [OF _ assms(2)]
  by (auto simp: parse_arg_def parse_short_def Let_def split: if_splits prod.splits)

lemma parse_args_sound:
  "parse_args argv p = (r, p') \<Longrightarrow> \<forall>o' \<in> set (opts p). wt_opt o' \<Longrightarrow> r \<noteq> Undefined \<and> keeps p p'"
proof (induction argv p arbitrary: r p' rule: parse_args.induct)
  case (2 arg rest p)
  obtain r1 k p1 where a: "parse_arg arg rest p = (r1, k, p1)" by (metis prod_cases3)
  note s = parse_arg_sound [OF a 2(3)]
  show ?case
  proof (cases "r1 = Returned")
    case True
    then have "parse_args (drop k rest) p1 = (r, p')" using 2(2) a by simp
    then have "r \<noteq> Undefined \<and> keeps p1 p'" using 2(1) [OF a [symmetric] refl refl True] keeps_wt [OF _ 2(3)] s by blast
    then show ?thesis using s keeps_trans by blast
  next
    case False
    then show ?thesis using 2(2) a s by simp
  qed
qed simp

lemma OptionParser_parse_sound:
  assumes "OptionParser_parse argv p = (r, p')" "wf_parser p"
  shows "r \<noteq> Undefined \<and> keeps p p'"
proof -
  define q where "q = p\<lparr>unknown_options := [], non_option_args := [], opts := map Value_clear (opts p)\<rparr>"
  have w: "\<forall>o' \<in> set (opts q). wt_opt o'" using assms(2) wt_clear by (auto simp: q_def wf_parser_def)
  have k: "keeps p q" using w by (auto simp: keeps_def q_def)
  obtain r1 where "parse_args argv q = (r1, p')" "r = r1 \<or> r = Invalid_option Missing_option Unspecified []"
    using assms(1) by (auto simp: OptionParser_parse_def q_def [symmetric] Let_def split: prod.splits if_splits)
  then show ?thesis using parse_args_sound [OF _ w] k keeps_trans by blast
qed

text \<open>The ways to make an option, with arguments of the types the templates ask for; what a program may do to it through
  its pointer; and the parsers a program can build and use.\<close>

inductive made :: "opt \<Rightarrow> bool" where
  made_Option: "Option_new (CValue t) sn ln d = Inr o' \<Longrightarrow> made o'"
| made_Value: "Value_new (CValue t) sn ln d v var = Inr o' \<Longrightarrow> val_type v = t \<Longrightarrow> pred_option (\<lambda>w. val_type w = t) var \<Longrightarrow> made o'"
| made_Implicit: "Implicit_new t sn ln d v var = Inr o' \<Longrightarrow> val_type v = t \<Longrightarrow> pred_option (\<lambda>w. val_type w = t) var \<Longrightarrow> made o'"
| made_Switch: "Switch_new sn ln d var = Inr o' \<Longrightarrow> pred_option (\<lambda>w. val_type w = TBool) var \<Longrightarrow> made o'"

inductive changed :: "opt \<Rightarrow> opt \<Rightarrow> bool" where
  changed_value: "val_type v = class_type (opt_class o') \<Longrightarrow> changed o' (Value_set_value v o')"
| changed_default: "val_type v = class_type (opt_class o') \<Longrightarrow> changed o' (set_default v o')"
| changed_assign: "pred_option (\<lambda>v. val_type v = class_type (opt_class o')) var \<Longrightarrow> changed o' (Value_assign_to var o')"

inductive built :: "parser \<Rightarrow> bool" where
  built_new: "built (OptionParser_new d)"
| built_add: "built p \<Longrightarrow> made o' \<Longrightarrow> OptionParser_add a o' p = Inr p' \<Longrightarrow> built p'"
| built_change: "built p \<Longrightarrow> i < length (opts p) \<Longrightarrow> changed (opts p ! i) o' \<Longrightarrow> built (p\<lparr>opts := (opts p)[i := o']\<rparr>)"
| built_parse: "built p \<Longrightarrow> OptionParser_parse argv p = (r, p') \<Longrightarrow> built p'"

inductive_cases madeE: "made o'" and changedE: "changed o' o''"

lemma wt_made: "made o' \<Longrightarrow> wt_opt o'"
  by (erule madeE) (auto simp: Value_new_def Implicit_new_def Switch_new_def Option_new_def set_default_def update_reference_current
    wt_opt_def current_def split: if_splits sum.splits)

lemma changed_sound: "changed o' o'' \<Longrightarrow> wt_opt o' \<Longrightarrow> wt_opt o'' \<and> decl o'' = decl o'"
proof (erule changedE)
  fix v assume "wt_opt o'" "o'' = Value_set_value v o'" "val_type v = class_type (opt_class o')"
  then show ?thesis using wt_add_value [OF wt_clear] by (simp add: Value_set_value_def)
next
  fix v assume "wt_opt o'" "o'' = set_default v o'" "val_type v = class_type (opt_class o')"
  then show ?thesis by (auto simp: set_default_def update_reference_current wt_opt_def current_def decl_def split: if_splits)
next
  fix var assume "wt_opt o'" "o'' = Value_assign_to var o'" "pred_option (\<lambda>v. val_type v = class_type (opt_class o')) var"
  then show ?thesis by (cases var) (auto simp: Value_assign_to_def update_reference_current wt_opt_def current_def decl_def split: if_splits)
qed

lemma attrib_update [simp]: "wt_opt (o'\<lparr>attrib := a\<rparr>) = wt_opt o'" "short_name (o'\<lparr>attrib := a\<rparr>) = short_name o'"
  by (simp_all add: wt_opt_def current_def short_name_def)

lemma distinct_filter_snoc: "distinct (filter P (xs @ [x])) \<longleftrightarrow> distinct (filter P xs) \<and> (P x \<longrightarrow> x \<notin> set xs)"
  by auto

lemma wf_add:
  assumes "wf_parser p" "wt_opt o'" "OptionParser_add a o' p = Inr p'"
  shows "wf_parser p'"
proof -
  have p': "p' = p\<lparr>opts := opts p @ [o'\<lparr>attrib := a\<rparr>]\<rparr>"
    and n: "short_name o' \<noteq> CHR 0x00 \<Longrightarrow> short_name o' \<notin> short_name ` set (opts p)" "long_n o' \<noteq> [] \<Longrightarrow> long_n o' \<notin> long_n ` set (opts p)"
    using assms(3) by (auto simp: OptionParser_add_def split: if_splits)
  show ?thesis using assms(1,2) n unfolding wf_parser_def p' by (simp add: distinct_filter_snoc del: filter_append)
qed

lemma wf_built: "built p \<Longrightarrow> wf_parser p"
proof (induction rule: built.induct)
  case (built_change p i o')
  then have "wt_opt o' \<and> decl o' = decl (opts p ! i)" using changed_sound by (auto simp: wf_parser_def)
  then have "keeps p (p\<lparr>opts := (opts p)[i := o']\<rparr>)"
    using built_change(2) set_update_subset_insert [of "opts p" i o'] by (auto simp: keeps_def map_update list_update_same_conv)
  then show ?case using keeps_wf built_change(4) by blast
next
  case (built_parse p argv r p')
  then show ?case using OptionParser_parse_sound keeps_wf by blast
next
  case (built_new d)
  show ?case by (simp add: wf_parser_def OptionParser_new_def)
qed (blast intro: wf_add wt_made)

text \<open>C21. Type soundness of the option parser: on every parser a program can build and use, \<open>parse\<close> ends on every command
  line without a null default being dereferenced or an unread value being used, whether it returns or throws; all values
  are of the types of their options, the variables assigned to hold the value of their option, which is the first one
  given, and names stay unique.\<close>

theorem options_type_sound:
  assumes "built p" "OptionParser_parse argv p = (r, p')"
  shows "r \<noteq> Undefined \<and> map decl (opts p') = map decl (opts p) \<and>
    (\<forall>o' \<in> set (opts p'). (\<forall>v \<in> set (vals o'). val_type v = class_type (opt_class o')) \<and>
      (\<forall>v w. assigned o' = Some v \<and> Value_value 0 o' = Inr w \<longrightarrow> v = w)) \<and> wf_parser p'"
proof -
  note w = wf_built [OF assms(1)]
  note s = OptionParser_parse_sound [OF assms(2) w]
  have w': "wf_parser p'" using keeps_wf s w by blast
  moreover have "v = w" if "o' \<in> set (opts p')" "assigned o' = Some v" "Value_value 0 o' = Inr w" for o' v w
  proof -
    have "wt_opt o'" using w' that(1) by (simp add: wf_parser_def)
    then show ?thesis using Value_value_current [OF that(3)] that(2) unfolding wt_opt_def by blast
  qed
  moreover have "val_type v = class_type (opt_class o')" if "o' \<in> set (opts p')" "v \<in> set (vals o')" for o' v
    using w' that unfolding wf_parser_def wt_opt_def by blast
  ultimately show ?thesis using s unfolding keeps_def by blast
qed

text \<open>The parser of every Arduino program, of \<open>arduino/Piduino.h\<close>.\<close>

definition CmdLine :: parser where
  "CmdLine = \<lparr>opts = [
      \<lparr>short_n = ''h'', long_n = ''help'', descr = ''produce help message'', attrib = Optional, opt_class = CSwitch, dflt = Some (VBool False), assigned = None, vals = []\<rparr>,
      \<lparr>short_n = ''v'', long_n = ''verbose'', descr = ''be verbose'', attrib = Optional, opt_class = CSwitch, dflt = Some (VBool False), assigned = None, vals = []\<rparr>,
      \<lparr>short_n = ''D'', long_n = ''daemon'', descr = ''be daemonized'', attrib = Optional, opt_class = CSwitch, dflt = Some (VBool False), assigned = Some (VBool False), vals = []\<rparr>],
    p_description = ''Allowed options'', non_option_args = [], unknown_options = []\<rparr>"

lemma built_CmdLine: "built CmdLine"
proof -
  obtain o1 o2 o3 where o: "Switch_new ''h'' ''help'' ''produce help message'' None = Inr o1" "Switch_new ''v'' ''verbose'' ''be verbose'' None = Inr o2"
      "Switch_new ''D'' ''daemon'' ''be daemonized'' (Some (VBool False)) = Inr o3"
    by (simp add: Switch_new_def Value_new_def Option_new_def)
  obtain p1 where 1: "OptionParser_add Optional o1 (OptionParser_new ''Allowed options'') = Inr p1"
    by (simp add: OptionParser_add_def OptionParser_new_def)
  obtain p2 where 2: "OptionParser_add Optional o2 p1 = Inr p2"
    using 1 o by (auto simp: OptionParser_add_def OptionParser_new_def Switch_new_def Value_new_def Option_new_def set_default_def
      update_reference_current short_name_def current_def)
  have 3: "OptionParser_add Optional o3 p2 = Inr CmdLine"
    using 1 2 o by (auto simp: OptionParser_add_def OptionParser_new_def Switch_new_def Value_new_def Option_new_def set_default_def
      update_reference_current short_name_def current_def CmdLine_def)
  have "made o1" "made o2" "made o3" using o made_Switch by (auto intro: made_Switch)
  then show ?thesis using 1 2 3 built.intros by blast
qed

theorem options_type_sound_witness:
  "\<exists>p'. OptionParser_parse [''-vD'', ''--daemon'', ''x''] CmdLine = (Returned, p') \<and> wf_parser p' \<and> map vals (opts p') = [[], [VBool True], [VBool True, VBool True]]"
proof -
  define res where "res = OptionParser_parse [''-vD'', ''--daemon'', ''x''] CmdLine"
  have v: "fst res = Returned" "map vals (opts (snd res)) = [[], [VBool True], [VBool True, VBool True]]"
    by (simp_all add: res_def CmdLine_def OptionParser_parse_def parse_arg_def parse_long_def parse_short_def find_option_short_def find_option_long_def
      find_option_def active_def argument_type_def parse_option_def Option_parse_def short_name_def upt_rec)
  have r: "OptionParser_parse [''-vD'', ''--daemon'', ''x''] CmdLine = (fst res, snd res)" by (simp add: res_def)
  then have "wf_parser (snd res)" using options_type_sound [OF built_CmdLine] by blast
  then show ?thesis using v r by (intro exI [of _ "snd res"]) (simp only: simp_thms)
qed

end
