(* ===== verification/CommandLines.thy ===== *)
theory CommandLines
  imports Options
begin

text \<open>
  What the option parser of theory \<open>Options\<close> makes of a command line. A command line is written down as a list of items,
  arguments and options with their values, which \<open>render\<close> turns into the arguments a program gets; \<open>parse\<close> gives every
  option its values, in order, and keeps the other arguments. The values are printed and read back.
\<close>

section \<open>Values read back\<close>

text \<open>The values that have a text of their own: a string must not be empty and a number must fit an \<open>int\<close>.\<close>

fun printable :: "val \<Rightarrow> bool" where
  "printable (VString s) \<longleftrightarrow> s \<noteq> []"
| "printable (VInt n) \<longleftrightarrow> - (2 ^ 31) \<le> n \<and> n < 2 ^ 31"
| "printable (VBool b) \<longleftrightarrow> True"

lemma extract_number_digits:
  assumes "\<forall>c \<in> set ds. isdigit c" "ds \<noteq> []" "hd ds \<noteq> CHR ''-''" "hd ds \<noteq> CHR ''+''" "\<not> isspace (hd ds)"
  shows "extract_number ds = Some (digits_value ds, [])" "extract_number (CHR ''-'' # ds) = Some (- digits_value ds, [])"
proof -
  obtain x xs where ds: "ds = x # xs" using assms(2) by (cases ds) auto
  have t: "takeWhile isdigit ds = ds" "dropWhile isdigit ds = []" using assms(1) by (auto simp: takeWhile_eq_all_conv)
  have "dropWhile isspace ds = ds" using assms(5) ds by simp
  then show "extract_number ds = Some (digits_value ds, [])" using assms(2-4) by (simp add: extract_number_def Let_def t)
  have "\<not> isspace CHR ''-''" by code_simp
  then show "extract_number (CHR ''-'' # ds) = Some (- digits_value ds, [])" using assms(2) by (simp add: extract_number_def Let_def t)
qed

lemma extract_number_put: "extract_number (put_val (VInt n)) = Some (n, [])"
proof -
  define ds where "ds = map str_digit (base_rep 10 (nat \<bar>n\<bar>))"
  have d: "\<forall>c \<in> set ds. isdigit c" "ds \<noteq> []" using base_rep_digits [of 10 _ "nat \<bar>n\<bar>"] digit_char(1) by (auto simp: ds_def base_rep_nonempty)
  have "\<exists>x xs. base_rep 10 (nat \<bar>n\<bar>) = x # xs \<and> x < 10"
    using base_rep_nonempty [of 10 "nat \<bar>n\<bar>"] base_rep_digits [of 10 _ "nat \<bar>n\<bar>"] by (cases "base_rep 10 (nat \<bar>n\<bar>)") auto
  then have h: "hd ds \<noteq> CHR ''-''" "hd ds \<noteq> CHR ''+''" "\<not> isspace (hd ds)" using digit_char(3-5) by (auto simp: ds_def)
  have v: "digits_value ds = \<bar>n\<bar>" unfolding ds_def digits_value_rep by simp
  show ?thesis using extract_number_digits [OF d h] v by (simp add: ds_def [symmetric])
qed

lemma extract_val_put:
  assumes "val_type v \<noteq> TString" "printable v"
  shows "extract_val (val_type v) (put_val v) = Some (v, [])"
proof (cases v)
  case (VBool b)
  have "extract_number (put_val (VInt (if b then 1 else 0))) = Some (if b then 1 else 0, [])" by (rule extract_number_put)
  moreover have "put_val (VInt (if b then 1 else 0)) = put_val v" by (cases b) (simp_all add: VBool base_rep_small str_digit_def char_of_eq_iff)
  ultimately show ?thesis using VBool by (simp add: extract_val_def)
qed (use assms extract_number_put in \<open>simp_all add: extract_val_def del: put_val.simps\<close>)

lemma put_val_nonempty: "printable v \<Longrightarrow> put_val v \<noteq> []"
  by (cases v) (auto simp: base_rep_nonempty)

lemma Value_parse_put:
  assumes "printable v"
  shows "Value_parse (val_type v) what (put_val v) o' = (Returned, add_value v o')"
proof (cases "val_type v = TString")
  case True
  then show ?thesis using assms by (cases v) (simp_all add: Value_parse_def)
next
  case False
  have "read_values (val_type v) 0 None (put_val v) = Some (1, Some v)"
    using extract_val_put [OF False assms] put_val_nonempty [OF assms] by (simp add: read_values.simps)
  then show ?thesis using False put_val_nonempty [OF assms] by (simp add: Value_parse_def)
qed

lemma Option_parse_put:
  assumes "printable v" "opt_class o' = CValue (val_type v) \<or> opt_class o' = CImplicit (val_type v)"
  shows "Option_parse what (put_val v) o' = (Returned, add_value v o')"
  using assms(2) Value_parse_put [OF assms(1)] put_val_nonempty [OF assms(1)] by (auto simp: Option_parse_def Implicit_parse_def)

section \<open>Command lines\<close>

text \<open>A plain argument; \<open>--name=value\<close>; \<open>--name value\<close>; \<open>-nvalue\<close>; \<open>-n value\<close>; and switches in one argument, \<open>-abc\<close>.
  Options are given by their index.\<close>

datatype item = Plain string | Long_eq nat val | Long_next nat val | Short_eq nat val | Short_next nat val | Switches "nat list"

fun render :: "parser \<Rightarrow> item \<Rightarrow> string list" where
  "render p (Plain s) = [s]"
| "render p (Long_eq i v) = [''--'' @ long_n (opts p ! i) @ ''='' @ put_val v]"
| "render p (Long_next i v) = [''--'' @ long_n (opts p ! i), put_val v]"
| "render p (Short_eq i v) = [''-'' @ short_n (opts p ! i) @ put_val v]"
| "render p (Short_next i v) = [''-'' @ short_n (opts p ! i), put_val v]"
| "render p (Switches js) = [''-'' @ concat (map (\<lambda>j. short_n (opts p ! j)) js)]"

definition has_long :: "opt \<Rightarrow> bool" where
  "has_long o' \<longleftrightarrow> long_n o' \<noteq> [] \<and> CHR ''='' \<notin> set (long_n o')"

definition has_short :: "opt \<Rightarrow> bool" where
  "has_short o' \<longleftrightarrow> (\<exists>c. short_n o' = [c] \<and> c \<noteq> CHR 0x00 \<and> c \<noteq> CHR ''-'')"

definition takes :: "val \<Rightarrow> bool \<Rightarrow> opt \<Rightarrow> bool" where
  "takes v joined o' \<longleftrightarrow> printable v \<and> attrib o' \<noteq> Inactive \<and>
     (opt_class o' = CValue (val_type v) \<or> joined \<and> opt_class o' = CImplicit (val_type v))"

fun valid :: "parser \<Rightarrow> item \<Rightarrow> bool" where
  "valid p (Plain s) \<longleftrightarrow> \<not> prefix ''-'' s"
| "valid p (Long_eq i v) \<longleftrightarrow> i < length (opts p) \<and> has_long (opts p ! i) \<and> takes v True (opts p ! i)"
| "valid p (Long_next i v) \<longleftrightarrow> i < length (opts p) \<and> has_long (opts p ! i) \<and> takes v False (opts p ! i)"
| "valid p (Short_eq i v) \<longleftrightarrow> i < length (opts p) \<and> has_short (opts p ! i) \<and> takes v True (opts p ! i)"
| "valid p (Short_next i v) \<longleftrightarrow> i < length (opts p) \<and> has_short (opts p ! i) \<and> takes v False (opts p ! i)"
| "valid p (Switches js) \<longleftrightarrow> js \<noteq> [] \<and> (\<forall>j \<in> set js. j < length (opts p) \<and> has_short (opts p ! j) \<and>
     opt_class (opts p ! j) = CSwitch \<and> attrib (opts p ! j) \<noteq> Inactive)"

definition give :: "nat \<Rightarrow> val \<Rightarrow> parser \<Rightarrow> parser" where
  "give i v p = p\<lparr>opts := (opts p)[i := add_value v (opts p ! i)]\<rparr>"

fun meaning :: "item \<Rightarrow> parser \<Rightarrow> parser" where
  "meaning (Plain s) p = p\<lparr>non_option_args := non_option_args p @ [s]\<rparr>"
| "meaning (Long_eq i v) p = give i v p"
| "meaning (Long_next i v) p = give i v p"
| "meaning (Short_eq i v) p = give i v p"
| "meaning (Short_next i v) p = give i v p"
| "meaning (Switches js) p = fold (\<lambda>j. give j (VBool True)) js p"

text \<open>Names are unique, so that an option is found by each of its names.\<close>

lemma distinct_filter_nth:
  "distinct (filter P xs) \<Longrightarrow> i < length xs \<Longrightarrow> j < length xs \<Longrightarrow> xs ! i = xs ! j \<Longrightarrow> P (xs ! i) \<Longrightarrow> i = j"
proof (induction xs arbitrary: i j)
  case (Cons x xs)
  show ?case
  proof (cases i; cases j)
    fix k assume "i = 0" "j = Suc k"
    then show ?thesis using Cons.prems nth_mem [of k xs] by (auto split: if_splits)
  next
    fix k assume "i = Suc k" "j = 0"
    then show ?thesis using Cons.prems nth_mem [of k xs] by (auto split: if_splits)
  next
    fix k l assume "i = Suc k" "j = Suc l"
    then show ?thesis using Cons.IH [of k l] Cons.prems by (auto split: if_splits)
  qed simp
qed simp

lemma find_option_unique:
  assumes "i < length (opts p)" "P (opts p ! i)" "\<And>j. j < length (opts p) \<Longrightarrow> P (opts p ! j) \<Longrightarrow> j = i"
  shows "find_option P p = Some i"
proof (cases "find_option P p")
  case None
  then show ?thesis using assms(1,2) by (auto simp: find_option_def find_None_iff)
next
  case (Some j)
  then show ?thesis using find_option_less [OF Some] assms(3) by simp
qed

lemma find_long:
  assumes "wf_parser p" "i < length (opts p)" "has_long (opts p ! i)" "attrib (opts p ! i) \<noteq> Inactive"
  shows "active (find_option_long (long_n (opts p ! i)) p) p = Some i"
proof -
  have "find_option_long (long_n (opts p ! i)) p = Some i"
    unfolding find_option_long_def using assms(1-3) distinct_filter_nth [of _ "map long_n (opts p)"]
    by (intro find_option_unique) (auto simp: wf_parser_def has_long_def)
  then show ?thesis using assms(4) by (simp add: active_def)
qed

lemma find_short:
  assumes "wf_parser p" "i < length (opts p)" "has_short (opts p ! i)" "attrib (opts p ! i) \<noteq> Inactive"
  shows "active (find_option_short (hd (short_n (opts p ! i))) p) p = Some i"
proof -
  have s: "short_name (opts p ! i) = hd (short_n (opts p ! i))" "short_name (opts p ! i) \<noteq> CHR 0x00"
    using assms(3) by (auto simp: has_short_def short_name_def)
  have "find_option_short (hd (short_n (opts p ! i))) p = Some i"
    unfolding find_option_short_def using assms(1,2) s distinct_filter_nth [of _ "map short_name (opts p)"]
    by (intro find_option_unique) (auto simp: wf_parser_def)
  then show ?thesis using assms(4) by (simp add: active_def)
qed

section \<open>One item\<close>

lemma parse_option_put:
  assumes "takes v joined (opts p ! i)"
  shows "parse_option i what (put_val v) p = (Returned, give i v p)"
  using assms Option_parse_put [of v "opts p ! i" what] by (auto simp: takes_def parse_option_def give_def)

lemma takes_args:
  assumes "takes v joined o'"
  shows "argument_type o' \<noteq> Arg_no" "\<not> joined \<Longrightarrow> argument_type o' = Arg_required" "attrib o' \<noteq> Inactive" "put_val v \<noteq> []"
  using assms put_val_nonempty by (auto simp: takes_def argument_type_def)

lemma parse_arg_long: "name \<noteq> [] \<Longrightarrow> parse_arg (''--'' @ name) rest p = parse_long (''--'' @ name) rest p"
  by (simp add: parse_arg_def)

lemma parse_Long_eq:
  assumes "wf_parser p" "valid p (Long_eq i v)"
  shows "parse_arg (''--'' @ long_n (opts p ! i) @ ''='' @ put_val v) rest p = (Returned, 0, give i v p)"
proof -
  define n where "n = long_n (opts p ! i)"
  have v: "i < length (opts p)" "has_long (opts p ! i)" "takes v True (opts p ! i)" using assms(2) by simp_all
  note a = takes_args [OF v(3)]
  have n: "n \<noteq> []" "\<forall>c \<in> set n. c \<noteq> CHR ''=''" using v(2) by (auto simp: has_long_def n_def)
  have t: "takeWhile (\<lambda>c. c \<noteq> CHR ''='') (n @ ''='' @ put_val v) = n" using n(2) by (subst takeWhile_append2) auto
  have f: "active (find_option_long n p) p = Some i" unfolding n_def by (rule find_long [OF assms(1) v(1,2) a(3)])
  have "parse_long (''--'' @ n @ ''='' @ put_val v) rest p = (Returned, 0, give i v p)"
    using f a(1,4) parse_option_put [OF v(3)] by (simp add: parse_long_def t [simplified])
  then show ?thesis using parse_arg_long [of "n @ ''='' @ put_val v"] n(1) unfolding n_def by simp
qed

lemma parse_Long_next:
  assumes "wf_parser p" "valid p (Long_next i v)"
  shows "parse_arg (''--'' @ long_n (opts p ! i)) (put_val v # rest) p = (Returned, 1, give i v p)"
proof -
  define n where "n = long_n (opts p ! i)"
  have v: "i < length (opts p)" "has_long (opts p ! i)" "takes v False (opts p ! i)" using assms(2) by simp_all
  note a = takes_args [OF v(3)]
  have n: "n \<noteq> []" "\<forall>c \<in> set n. c \<noteq> CHR ''=''" using v(2) by (auto simp: has_long_def n_def)
  have t: "takeWhile (\<lambda>c. c \<noteq> CHR ''='') n = n" using n(2) by (simp add: takeWhile_eq_all_conv)
  have f: "active (find_option_long n p) p = Some i" unfolding n_def by (rule find_long [OF assms(1) v(1,2) a(3)])
  have "parse_long (''--'' @ n) (put_val v # rest) p = (Returned, 1, give i v p)"
    using f a(2) parse_option_put [OF v(3)] by (simp add: parse_long_def Let_def t)
  then show ?thesis using parse_arg_long [of n] n(1) unfolding n_def by simp
qed

lemma parse_Short_eq:
  assumes "wf_parser p" "valid p (Short_eq i v)"
  shows "parse_arg (''-'' @ short_n (opts p ! i) @ put_val v) rest p = (Returned, 0, give i v p)"
proof -
  have v: "i < length (opts p)" "has_short (opts p ! i)" "takes v True (opts p ! i)" using assms(2) by simp_all
  obtain c where c: "short_n (opts p ! i) = [c]" "c \<noteq> CHR ''-''" using v(2) by (auto simp: has_short_def)
  have f: "active (find_option_short c p) p = Some i" using find_short [OF assms(1) v(1,2) takes_args(3) [OF v(3)]] c(1) by simp
  show ?thesis
    using c f takes_args [OF v(3)] parse_option_put [OF v(3)]
    by (cases "argument_type (opts p ! i)") (auto simp: parse_arg_def parse_short_def Let_def)
qed

lemma parse_Short_next:
  assumes "wf_parser p" "valid p (Short_next i v)"
  shows "parse_arg (''-'' @ short_n (opts p ! i)) (put_val v # rest) p = (Returned, 1, give i v p)"
proof -
  have v: "i < length (opts p)" "has_short (opts p ! i)" "takes v False (opts p ! i)" using assms(2) by simp_all
  obtain c where c: "short_n (opts p ! i) = [c]" "c \<noteq> CHR ''-''" using v(2) by (auto simp: has_short_def)
  have f: "active (find_option_short c p) p = Some i" using find_short [OF assms(1) v(1,2) takes_args(3) [OF v(3)]] c(1) by simp
  show ?thesis
    using c f takes_args [OF v(3)] parse_option_put [OF v(3)] by (auto simp: parse_arg_def parse_short_def Let_def)
qed

text \<open>Giving a value to an option keeps the declarations, and with them what is valid.\<close>

lemma give_decl: "i < length (opts p) \<Longrightarrow> map decl (opts (give i v p)) = map decl (opts p)"
  by (simp add: give_def map_update list_update_same_conv)

lemma same_decl_nth:
  assumes "map decl xs = map decl ys" "i < length xs"
  shows "short_n (xs ! i) = short_n (ys ! i)" "long_n (xs ! i) = long_n (ys ! i)" "attrib (xs ! i) = attrib (ys ! i)" "opt_class (xs ! i) = opt_class (ys ! i)"
proof -
  have "decl (xs ! i) = decl (ys ! i)" using assms map_eq_imp_length_eq [OF assms(1)] by (metis nth_map)
  then show "short_n (xs ! i) = short_n (ys ! i)" "long_n (xs ! i) = long_n (ys ! i)" "attrib (xs ! i) = attrib (ys ! i)" "opt_class (xs ! i) = opt_class (ys ! i)"
    by (simp_all add: decl_def)
qed

lemma same_decl_valid:
  assumes d: "map decl (opts p) = map decl (opts q)" and v: "valid q it"
  shows "valid p it" "render p it = render q it"
proof -
  note l = map_eq_imp_length_eq [OF d]
  have n: "short_n (opts p ! i) = short_n (opts q ! i)" "long_n (opts p ! i) = long_n (opts q ! i)"
    "attrib (opts p ! i) = attrib (opts q ! i)" "opt_class (opts p ! i) = opt_class (opts q ! i)" if "i < length (opts q)" for i
    using same_decl_nth [OF d] that l by simp_all
  then have h: "has_long (opts p ! i) = has_long (opts q ! i)" "has_short (opts p ! i) = has_short (opts q ! i)"
    "takes v j (opts p ! i) = takes v j (opts q ! i)" if "i < length (opts q)" for i v j
    using that by (simp_all add: has_long_def has_short_def takes_def)
  show "valid p it" using v l n h by (cases it) simp_all
  show "render p it = render q it" using v n by (cases it) (simp_all cong: map_cong)
qed

lemma give_keeps: "wf_parser p \<Longrightarrow> i < length (opts p) \<Longrightarrow> val_type v = class_type (opt_class (opts p ! i)) \<Longrightarrow> wf_parser (give i v p)"
proof -
  assume w: "wf_parser p" and i: "i < length (opts p)" and v: "val_type v = class_type (opt_class (opts p ! i))"
  have "wt_opt (add_value v (opts p ! i))" using w i v wt_add_value by (simp add: wf_parser_def)
  then have "keeps p (give i v p)" using give_decl [OF i, of v] set_update_subset_insert [of "opts p" i] by (auto simp: keeps_def give_def)
  then show ?thesis using keeps_wf w by blast
qed

lemma short_loop_switches:
  assumes "wf_parser p" "valid p (Switches js) \<or> js = []"
  shows "short_loop (concat (map (\<lambda>j. short_n (opts p ! j)) js)) rest u p = (Returned, 0, u, fold (\<lambda>j. give j (VBool True)) js p)"
  using assms
proof (induction js arbitrary: p)
  case (Cons j js)
  have j: "j < length (opts p)" "has_short (opts p ! j)" "opt_class (opts p ! j) = CSwitch" "attrib (opts p ! j) \<noteq> Inactive"
    using Cons.prems(2) by simp_all
  obtain c where c: "short_n (opts p ! j) = [c]" using j(2) by (auto simp: has_short_def)
  have f: "active (find_option_short c p) p = Some j" using find_short [OF Cons.prems(1) j(1,2,4)] c by simp
  have o: "parse_option j Short_name [] p = (Returned, give j (VBool True) p)"
    by (simp add: parse_option_def Option_parse_def j(3) give_def)
  have d: "map decl (opts (give j (VBool True) p)) = map decl (opts p)" by (rule give_decl [OF j(1)])
  have w: "wf_parser (give j (VBool True) p)" using give_keeps [OF Cons.prems(1) j(1)] j(3) by simp
  have v: "valid (give j (VBool True) p) (Switches js) \<or> js = []"
    using same_decl_valid(1) [OF d, of "Switches js"] Cons.prems(2) by (cases "js = []") auto
  have r: "map (\<lambda>j. short_n (opts (give j' w p) ! j)) js = map (\<lambda>j. short_n (opts p ! j)) js" for j' w
  proof (rule map_cong [OF refl])
    fix k show "short_n (opts (give j' w p) ! k) = short_n (opts p ! k)"
      by (cases "j' < length (opts p)"; cases "k = j'") (simp_all add: give_def list_update_beyond)
  qed
  show ?case using Cons.IH [OF w v] f o j(3) c by (simp add: r argument_type_def)
qed simp

lemma parse_Switches:
  assumes "wf_parser p" "valid p (Switches js)"
  shows "parse_arg (''-'' @ concat (map (\<lambda>j. short_n (opts p ! j)) js)) rest p = (Returned, 0, meaning (Switches js) p)"
proof -
  obtain j js' c where "js = j # js'" "short_n (opts p ! j) = [c]" "c \<noteq> CHR ''-''"
    using assms(2) by (cases js) (auto simp: has_short_def)
  then show ?thesis
    using short_loop_switches [OF assms(1), of js rest False] assms(2) by (simp add: parse_arg_def parse_short_def)
qed

lemma parse_item:
  assumes "wf_parser p" "valid p it"
  shows "parse_args (render p it @ rest) p = parse_args rest (meaning it p)"
proof (cases it)
  case (Plain s)
  then show ?thesis using assms(2) by (cases s) (auto simp: parse_arg_def)
next
  case (Long_eq i v)
  then show ?thesis using parse_Long_eq [OF assms(1)] assms(2) by simp
next
  case (Long_next i v)
  then show ?thesis using parse_Long_next [OF assms(1)] assms(2) by simp
next
  case (Short_eq i v)
  then show ?thesis using parse_Short_eq [OF assms(1)] assms(2) by simp
next
  case (Short_next i v)
  then show ?thesis using parse_Short_next [OF assms(1)] assms(2) by simp
next
  case (Switches js)
  then show ?thesis using parse_Switches [OF assms(1)] assms(2) by simp
qed

section \<open>The whole line\<close>

fun item_vals :: "nat \<Rightarrow> item \<Rightarrow> val list" where
  "item_vals i (Plain s) = []"
| "item_vals i (Long_eq j v) = (if i = j then [v] else [])"
| "item_vals i (Long_next j v) = (if i = j then [v] else [])"
| "item_vals i (Short_eq j v) = (if i = j then [v] else [])"
| "item_vals i (Short_next j v) = (if i = j then [v] else [])"
| "item_vals i (Switches js) = map (\<lambda>_. VBool True) (filter (\<lambda>j. j = i) js)"

fun item_plain :: "item \<Rightarrow> string list" where
  "item_plain (Plain s) = [s]" | "item_plain _ = []"

lemma give_effect:
  assumes "i < length (opts p)"
  shows "vals (opts (give j v p) ! i) = vals (opts p ! i) @ (if i = j then [v] else [])"
  using assms by (simp add: give_def nth_list_update)

lemma fold_give_effect:
  "\<forall>j \<in> set js. j < length (opts p) \<Longrightarrow> map decl (opts (fold (\<lambda>j. give j w) js p)) = map decl (opts p) \<and>
    non_option_args (fold (\<lambda>j. give j w) js p) = non_option_args p \<and> unknown_options (fold (\<lambda>j. give j w) js p) = unknown_options p \<and>
    (\<forall>i < length (opts p). vals (opts (fold (\<lambda>j. give j w) js p) ! i) = vals (opts p ! i) @ map (\<lambda>_. w) (filter (\<lambda>j. j = i) js))"
proof (induction js arbitrary: p)
  case (Cons j js)
  then show ?case using Cons.IH [of "give j w p"] give_decl [of j p w] give_effect [of _ p j w]
    by (simp add: give_def)
qed simp

lemma meaning_effect:
  assumes "valid p it"
  shows "map decl (opts (meaning it p)) = map decl (opts p)" "non_option_args (meaning it p) = non_option_args p @ item_plain it"
    "unknown_options (meaning it p) = unknown_options p" "i < length (opts p) \<Longrightarrow> vals (opts (meaning it p) ! i) = vals (opts p ! i) @ item_vals i it"
  using assms give_decl [of _ p] give_effect [of i p] fold_give_effect [of _ p "VBool True"]
  by (cases it; simp add: give_def)+

lemma meaning_wf:
  assumes "wf_parser p" "valid p it"
  shows "wf_parser (meaning it p)"
proof (cases it)
  case (Switches js)
  have "\<forall>j \<in> set js. j < length (opts p) \<and> opt_class (opts p ! j) = CSwitch \<Longrightarrow> wf_parser p \<Longrightarrow> wf_parser (fold (\<lambda>j. give j (VBool True)) js p)" for js p
  proof (induction js arbitrary: p)
    case (Cons j js)
    have d: "map decl (opts (give j (VBool True) p)) = map decl (opts p)" using Cons.prems(1) by (simp add: give_decl)
    then have "\<forall>k \<in> set js. k < length (opts (give j (VBool True) p)) \<and> opt_class (opts (give j (VBool True) p) ! k) = CSwitch"
      using Cons.prems(1) same_decl_nth(4) [OF d] map_eq_imp_length_eq [OF d] by simp
    moreover have "wf_parser (give j (VBool True) p)" using give_keeps Cons.prems by simp
    ultimately show ?case using Cons.IH by simp
  qed simp
  then show ?thesis using Switches assms by simp
next
  case (Plain s)
  then show ?thesis using assms(1) by (simp add: wf_parser_def)
qed (use assms(2) give_keeps [OF assms(1)] in \<open>simp, metis takes_def class_type.simps\<close>)+

lemma parse_items:
  assumes "wf_parser p" "\<forall>it \<in> set items. valid p it"
  shows "\<exists>p'. parse_args (concat (map (render p) items) @ rest) p = parse_args rest p' \<and> wf_parser p' \<and> map decl (opts p') = map decl (opts p) \<and>
    (\<forall>i < length (opts p). vals (opts p' ! i) = vals (opts p ! i) @ concat (map (item_vals i) items)) \<and>
    non_option_args p' = non_option_args p @ concat (map item_plain items) \<and> unknown_options p' = unknown_options p"
  using assms
proof (induction items arbitrary: p)
  case (Cons it items)
  have v: "valid p it" using Cons.prems(2) by simp
  note m = meaning_effect [OF v]
  have e: "\<forall>it' \<in> set items. valid (meaning it p) it' \<and> render (meaning it p) it' = render p it'"
    using same_decl_valid [OF m(1)] Cons.prems(2) by simp
  then have r: "map (render (meaning it p)) items = map (render p) items" by simp
  have l: "length (opts (meaning it p)) = length (opts p)" using map_eq_imp_length_eq [OF m(1)] .
  obtain p' where p': "parse_args (concat (map (render p) items) @ rest) (meaning it p) = parse_args rest p'" "wf_parser p'" "map decl (opts p') = map decl (opts p)"
      "\<forall>i < length (opts p). vals (opts p' ! i) = vals (opts (meaning it p) ! i) @ concat (map (item_vals i) items)"
      "non_option_args p' = non_option_args (meaning it p) @ concat (map item_plain items)" "unknown_options p' = unknown_options p"
    using Cons.IH [OF meaning_wf [OF Cons.prems(1) v]] e unfolding r l m(1,3) by blast
  show ?case using p' m(2) m(4) parse_item [OF Cons.prems(1) v, of "concat (map (render p) items) @ rest"] by (intro exI [of _ p']) simp
qed auto

text \<open>What \<open>parse\<close> begins with.\<close>

definition cleared :: "parser \<Rightarrow> parser" where
  "cleared p = p\<lparr>unknown_options := [], non_option_args := [], opts := map Value_clear (opts p)\<rparr>"

lemma cleared_decl: "map decl (opts (cleared p)) = map decl (opts p)"
  by (simp add: cleared_def)

lemma cleared_wf: "wf_parser p \<Longrightarrow> wf_parser (cleared p)"
  using keeps_wf [of p "cleared p"] wt_clear by (auto simp: keeps_def cleared_def)

lemma cleared_items:
  assumes "built p" "\<forall>it \<in> set items. valid p it"
  shows "\<exists>p'. parse_args (concat (map (render p) items) @ rest) (cleared p) = parse_args rest p' \<and> wf_parser p' \<and> map decl (opts p') = map decl (opts p) \<and>
    (\<forall>i < length (opts p). vals (opts p' ! i) = concat (map (item_vals i) items)) \<and>
    non_option_args p' = concat (map item_plain items) \<and> unknown_options p' = []"
proof -
  note d = cleared_decl [of p]
  have v: "\<forall>it \<in> set items. valid (cleared p) it" and r: "map (render (cleared p)) items = map (render p) items"
    using same_decl_valid [OF d] assms(2) by simp_all
  then show ?thesis using parse_items [OF cleared_wf [OF wf_built [OF assms(1)]] v, of rest] unfolding r d by (simp add: cleared_def)
qed

text \<open>C22. Print and parse: a command line that gives options their values in any of the ways to write them, mixed with
  arguments, is parsed into exactly these values per option, in order, and these arguments; no argument is unknown. The
  one error left is that an option that is required was not given.\<close>

theorem options_render_parse:
  assumes "built p" "\<forall>it \<in> set items. valid p it"
  shows "\<exists>p'. OptionParser_parse (concat (map (render p) items)) p =
      (if \<exists>i < length (opts p). attrib (opts p ! i) = Required \<and> concat (map (item_vals i) items) = []
       then Invalid_option Missing_option Unspecified [] else Returned, p') \<and>
    (\<forall>i < length (opts p). vals (opts p' ! i) = concat (map (item_vals i) items)) \<and>
    non_option_args p' = concat (map item_plain items) \<and> unknown_options p' = []"
proof -
  obtain p' where p': "parse_args (concat (map (render p) items)) (cleared p) = (Returned, p')" "map decl (opts p') = map decl (opts p)"
      "\<forall>i < length (opts p). vals (opts p' ! i) = concat (map (item_vals i) items)" "non_option_args p' = concat (map item_plain items)"
      "unknown_options p' = []"
    using cleared_items [OF assms, of "[]"] by auto
  have l: "length (opts p') = length (opts p)" using map_eq_imp_length_eq [OF p'(2)] .
  have e: "(\<exists>o' \<in> set (opts p'). attrib o' = Required \<and> \<not> is_set o') \<longleftrightarrow>
      (\<exists>i < length (opts p). attrib (opts p ! i) = Required \<and> concat (map (item_vals i) items) = [])"
    using p'(3) l same_decl_nth(3) [OF p'(2)] by (auto simp: set_conv_nth is_set_def)
  show ?thesis
    unfolding OptionParser_parse_def Let_def cleared_def [symmetric] using p'(3-5) by (intro exI [of _ p']) (auto simp: p'(1) e)
qed

definition demo_parser :: parser where
  "demo_parser = CmdLine\<lparr>opts := opts CmdLine @ [\<lparr>short_n = ''n'', long_n = ''number'', descr = [], attrib = Required, opt_class = CValue TInt,
     dflt = None, assigned = None, vals = []\<rparr>]\<rparr>"

lemma built_demo: "built demo_parser"
proof (rule built_add [OF built_CmdLine])
  show "made \<lparr>short_n = ''n'', long_n = ''number'', descr = [], attrib = Optional, opt_class = CValue TInt, dflt = None, assigned = None, vals = []\<rparr>"
    by (rule made_Option [of TInt "''n''" "''number''" "[]"]) (simp add: Option_new_def)
  show "OptionParser_add Required \<lparr>short_n = ''n'', long_n = ''number'', descr = [], attrib = Optional, opt_class = CValue TInt, dflt = None,
      assigned = None, vals = []\<rparr> CmdLine = Inr demo_parser"
    by (simp add: OptionParser_add_def CmdLine_def demo_parser_def short_name_def)
qed

theorem options_render_parse_witness:
  "\<exists>p'. OptionParser_parse [''-vD'', ''--number=-12'', ''x'', ''-n'', ''7''] demo_parser = (Returned, p') \<and> vals (opts p' ! 3) = [VInt (- 12), VInt 7]"
proof -
  let ?items = "[Switches [1, 2], Long_eq 3 (VInt (- 12)), Plain ''x'', Short_next 3 (VInt 7)]"
  have o: "opts demo_parser ! 3 = \<lparr>short_n = ''n'', long_n = ''number'', descr = [], attrib = Required, opt_class = CValue TInt,
     dflt = None, assigned = None, vals = []\<rparr>" "length (opts demo_parser) = 4"
    by (simp_all add: demo_parser_def CmdLine_def nth_append)
  have "\<forall>it \<in> set ?items. valid demo_parser it"
    by (simp add: o has_long_def has_short_def takes_def) (simp add: demo_parser_def CmdLine_def nth_append has_short_def)
  note t = options_render_parse [OF built_demo this]
  have d: "put_val (VInt (- 12)) = ''-12''" "put_val (VInt 7) = ''7''"
    by (simp_all add: base_rep_step base_rep_small str_digit_def char_of_eq_iff)
  have r: "concat (map (render demo_parser) ?items) = [''-vD'', ''--number=-12'', ''x'', ''-n'', ''7'']"
    by (simp add: o d del: put_val.simps) (simp add: demo_parser_def CmdLine_def nth_append)
  have n: "\<not> (\<exists>i < length (opts demo_parser). attrib (opts demo_parser ! i) = Required \<and> concat (map (item_vals i) ?items) = [])"
  proof safe
    fix i assume i: "i < length (opts demo_parser)" "attrib (opts demo_parser ! i) = Required" "concat (map (item_vals i) ?items) = []"
    then consider "i = 0" | "i = 1" | "i = 2" | "i = 3" using o(2) by linarith
    then show False using i(2,3) by cases (simp_all add: demo_parser_def CmdLine_def)
  qed
  show ?thesis using t n unfolding r by (auto simp: o(2))
qed

text \<open>C23. \<open>--\<close> does not end the options: the arguments behind it are kept as arguments, as documented, but are then parsed
  all the same, so that options among them take effect and arguments among them are kept twice.\<close>

theorem options_double_dash:
  assumes "built p" "\<forall>it \<in> set xs. valid p it" "\<forall>it \<in> set ys. valid p it"
  shows "\<exists>r p'. OptionParser_parse (concat (map (render p) xs) @ ''--'' # concat (map (render p) ys)) p = (r, p') \<and>
    (\<forall>i < length (opts p). vals (opts p' ! i) = concat (map (item_vals i) (xs @ ys))) \<and>
    non_option_args p' = concat (map item_plain xs) @ concat (map (render p) ys) @ concat (map item_plain ys)"
proof -
  obtain p1 where p1: "parse_args (concat (map (render p) xs) @ ''--'' # concat (map (render p) ys)) (cleared p) = parse_args (''--'' # concat (map (render p) ys)) p1"
      "wf_parser p1" "map decl (opts p1) = map decl (opts p)"
      "\<forall>i < length (opts p). vals (opts p1 ! i) = concat (map (item_vals i) xs)" "non_option_args p1 = concat (map item_plain xs)"
    using cleared_items [OF assms(1,2), of "''--'' # concat (map (render p) ys)"] by blast
  define p2 where "p2 = p1\<lparr>non_option_args := non_option_args p1 @ concat (map (render p) ys)\<rparr>"
  have s: "parse_args (''--'' # concat (map (render p) ys)) p1 = parse_args (concat (map (render p) ys)) p2" by (simp add: parse_arg_def p2_def)
  have w: "wf_parser p2" using p1(2) by (simp add: p2_def wf_parser_def)
  have d: "map decl (opts p2) = map decl (opts p)" using p1(3) by (simp add: p2_def)
  have v: "\<forall>it \<in> set ys. valid p2 it" and r: "map (render p2) ys = map (render p) ys"
    using same_decl_valid [OF d] assms(3) by simp_all
  obtain p' where p': "parse_args (concat (map (render p) ys)) p2 = (Returned, p')"
      "\<forall>i < length (opts p). vals (opts p' ! i) = vals (opts p2 ! i) @ concat (map (item_vals i) ys)"
      "non_option_args p' = non_option_args p2 @ concat (map item_plain ys)"
    using parse_items [OF w v, of "[]"] map_eq_imp_length_eq [OF d] unfolding r by auto
  have "\<exists>r. OptionParser_parse (concat (map (render p) xs) @ ''--'' # concat (map (render p) ys)) p = (r, p')"
    unfolding OptionParser_parse_def Let_def cleared_def [symmetric] p1(1) s p'(1) by simp
  then show ?thesis using p'(2,3) p1(4,5) by (auto simp: p2_def)
qed

theorem options_double_dash_witness:
  "\<exists>r p'. OptionParser_parse [''a'', ''--'', ''-v'', ''b''] CmdLine = (r, p') \<and> vals (opts p' ! 1) = [VBool True] \<and> non_option_args p' = [''a'', ''-v'', ''b'', ''b'']"
proof -
  have "\<forall>it \<in> set [Plain ''a'']. valid CmdLine it" "\<forall>it \<in> set [Switches [1], Plain ''b'']. valid CmdLine it" "length (opts CmdLine) = 3"
    by (simp_all add: CmdLine_def has_short_def)
  from options_double_dash [OF built_CmdLine this(1,2)] this(3) show ?thesis by (auto simp: CmdLine_def)
qed

end
