(* ===== verification/Files.thy ===== *)
theory Files
  imports IoDevice
begin

text \<open>
  Files and terminals as devices: \<open>FileDevice\<close> (\<open>src/filedevice.cpp\<close>), \<open>FileStream\<close> (\<open>src/filestream.cpp\<close>) and the
  opening and closing of \<open>Terminal\<close> (\<open>src/terminal.cpp\<close>), the base classes of the serial port.

  The operating system and the buffer of the C++ stream are parameters: opening, closing and writing the file, attaching
  a stream buffer to it and writing through it, and the thread that notifies a terminal of its input. The methods
  \<open>open\<close> and \<open>close\<close> of the private part are virtual; the functions of \<open>FileDevice\<close> take the ones of the class as
  arguments.
\<close>

unbundle bit_operations_syntax

section \<open>The operating system\<close>

record 'e file_os =
  f_open :: "string \<Rightarrow> u32 \<Rightarrow> 'e \<Rightarrow> int \<times> int \<times> 'e"
  f_close :: "int \<Rightarrow> 'e \<Rightarrow> int \<times> int \<times> 'e"
  f_read :: "int \<Rightarrow> nat \<Rightarrow> 'e \<Rightarrow> int \<times> u8 list \<times> int \<times> 'e"
  f_write :: "int \<Rightarrow> u8 list \<Rightarrow> 'e \<Rightarrow> int \<times> int \<times> 'e"
  f_getfl :: "int \<Rightarrow> 'e \<Rightarrow> int"
  f_strerror :: "int \<Rightarrow> string"
  ios_attach :: "int \<Rightarrow> u32 \<Rightarrow> 'e \<Rightarrow> 'e"
  ios_close :: "'e \<Rightarrow> 'e"
  ios_write :: "u8 list \<Rightarrow> 'e \<Rightarrow> bool \<times> 'e"
  ios_flush :: "'e \<Rightarrow> 'e"
  notifier_start :: "'e \<Rightarrow> bool \<times> 'e"
  notifier_terminate :: "'e \<Rightarrow> 'e"

section \<open>Files\<close>

record filedev = iodevice +
  f_fd :: int
  ourFile :: bool
  f_path :: string

definition FileDevice_new :: filedev where
  "FileDevice_new = iodevice.extend iodevice_new (filedev.fields (- 1) True [])"

definition FileDevice_Private_open :: "('e, 'z) file_os_scheme \<Rightarrow> u32 \<Rightarrow> u32 \<Rightarrow> 'a filedev_scheme \<times> 'e \<Rightarrow> bool \<times> 'a filedev_scheme \<times> 'e" where
  "FileDevice_Private_open os m extra = (\<lambda>(d, e).
     let flags = (extra AND NOT (3 OR O_APPEND OR O_TRUNC)) OR modeToPosixFlags m;
       (f, errno, e) = f_open os (f_path d) flags e;
       d = d\<lparr>f_fd := f\<rparr>
     in if f = - 1 then (False, IoDevice_setError (f_strerror os) errno d, e)
       else let (ok, d) = IoDevice_Private_open m d in (ok, d, e))"

definition FileDevice_Private_close :: "('e, 'z) file_os_scheme \<Rightarrow> 'a filedev_scheme \<times> 'e \<Rightarrow> 'a filedev_scheme \<times> 'e" where
  "FileDevice_Private_close os = (\<lambda>(d, e).
     let (ret, errno, e) = f_close os (f_fd d) e;
       d = (if ret \<noteq> 0 then IoDevice_setError (f_strerror os) errno d else d)
     in (IoDevice_Private_close (d\<lparr>f_fd := - 1\<rparr>), e))"

definition FileDevice_open :: "(u32 \<Rightarrow> u32 \<Rightarrow> 'a filedev_scheme \<times> 'e \<Rightarrow> bool \<times> 'a filedev_scheme \<times> 'e) \<Rightarrow> u32 \<Rightarrow>
    'a filedev_scheme \<times> 'e \<Rightarrow> bool \<times> 'a filedev_scheme \<times> 'e" where
  "FileDevice_open popen m = (\<lambda>(d, e). if \<not> IoDevice_isOpen d \<and> ourFile d then popen m 0 (d, e) else (IoDevice_isOpen d, d, e))"

definition FileDevice_close :: "('a filedev_scheme \<times> 'e \<Rightarrow> 'a filedev_scheme \<times> 'e) \<Rightarrow> 'a filedev_scheme \<times> 'e \<Rightarrow> 'a filedev_scheme \<times> 'e" where
  "FileDevice_close pclose = (\<lambda>(d, e). if IoDevice_isOpen d \<and> ourFile d then pclose (d, e) else (d, e))"

definition FileDevice_setPath :: "('a filedev_scheme \<times> 'e \<Rightarrow> 'a filedev_scheme \<times> 'e) \<Rightarrow> string \<Rightarrow> 'a filedev_scheme \<times> 'e \<Rightarrow> 'a filedev_scheme \<times> 'e" where
  "FileDevice_setPath pclose path s = (let (d, e) = FileDevice_close pclose s in (d\<lparr>f_path := path, ourFile := True, f_fd := - 1\<rparr>, e))"

definition FileDevice_setFd :: "('e, 'z) file_os_scheme \<Rightarrow> ('a filedev_scheme \<times> 'e \<Rightarrow> 'a filedev_scheme \<times> 'e) \<Rightarrow> int \<Rightarrow> 'a filedev_scheme \<times> 'e \<Rightarrow> bool \<times> 'a filedev_scheme \<times> 'e" where
  "FileDevice_setFd os pclose fdesc = (\<lambda>(d, e). let flags = f_getfl os fdesc e in
     if fdesc \<noteq> f_fd d \<and> flags \<ge> 0 then
       let (d, e) = FileDevice_close pclose (d, e); acc = (of_int flags AND 3 :: u32);
         m = (if acc = O_RDONLY then ReadOnly else if acc = O_WRONLY then WriteOnly else if acc = O_RDWR then ReadWrite else NotOpen)
       in if m \<noteq> NotOpen then
         let m = (if of_int flags AND O_APPEND \<noteq> (0 :: u32) then m OR Append else m);
           (ok, d) = IoDevice_open m (d\<lparr>f_fd := fdesc, ourFile := False, f_path := []\<rparr>)
         in (ok, d, e)
       else (IoDevice_isOpen d, d, e)
     else (IoDevice_isOpen d, d, e))"

definition FileDevice_read :: "('e, 'z) file_os_scheme \<Rightarrow> nat \<Rightarrow> 'a filedev_scheme \<times> 'e \<Rightarrow> int \<times> u8 list \<times> 'a filedev_scheme \<times> 'e" where
  "FileDevice_read os n = (\<lambda>(d, e). if openMode d AND ReadOnly \<noteq> 0
     then let (len, buf, errno, e) = f_read os (f_fd d) n e
       in (len, buf, if len < 0 then IoDevice_setError (f_strerror os) errno d else d, e)
     else (- 1, [], d, e))"

definition FileDevice_write :: "('e, 'z) file_os_scheme \<Rightarrow> u8 list \<Rightarrow> 'a filedev_scheme \<times> 'e \<Rightarrow> int \<times> 'a filedev_scheme \<times> 'e" where
  "FileDevice_write os buf = (\<lambda>(d, e). if openMode d AND WriteOnly \<noteq> 0
     then let (len, errno, e) = f_write os (f_fd d) buf e
       in (len, if len < 0 then IoDevice_setError (f_strerror os) errno d else d, e)
     else (- 1, d, e))"

section \<open>Streams and terminals\<close>

definition FileStream_Private_open :: "('e, 'z) file_os_scheme \<Rightarrow> u32 \<Rightarrow> u32 \<Rightarrow> 'a filedev_scheme \<times> 'e \<Rightarrow> bool \<times> 'a filedev_scheme \<times> 'e" where
  "FileStream_Private_open os m extra s = (let (ok, d, e) = FileDevice_Private_open os m extra s
     in if ok then (True, d, ios_attach os (f_fd d) m e) else (False, d, e))"

text \<open>The buffer closes the descriptor. The open mode of the device is left as it is.\<close>

definition FileStream_Private_close :: "('e, 'z) file_os_scheme \<Rightarrow> 'a filedev_scheme \<times> 'e \<Rightarrow> 'a filedev_scheme \<times> 'e" where
  "FileStream_Private_close os = (\<lambda>(d, e). (d\<lparr>f_fd := - 1\<rparr>, ios_close os e))"

definition FileStream_write :: "('e, 'z) file_os_scheme \<Rightarrow> u8 list \<Rightarrow> 'a filedev_scheme \<times> 'e \<Rightarrow> int \<times> 'a filedev_scheme \<times> 'e" where
  "FileStream_write os data = (\<lambda>(d, e). if openMode d AND WriteOnly \<noteq> 0
     then let (good, e) = ios_write os data e in (if good then int (length data) else - 1, d, e)
     else (- 1, d, e))"

definition Terminal_Private_open :: "('e, 'z) file_os_scheme \<Rightarrow> u32 \<Rightarrow> u32 \<Rightarrow> 'a filedev_scheme \<times> 'e \<Rightarrow> bool \<times> 'a filedev_scheme \<times> 'e" where
  "Terminal_Private_open os m extra s = (let (ok, d, e) = FileStream_Private_open os m extra s in
     if ok then let (started, e) = notifier_start os e in
       if started then (True, d, e) else (False, FileStream_Private_close os (d, e))
     else (False, d, e))"

definition Terminal_Private_close :: "('e, 'z) file_os_scheme \<Rightarrow> 'a filedev_scheme \<times> 'e \<Rightarrow> 'a filedev_scheme \<times> 'e" where
  "Terminal_Private_close os = (\<lambda>(d, e). FileStream_Private_close os (d, notifier_terminate os e))"

section \<open>Opening again\<close>

text \<open>A class of files whose \<open>open\<close> and \<open>close\<close> can be used in turn: \<open>close\<close> makes the device closed. \<open>FileDevice\<close> is
  one: what is opened again is opened through the kernel again.\<close>

locale reopenable =
  fixes popen :: "u32 \<Rightarrow> u32 \<Rightarrow> 'a filedev_scheme \<times> 'e \<Rightarrow> bool \<times> 'a filedev_scheme \<times> 'e"
    and pclose :: "'a filedev_scheme \<times> 'e \<Rightarrow> 'a filedev_scheme \<times> 'e"
  assumes closed: "\<not> IoDevice_isOpen (fst (pclose s))"
    and ours: "ourFile (fst (pclose s)) = ourFile (fst s)"
begin

lemma reopen:
  assumes "IoDevice_isOpen (fst s)" "ourFile (fst s)"
  shows "FileDevice_open popen m (FileDevice_close pclose s) = popen m 0 (pclose s)"
  using assms closed [of s] ours [of s] by (auto simp: FileDevice_open_def FileDevice_close_def split: prod.splits)

end

lemma FileDevice_Private_close_mode: "openMode (fst (FileDevice_Private_close os s)) = NotOpen" "ourFile (fst (FileDevice_Private_close os s)) = ourFile (fst s)"
  by (auto simp: FileDevice_Private_close_def IoDevice_Private_close_def IoDevice_setError_def split: prod.splits)

interpretation fdev: reopenable "FileDevice_Private_open os" "FileDevice_Private_close os"
  by unfold_locales (simp_all add: FileDevice_Private_close_mode)

text \<open>A stream or a terminal is not: its \<open>close\<close> leaves the mode.\<close>

lemma stream_close_keeps_mode:
  "openMode (fst (FileStream_Private_close os s)) = openMode (fst s)" "openMode (fst (Terminal_Private_close os s)) = openMode (fst s)"
  "ourFile (fst (FileStream_Private_close os s)) = ourFile (fst s)" "ourFile (fst (Terminal_Private_close os s)) = ourFile (fst s)"
  "f_fd (fst (FileStream_Private_close os s)) = - 1" "f_fd (fst (Terminal_Private_close os s)) = - 1"
  by (auto simp: FileStream_Private_close_def Terminal_Private_close_def split: prod.splits)

text \<open>C31. After \<open>close\<close> a file device is closed and \<open>open\<close> asks the kernel again, but a stream or terminal still counts as
  open: \<open>open\<close> then reports success at once, in the old mode, without a call of the system and without a file.\<close>

theorem stream_reopen_does_nothing:
  assumes "IoDevice_isOpen (fst s)" "ourFile (fst s)"
  shows "FileDevice_open (FileDevice_Private_open os) m (FileDevice_close (FileDevice_Private_close os) s) =
      FileDevice_Private_open os m 0 (FileDevice_Private_close os s) \<and>
    FileDevice_open (Terminal_Private_open os) m (FileDevice_close (Terminal_Private_close os) s) = (True, Terminal_Private_close os s) \<and>
    openMode (fst (Terminal_Private_close os s)) = openMode (fst s) \<and> f_fd (fst (Terminal_Private_close os s)) = - 1"
proof -
  have "FileDevice_open (Terminal_Private_open os) m (FileDevice_close (Terminal_Private_close os) s) = (True, Terminal_Private_close os s)"
    using assms stream_close_keeps_mode(2) [of os s] by (auto simp: FileDevice_open_def FileDevice_close_def split: prod.splits)
  then show ?thesis using fdev.reopen [OF assms] stream_close_keeps_mode by blast
qed

text \<open>A simulated system: the descriptors that are open, what is in the buffer and what was written.\<close>

record file_sim =
  fs_fds :: "int list"
  fs_buf :: "u8 list"
  fs_out :: "u8 list"

definition file_sim_os :: "file_sim file_os" where
  "file_sim_os = \<lparr>f_open = (\<lambda>p fl e. (3, 0, e\<lparr>fs_fds := 3 # fs_fds e\<rparr>)),
     f_close = (\<lambda>f e. if f \<in> set (fs_fds e) then (0, 0, e\<lparr>fs_fds := removeAll f (fs_fds e)\<rparr>) else (- 1, 9, e)),
     f_read = (\<lambda>f n e. (0, [], 0, e)), f_write = (\<lambda>f bs e. (int (length bs), 0, e\<lparr>fs_out := fs_out e @ bs\<rparr>)),
     f_getfl = (\<lambda>f e. 2), f_strerror = (\<lambda>n. []), ios_attach = (\<lambda>f m e. e\<lparr>fs_buf := []\<rparr>),
     ios_close = (\<lambda>e. e\<lparr>fs_fds := [], fs_out := fs_out e @ fs_buf e, fs_buf := []\<rparr>),
     ios_write = (\<lambda>bs e. (True, e\<lparr>fs_buf := fs_buf e @ bs\<rparr>)), ios_flush = (\<lambda>e. e\<lparr>fs_out := fs_out e @ fs_buf e, fs_buf := []\<rparr>),
     notifier_start = (\<lambda>e. (True, e)), notifier_terminate = (\<lambda>e. e)\<rparr>"

theorem stream_reopen_does_nothing_witness:
  "\<exists>d. IoDevice_isOpen d \<and> f_fd d = - 1 \<and>
    FileDevice_open (Terminal_Private_open file_sim_os) ReadWrite (FileDevice_close (Terminal_Private_close file_sim_os)
      (FileDevice_new\<lparr>openMode := ReadWrite, f_fd := 3\<rparr>, \<lparr>fs_fds = [3], fs_buf = [], fs_out = []\<rparr>)) = (True, d, \<lparr>fs_fds = [], fs_buf = [], fs_out = []\<rparr>)"
proof -
  let ?s = "(FileDevice_new\<lparr>openMode := ReadWrite, f_fd := 3\<rparr>, \<lparr>fs_fds = [3 :: int], fs_buf = [] :: u8 list, fs_out = []\<rparr>)"
  have "IoDevice_isOpen (fst ?s)" "ourFile (fst ?s)" by (simp_all add: FileDevice_new_def filedev.defs iodevice.defs iodevice_new_def)
  note t = stream_reopen_does_nothing [OF this, of file_sim_os ReadWrite]
  moreover have "Terminal_Private_close file_sim_os ?s = (fst (Terminal_Private_close file_sim_os ?s), \<lparr>fs_fds = [], fs_buf = [], fs_out = []\<rparr>)"
    by (simp add: Terminal_Private_close_def FileStream_Private_close_def file_sim_os_def)
  ultimately show ?thesis by (intro exI [of _ "fst (Terminal_Private_close file_sim_os ?s)"]) simp
qed

end
