(* ===== verification/Serial.thy ===== *)
theory Serial
  imports Files Strings
begin

text \<open>
  The serial port: \<open>SerialPort\<close> (\<open>src/serial/serialport.cpp\<close>, \<open>include/piduino/serialport.h\<close>) and the Arduino class
  \<open>HardwareSerial\<close> over it (\<open>src/arduino/serial/HardwareSerial.cpp\<close>).

  The terminal driver is a parameter: every request takes the descriptor and returns its result, what it reads, \<open>errno\<close>
  and the new state of the system. \<open>termios\<close> has the four flag words and the two control characters that the class
  uses, and the speeds; \<open>struct termios2\<close> is the same record. The flags are those of Linux. A direction is the pair of its
  two flags, input and output. \<open>unsigned long\<close> has 64 bits. \<open>None\<close> is a division by zero.
\<close>

unbundle bit_operations_syntax

section \<open>The terminal driver\<close>

record termios =
  c_iflag :: u32
  c_oflag :: u32
  c_cflag :: u32
  c_lflag :: u32
  c_vtime :: u8
  c_vmin :: u8
  c_ispeed :: u32
  c_ospeed :: u32

abbreviation (input) IGNPAR :: u32 where "IGNPAR \<equiv> 0x4"
abbreviation (input) PARMRK :: u32 where "PARMRK \<equiv> 0x8"
abbreviation (input) INPCK :: u32 where "INPCK \<equiv> 0x10"
abbreviation (input) IGNCR :: u32 where "IGNCR \<equiv> 0x80"
abbreviation (input) IX_ALL :: u32 where "IX_ALL \<equiv> 0x1C00"
abbreviation (input) ONLCR :: u32 where "ONLCR \<equiv> 0x4"
abbreviation (input) CSIZE :: u32 where "CSIZE \<equiv> 0x30"
abbreviation (input) CSTOPB :: u32 where "CSTOPB \<equiv> 0x40"
abbreviation (input) CREAD :: u32 where "CREAD \<equiv> 0x80"
abbreviation (input) PARENB :: u32 where "PARENB \<equiv> 0x100"
abbreviation (input) PARODD :: u32 where "PARODD \<equiv> 0x200"
abbreviation (input) CLOCAL :: u32 where "CLOCAL \<equiv> 0x800"
abbreviation (input) BOTHER :: u32 where "BOTHER \<equiv> 0x1000"
abbreviation (input) CBAUD :: u32 where "CBAUD \<equiv> 0x100F"
abbreviation (input) CMSPAR :: u32 where "CMSPAR \<equiv> 0x40000000"
abbreviation (input) CRTSCTS :: u32 where "CRTSCTS \<equiv> 0x80000000"
abbreviation (input) TIOCM_DTR :: u32 where "TIOCM_DTR \<equiv> 0x2"
abbreviation (input) TIOCM_RTS :: u32 where "TIOCM_RTS \<equiv> 0x4"
abbreviation (input) ASYNC_SPD_CUST :: u32 where "ASYNC_SPD_CUST \<equiv> 0x30"
abbreviation (input) ASYNC_SPD_MASK :: u32 where "ASYNC_SPD_MASK \<equiv> 0x1030"

text \<open>\<open>cfmakeraw\<close> of the C library.\<close>

definition cfmakeraw :: "termios \<Rightarrow> termios" where
  "cfmakeraw t = t\<lparr>c_iflag := c_iflag t AND NOT 0x5EB, c_oflag := c_oflag t AND NOT 0x1, c_lflag := c_lflag t AND NOT 0x804B,
     c_cflag := (c_cflag t AND NOT (CSIZE OR PARENB)) OR 0x30\<rparr>"

record serial_struct =
  ser_flags :: u32
  custom_divisor :: int
  baud_base :: int

type_synonym ('r, 'e) request = "int \<Rightarrow> 'e \<Rightarrow> int \<times> 'r \<times> int \<times> 'e"

record 'e serial_os = "'e file_os" +
  tcgetattr :: "(termios, 'e) request"
  tcsetattr :: "termios \<Rightarrow> (unit, 'e) request"
  tcgets2 :: "(termios, 'e) request"
  tcsets2 :: "termios \<Rightarrow> (unit, 'e) request"
  tiocgserial :: "(serial_struct, 'e) request"
  tiocsserial :: "serial_struct \<Rightarrow> (unit, 'e) request"
  tiocmget :: "(u32, 'e) request"
  tiocmset :: "u32 \<Rightarrow> (unit, 'e) request"
  tiocmbis :: "u32 \<Rightarrow> (unit, 'e) request"
  tiocmbic :: "u32 \<Rightarrow> (unit, 'e) request"
  tiocexcl :: "bool \<Rightarrow> (unit, 'e) request"
  tiocbrk :: "bool \<Rightarrow> (unit, 'e) request"
  tcsendbreak :: "int \<Rightarrow> (unit, 'e) request"
  tcflush :: "bool \<times> bool \<Rightarrow> (unit, 'e) request"
  flock :: "bool \<Rightarrow> (unit, 'e) request"
  isatty :: "int \<Rightarrow> 'e \<Rightarrow> bool"
  cfsetispeed :: "u32 \<Rightarrow> termios \<Rightarrow> int \<times> termios"
  cfsetospeed :: "u32 \<Rightarrow> termios \<Rightarrow> int \<times> termios"
  cur_errno :: "'e \<Rightarrow> int"
  delayUs :: "64 word \<Rightarrow> 'e \<Rightarrow> 'e"
  ios_begin :: "'e \<Rightarrow> 'e"
  ios_end :: "'e \<Rightarrow> 'e"

section \<open>Settings\<close>

datatype data_bits = Data5 | Data6 | Data7 | Data8 | UnknownDataBits

datatype parity = NoParity | EvenParity | OddParity | SpaceParity | MarkParity | UnknownParity

datatype stop_bits = OneStop | TwoStop | UnknownStopBits

datatype flow_control = NoFlowControl | HardwareControl | SoftwareControl | Rs485AfterSendControl | Rs485OnSendControl | UnknownFlowControl

fun data_num :: "data_bits \<Rightarrow> int" where
  "data_num Data5 = 5" | "data_num Data6 = 6" | "data_num Data7 = 7" | "data_num Data8 = 8" | "data_num UnknownDataBits = - 1"

fun stop_num :: "stop_bits \<Rightarrow> int" where
  "stop_num OneStop = 1" | "stop_num TwoStop = 2" | "stop_num UnknownStopBits = - 1"

record serial_settings =
  inputBaudRate :: int
  outputBaudRate :: int
  dataBits :: data_bits
  parity :: parity
  stopBits :: stop_bits
  flowControl :: flow_control
  onebyteTime :: "64 word"
  rs485Delay :: "64 word"

definition updateOneByteTime :: "serial_settings \<Rightarrow> serial_settings option" where
  "updateOneByteTime c = (if outputBaudRate c = 0 then None else
     let t = (1000000 * of_int (1 + data_num (dataBits c) + (if parity c = NoParity then 0 else 1) + stop_num (stopBits c))) div
         of_int (outputBaudRate c)
     in Some (c\<lparr>onebyteTime := t, rs485Delay := t\<rparr>))"

definition SerialSettings_new :: "int \<Rightarrow> data_bits \<Rightarrow> parity \<Rightarrow> stop_bits \<Rightarrow> flow_control \<Rightarrow> serial_settings option" where
  "SerialSettings_new baud db par sb fc = updateOneByteTime \<lparr>inputBaudRate = baud, outputBaudRate = baud, dataBits = db, parity = par,
     stopBits = sb, flowControl = fc, onebyteTime = 0, rs485Delay = 0\<rparr>"

section \<open>Terminal attributes\<close>

definition setTioCommonProps :: "u32 \<Rightarrow> termios \<Rightarrow> termios" where
  "setTioCommonProps m t = (
     let t = cfmakeraw t;
       t = (if m AND Binary = 0 then t\<lparr>c_iflag := c_iflag t OR IGNCR, c_oflag := c_oflag t OR ONLCR\<rparr> else t);
       t = t\<lparr>c_vtime := 0, c_vmin := 0, c_cflag := c_cflag t OR CLOCAL\<rparr>
     in if m AND ReadOnly \<noteq> 0 then t\<lparr>c_cflag := c_cflag t OR CREAD\<rparr> else t)"

definition setTioDatabits :: "data_bits \<Rightarrow> termios \<Rightarrow> termios" where
  "setTioDatabits b t = t\<lparr>c_cflag := (c_cflag t AND NOT CSIZE) OR
     (case b of Data5 \<Rightarrow> 0 | Data6 \<Rightarrow> 0x10 | Data7 \<Rightarrow> 0x20 | Data8 \<Rightarrow> 0x30 | UnknownDataBits \<Rightarrow> 0x30)\<rparr>"

definition setTioParity :: "parity \<Rightarrow> termios \<Rightarrow> termios" where
  "setTioParity p t = (let t = t\<lparr>c_iflag := (c_iflag t AND NOT (PARMRK OR INPCK)) OR IGNPAR\<rparr> in case p of
     SpaceParity \<Rightarrow> t\<lparr>c_cflag := (c_cflag t AND NOT PARODD) OR (PARENB OR CMSPAR)\<rparr>
   | MarkParity \<Rightarrow> t\<lparr>c_cflag := c_cflag t OR (PARENB OR CMSPAR OR PARODD)\<rparr>
   | NoParity \<Rightarrow> t\<lparr>c_cflag := c_cflag t AND NOT PARENB\<rparr>
   | EvenParity \<Rightarrow> t\<lparr>c_cflag := (c_cflag t AND NOT PARODD) OR PARENB\<rparr>
   | OddParity \<Rightarrow> t\<lparr>c_cflag := c_cflag t OR (PARENB OR PARODD)\<rparr>
   | UnknownParity \<Rightarrow> t\<lparr>c_cflag := c_cflag t OR PARENB, c_iflag := (c_iflag t OR (PARMRK OR INPCK)) AND NOT IGNPAR\<rparr>)"

definition setTioStopbits :: "stop_bits \<Rightarrow> termios \<Rightarrow> termios" where
  "setTioStopbits b t = (case b of TwoStop \<Rightarrow> t\<lparr>c_cflag := c_cflag t OR CSTOPB\<rparr> | _ \<Rightarrow> t\<lparr>c_cflag := c_cflag t AND NOT CSTOPB\<rparr>)"

definition setTioFlowcontrol :: "flow_control \<Rightarrow> termios \<Rightarrow> termios" where
  "setTioFlowcontrol f t = (case f of
     HardwareControl \<Rightarrow> t\<lparr>c_cflag := c_cflag t OR CRTSCTS, c_iflag := c_iflag t AND NOT IX_ALL\<rparr>
   | SoftwareControl \<Rightarrow> t\<lparr>c_cflag := c_cflag t AND NOT CRTSCTS, c_iflag := c_iflag t OR IX_ALL\<rparr>
   | _ \<Rightarrow> t\<lparr>c_cflag := c_cflag t AND NOT CRTSCTS, c_iflag := c_iflag t AND NOT IX_ALL\<rparr>)"

text \<open>The rates that Linux has a code for.\<close>

definition standardBaudRateMap :: "(int \<times> int) list" where
  "standardBaudRateMap = [(50, 1), (75, 2), (110, 3), (134, 4), (150, 5), (200, 6), (300, 7), (600, 8), (1200, 9), (1800, 10), (2400, 11),
     (4800, 12), (9600, 13), (19200, 14), (38400, 15), (57600, 0x1001), (115200, 0x1002), (230400, 0x1003), (460800, 0x1004),
     (500000, 0x1005), (576000, 0x1006), (921600, 0x1007), (1000000, 0x1008), (1152000, 0x1009), (1500000, 0x100A), (2000000, 0x100B),
     (2500000, 0x100C), (3000000, 0x100D), (3500000, 0x100E), (4000000, 0x100F)]"

definition settingFromBaudRate :: "int \<Rightarrow> int" where
  "settingFromBaudRate baud = (case map_of standardBaudRateMap baud of None \<Rightarrow> 0 | Some c \<Rightarrow> c)"

section \<open>The private part\<close>

record serialport = filedev +
  restoredTermios :: termios
  settingsRestoredOnClose :: bool
  isBreakEnabled :: bool
  settings :: serial_settings

definition Private_ioctl :: "'e serial_os \<Rightarrow> ('r, 'e) request \<Rightarrow> serialport \<times> 'e \<Rightarrow> int \<times> 'r \<times> serialport \<times> 'e" where
  "Private_ioctl os req = (\<lambda>(d, e). let (ret, v, errno, e) = req (f_fd d) e
     in (ret, v, if ret < 0 then IoDevice_setError (f_strerror os) errno d else d, e))"

definition setTermios :: "'e serial_os \<Rightarrow> termios \<Rightarrow> serialport \<times> 'e \<Rightarrow> bool \<times> serialport \<times> 'e" where
  "setTermios os t s = (let (ret, _, s) = Private_ioctl os (tcsetattr os t) s in (\<not> ret < 0, s))"

definition getTermios :: "'e serial_os \<Rightarrow> serialport \<times> 'e \<Rightarrow> bool \<times> termios \<times> serialport \<times> 'e" where
  "getTermios os s = (let (ret, t, s) = Private_ioctl os (tcgetattr os) s in (\<not> ret < 0, t, s))"

definition change_termios :: "'e serial_os \<Rightarrow> (termios \<Rightarrow> termios) \<Rightarrow> serialport \<times> 'e \<Rightarrow> bool \<times> serialport \<times> 'e" where
  "change_termios os f s = (let (ok, t, s) = getTermios os s in if \<not> ok then (False, s) else setTermios os (f t) s)"

definition Serial_Private_setDataBits :: "'e serial_os \<Rightarrow> serialport \<times> 'e \<Rightarrow> bool \<times> serialport \<times> 'e" where
  "Serial_Private_setDataBits os s = change_termios os (setTioDatabits (dataBits (settings (fst s)))) s"

definition Serial_Private_setParity :: "'e serial_os \<Rightarrow> serialport \<times> 'e \<Rightarrow> bool \<times> serialport \<times> 'e" where
  "Serial_Private_setParity os s = change_termios os (setTioParity (parity (settings (fst s)))) s"

definition Serial_Private_setStopBits :: "'e serial_os \<Rightarrow> serialport \<times> 'e \<Rightarrow> bool \<times> serialport \<times> 'e" where
  "Serial_Private_setStopBits os s = change_termios os (setTioStopbits (stopBits (settings (fst s)))) s"

definition Serial_Private_setFlowControl :: "'e serial_os \<Rightarrow> serialport \<times> 'e \<Rightarrow> bool \<times> serialport \<times> 'e" where
  "Serial_Private_setFlowControl os s = (
     let (success, s) = change_termios os (setTioFlowcontrol (flowControl (settings (fst s)))) s
     in if \<not> success then (False, s)
       else let (ret, status, s) = Private_ioctl os (tiocmget os) s in
         if ret \<noteq> 0 then (False, s)
         else let (ret, _, s) = Private_ioctl os (tiocmset os (status OR TIOCM_DTR OR TIOCM_RTS)) s in (ret = 0, s))"

definition setStandardBaudRate :: "'e serial_os \<Rightarrow> int \<Rightarrow> bool \<times> bool \<Rightarrow> serialport \<times> 'e \<Rightarrow> bool \<times> serialport \<times> 'e" where
  "setStandardBaudRate os code dirs s = (
     let (ret, t2, s) = Private_ioctl os (tcgets2 os) s;
       s = (if ret \<noteq> - 1 \<and> c_cflag t2 AND BOTHER \<noteq> 0
         then snd (snd (Private_ioctl os (tcsets2 os (t2\<lparr>c_cflag := (c_cflag t2 AND NOT BOTHER) OR CBAUD\<rparr>)) s)) else s);
       (ret, ser, s) = Private_ioctl os (tiocgserial os) s;
       s = (if ret \<noteq> - 1 \<and> ser_flags ser AND ASYNC_SPD_CUST \<noteq> 0
         then snd (snd (Private_ioctl os (tiocsserial os (ser\<lparr>ser_flags := ser_flags ser AND NOT ASYNC_SPD_CUST, custom_divisor := 0\<rparr>)) s)) else s);
       (ok, t, s) = getTermios os s
     in if \<not> ok then (False, s) else
       let (ret, t) = (if fst dirs then cfsetispeed os (of_int code) t else (0, t)) in
       if ret < 0 then (False, IoDevice_setError (f_strerror os) (cur_errno os (snd s)) (fst s), snd s) else
       let (ret, t) = (if snd dirs then cfsetospeed os (of_int code) t else (0, t)) in
       if ret < 0 then (False, IoDevice_setError (f_strerror os) (cur_errno os (snd s)) (fst s), snd s)
       else setTermios os t s)"

definition setCustomBaudRate :: "'e serial_os \<Rightarrow> int \<Rightarrow> bool \<times> bool \<Rightarrow> serialport \<times> 'e \<Rightarrow> bool \<times> serialport \<times> 'e" where
  "setCustomBaudRate os baud dirs s = (
     if dirs \<noteq> (True, True) then (False, IoDevice_setError_message 95 ''Cannot set custom speed for one direction'' (fst s), snd s)
     else let (ret, t2, s) = Private_ioctl os (tcgets2 os) s;
       (set2, s) = (if ret \<noteq> - 1
         then let (ret, _, s) = Private_ioctl os (tcsets2 os (t2\<lparr>c_cflag := (c_cflag t2 AND NOT CBAUD) OR BOTHER,
             c_ispeed := of_int baud, c_ospeed := of_int baud\<rparr>)) s
           in if ret \<noteq> - 1 then let (ret, _, s) = Private_ioctl os (tcgets2 os) s in (ret \<noteq> - 1, s) else (False, s)
         else (False, s))
     in if set2 then (True, s) else
       let (ret, ser, s) = Private_ioctl os (tiocgserial os) s in
       if ret = - 1 then (False, s) else
       let divisor = baud_base ser sdiv baud in
       if divisor = 0 then (False, IoDevice_setError_message 95 ''No suitable custom baud rate divisor'' (fst s), snd s) else
       let (ret, _, s) = Private_ioctl os (tiocsserial os (ser\<lparr>ser_flags := (ser_flags ser AND NOT ASYNC_SPD_MASK) OR ASYNC_SPD_CUST,
           custom_divisor := divisor\<rparr>)) s
       in if ret = - 1 then (False, s) else setStandardBaudRate os 15 dirs s)"

definition Serial_Private_setBaudRate :: "'e serial_os \<Rightarrow> int \<Rightarrow> bool \<times> bool \<Rightarrow> serialport \<times> 'e \<Rightarrow> bool \<times> serialport \<times> 'e" where
  "Serial_Private_setBaudRate os baud dirs s = (
     if baud \<le> 0 then (False, IoDevice_setError_message 95 ''Invalid baud rate value'' (fst s), snd s)
     else let code = settingFromBaudRate baud in
       if code > 0 then setStandardBaudRate os code dirs s else setCustomBaudRate os baud dirs s)"

definition Serial_Private_setBaudRates :: "'e serial_os \<Rightarrow> serialport \<times> 'e \<Rightarrow> bool \<times> serialport \<times> 'e" where
  "Serial_Private_setBaudRates os s = (let c = settings (fst s) in
     if inputBaudRate c = outputBaudRate c then Serial_Private_setBaudRate os (inputBaudRate c) (True, True) s
     else let (ok, s) = Serial_Private_setBaudRate os (inputBaudRate c) (True, False) s in
       if ok then Serial_Private_setBaudRate os (outputBaudRate c) (False, True) s else (False, s))"

definition Serial_Private_tcflush :: "'e serial_os \<Rightarrow> bool \<times> bool \<Rightarrow> serialport \<times> 'e \<Rightarrow> serialport \<times> 'e" where
  "Serial_Private_tcflush os dirs s = snd (snd (Private_ioctl os (tcflush os dirs) s))"

definition Serial_Private_setRequestToSend :: "'e serial_os \<Rightarrow> bool \<Rightarrow> serialport \<times> 'e \<Rightarrow> bool \<times> serialport \<times> 'e" where
  "Serial_Private_setRequestToSend os on s = (
     let (ret, _, s) = Private_ioctl os (if on then tiocmbis os TIOCM_RTS else tiocmbic os TIOCM_RTS) s in (ret \<noteq> - 1, s))"

definition Serial_initialize :: "'e serial_os \<Rightarrow> u32 \<Rightarrow> serialport \<times> 'e \<Rightarrow> bool \<times> serialport \<times> 'e" where
  "Serial_initialize os m s = (if \<not> isatty os (f_fd (fst s)) (snd s) then (False, s) else
     let s = snd (snd (Private_ioctl os (tiocexcl os True) s));
       (ok, t, s) = getTermios os s
     in if \<not> ok then (False, s) else
       let s = ((fst s)\<lparr>restoredTermios := t\<rparr>, snd s); c = settings (fst s);
         t = setTioFlowcontrol (flowControl c) (setTioStopbits (stopBits c) (setTioParity (parity c) (setTioDatabits (dataBits c) (setTioCommonProps m t))));
         (ok, s) = setTermios os t s
       in if \<not> ok then (False, s) else
         let (ok, s) = Serial_Private_setFlowControl os s in if \<not> ok then (False, s) else
         let (ok, s) = Serial_Private_setBaudRates os s in if \<not> ok then (False, s) else
         let (d, e) = Serial_Private_tcflush os (True, True) s in (True, d, delayUs os 10000 e))"

definition Serial_Private_close :: "'e serial_os \<Rightarrow> serialport \<times> 'e \<Rightarrow> serialport \<times> 'e" where
  "Serial_Private_close os s = (
     let (_, status, s) = Private_ioctl os (tiocmget os) s;
       (_, _, s) = Private_ioctl os (tiocmset os status) s;
       e = (if settingsRestoredOnClose (fst s) then snd (snd (snd (tcsetattr os (restoredTermios (fst s)) (f_fd (fst s)) (snd s)))) else snd s);
       e = snd (snd (snd (tiocexcl os False (f_fd (fst s)) e)));
       (_, _, s) = Private_ioctl os (flock os False) (fst s, e)
     in Terminal_Private_close os s)"

definition Serial_Private_open :: "'e serial_os \<Rightarrow> u32 \<Rightarrow> u32 \<Rightarrow> serialport \<times> 'e \<Rightarrow> bool \<times> serialport \<times> 'e" where
  "Serial_Private_open os m extra s = (
     let (ok, s) = Terminal_Private_open os m (0x100 OR 0x800) s
     in if \<not> ok then (False, s) else
       let (ret, _, errno, e) = flock os True (f_fd (fst s)) (snd s);
         (ok, s) = (if ret = 0 then Serial_initialize os m (fst s, e) else (False, fst s, e))
       in if ok then (True, s)
         else (False, Serial_Private_close os (IoDevice_setError (f_strerror os) (cur_errno os (snd s)) (fst s), snd s)))"

section \<open>The serial port\<close>

text \<open>A setter first changes the settings and the time of a byte, then the driver if the port is open.\<close>

definition with_settings :: "serial_settings option \<Rightarrow> (serialport \<times> 'e \<Rightarrow> bool \<times> serialport \<times> 'e) \<Rightarrow> serialport \<times> 'e \<Rightarrow> (bool \<times> serialport \<times> 'e) option" where
  "with_settings c apply_it = (\<lambda>(d, e). map_option (\<lambda>c. let s = (d\<lparr>settings := c\<rparr>, e) in if IoDevice_isOpen d then apply_it s else (True, s)) c)"

definition SerialPort_setBaudRate :: "'e serial_os \<Rightarrow> int \<Rightarrow> bool \<times> bool \<Rightarrow> serialport \<times> 'e \<Rightarrow> (bool \<times> serialport \<times> 'e) option" where
  "SerialPort_setBaudRate os baud dirs s = (
     let c = settings (fst s);
       ich = (fst dirs \<and> inputBaudRate c \<noteq> baud);
       och = (snd dirs \<and> outputBaudRate c \<noteq> baud);
       c = (if ich then c\<lparr>inputBaudRate := baud\<rparr> else c)
     in if ich \<or> och then with_settings (if och then updateOneByteTime (c\<lparr>outputBaudRate := baud\<rparr>) else Some c)
         (Serial_Private_setBaudRate os baud dirs) s
       else Some (True, s))"

definition SerialPort_setDataBits :: "'e serial_os \<Rightarrow> data_bits \<Rightarrow> serialport \<times> 'e \<Rightarrow> (bool \<times> serialport \<times> 'e) option" where
  "SerialPort_setDataBits os b s = (if dataBits (settings (fst s)) \<noteq> b
     then with_settings (updateOneByteTime ((settings (fst s))\<lparr>dataBits := b\<rparr>)) (Serial_Private_setDataBits os) s else Some (True, s))"

definition SerialPort_setParity :: "'e serial_os \<Rightarrow> parity \<Rightarrow> serialport \<times> 'e \<Rightarrow> (bool \<times> serialport \<times> 'e) option" where
  "SerialPort_setParity os p s = (if parity (settings (fst s)) \<noteq> p
     then with_settings (updateOneByteTime ((settings (fst s))\<lparr>parity := p\<rparr>)) (Serial_Private_setParity os) s else Some (True, s))"

definition SerialPort_setStopBits :: "'e serial_os \<Rightarrow> stop_bits \<Rightarrow> serialport \<times> 'e \<Rightarrow> (bool \<times> serialport \<times> 'e) option" where
  "SerialPort_setStopBits os b s = (if stopBits (settings (fst s)) \<noteq> b
     then with_settings (updateOneByteTime ((settings (fst s))\<lparr>stopBits := b\<rparr>)) (Serial_Private_setStopBits os) s else Some (True, s))"

definition SerialPort_setFlowControl :: "'e serial_os \<Rightarrow> flow_control \<Rightarrow> serialport \<times> 'e \<Rightarrow> (bool \<times> serialport \<times> 'e) option" where
  "SerialPort_setFlowControl os f s = (if flowControl (settings (fst s)) \<noteq> f
     then with_settings (Some ((settings (fst s))\<lparr>flowControl := f\<rparr>)) (Serial_Private_setFlowControl os) s else Some (True, s))"

definition and_then :: "(bool \<times> 's) option \<Rightarrow> ('s \<Rightarrow> (bool \<times> 's) option) \<Rightarrow> (bool \<times> 's) option" where
  "and_then r f = (case r of None \<Rightarrow> None | Some (ok, s) \<Rightarrow> if ok then f s else Some (False, s))"

definition SerialPort_setSettings :: "'e serial_os \<Rightarrow> serial_settings \<Rightarrow> serialport \<times> 'e \<Rightarrow> (bool \<times> serialport \<times> 'e) option" where
  "SerialPort_setSettings os c s = (
     let ibc = (inputBaudRate (settings (fst s)) \<noteq> inputBaudRate c);
       obc = (outputBaudRate (settings (fst s)) \<noteq> outputBaudRate c);
       beq = (inputBaudRate c = outputBaudRate c);
       r = SerialPort_setParity os (parity c) s;
       r = and_then r (SerialPort_setDataBits os (dataBits c));
       r = and_then r (SerialPort_setStopBits os (stopBits c));
       r = and_then r (SerialPort_setFlowControl os (flowControl c))
     in if ibc \<and> obc \<and> beq then and_then r (SerialPort_setBaudRate os (inputBaudRate c) (True, True))
       else let r = (if ibc \<and> (\<not> obc \<or> obc \<and> \<not> beq) then and_then r (SerialPort_setBaudRate os (inputBaudRate c) (True, False)) else r)
         in if obc \<and> (\<not> ibc \<or> ibc \<and> \<not> beq) then and_then r (SerialPort_setBaudRate os (outputBaudRate c) (False, True)) else r)"

definition SerialPort_setRequestToSend :: "'e serial_os \<Rightarrow> bool \<Rightarrow> serialport \<times> 'e \<Rightarrow> bool \<times> serialport \<times> 'e" where
  "SerialPort_setRequestToSend os on s = (if IoDevice_isOpen (fst s) then
     if flowControl (settings (fst s)) = NoFlowControl \<or> flowControl (settings (fst s)) = SoftwareControl
     then Serial_Private_setRequestToSend os on s
     else (False, IoDevice_setError_code (f_strerror os) 95 (fst s), snd s) else (False, s))"

text \<open>With one of the RS-485 controls the line RTS switches the driver of the bus: \<open>OnSend\<close> sets it while sending,
  \<open>AfterSend\<close> clears it.\<close>

definition SerialPort_write :: "'e serial_os \<Rightarrow> u8 list \<Rightarrow> bool \<Rightarrow> serialport \<times> 'e \<Rightarrow> int \<times> serialport \<times> 'e" where
  "SerialPort_write os data endl s = (if openMode (fst s) AND WriteOnly \<noteq> 0 then
     let c = settings (fst s) in
     if flowControl c = Rs485AfterSendControl \<or> flowControl c = Rs485OnSendControl then
       let (ok, s) = Serial_Private_setRequestToSend os (flowControl c = Rs485OnSendControl) s in
       if \<not> ok then (- 1, s) else
         let s = (fst s, delayUs os (rs485Delay c) (snd s));
           (ret, s) = FileStream_write os data s
         in if ret < 0 then (ret, s) else
           let (ret, s) = (if endl then let (n, s) = FileStream_write os [0x0D, 0x0A] s in (ret + n, s) else (ret, s));
             s = (fst s, delayUs os (onebyteTime c * of_int ret + rs485Delay c) (ios_flush os (snd s)))
           in (ret, snd (Serial_Private_setRequestToSend os (flowControl c \<noteq> Rs485OnSendControl) s))
     else FileStream_write os data s
   else (- 1, s))"

section \<open>The Arduino class\<close>

text \<open>The switch of \<open>begin\<close>: what a code of the configuration changes of the settings the port has. The code \<open>SERIAL_8N1\<close>,
  0x06, and all unknown ones change nothing.\<close>

definition SERIAL_configs :: "(u8 \<times> data_bits option \<times> stop_bits option \<times> parity option) list" where
  "SERIAL_configs = [
     (0x00, Some Data5, None, None), (0x02, Some Data6, None, None), (0x04, Some Data7, None, None),
     (0x08, Some Data5, Some TwoStop, None), (0x0A, Some Data6, Some TwoStop, None), (0x0C, Some Data7, Some TwoStop, None), (0x0E, None, Some TwoStop, None),
     (0x20, Some Data5, None, Some EvenParity), (0x22, Some Data6, None, Some EvenParity), (0x24, Some Data7, None, Some EvenParity),
     (0x26, None, None, Some EvenParity),
     (0x28, Some Data5, Some TwoStop, Some EvenParity), (0x2A, Some Data6, Some TwoStop, Some EvenParity), (0x2C, Some Data7, Some TwoStop, Some EvenParity),
     (0x2E, None, Some TwoStop, Some EvenParity),
     (0x30, Some Data5, None, Some OddParity), (0x32, Some Data6, None, Some OddParity), (0x34, Some Data7, None, Some OddParity),
     (0x36, None, None, Some OddParity),
     (0x38, Some Data5, Some TwoStop, Some OddParity), (0x3A, Some Data6, Some TwoStop, Some OddParity), (0x3C, Some Data7, Some TwoStop, Some OddParity),
     (0x3E, None, Some TwoStop, Some OddParity)]"

definition SERIAL_config :: "u8 \<Rightarrow> serial_settings \<Rightarrow> serial_settings" where
  "SERIAL_config config c = (case map_of SERIAL_configs config of None \<Rightarrow> c
     | Some (b, st, p) \<Rightarrow> c\<lparr>dataBits := case_option (dataBits c) id b, stopBits := case_option (stopBits c) id st, parity := case_option (parity c) id p\<rparr>)"

text \<open>The rates on which the class waits after a line depend on the family of the chip.\<close>

record hardserial =
  hs_port :: serialport
  writelnDelay :: nat

definition portNameToSystemLocation :: "string \<Rightarrow> string" where
  "portNameToSystemLocation port = (if startsWith ''/'' 0 port \<or> startsWith ''./'' 0 port \<or> startsWith ''../'' 0 port then port else ''/dev/'' @ port)"

definition portNameFromSystemLocation :: "string \<Rightarrow> string" where
  "portNameFromSystemLocation location = (if startsWith ''/dev/'' 0 location then drop 5 location else location)"

datatype soc_family = AllwinnerH | BroadcomBcm2835 | OtherFamily

definition HardwareSerial_begin :: "'e serial_os \<Rightarrow> soc_family \<Rightarrow> int \<Rightarrow> u8 \<Rightarrow> hardserial \<times> 'e \<Rightarrow> (hardserial \<times> 'e) res option" where
  "HardwareSerial_begin os family baud config = (\<lambda>(h, e).
     let c = SERIAL_config config (settings (hs_port h)) in
     case SerialPort_setSettings os c (hs_port h, ios_begin os e) of None \<Rightarrow> None | Some (_, s) \<Rightarrow>
     case SerialPort_setBaudRate os baud (True, True) s of None \<Rightarrow> None | Some (_, s) \<Rightarrow>
     let (ok, d, e) = FileDevice_open (Serial_Private_open os) (ReadWrite OR Binary) s in
     if \<not> ok then Some (Inl (System_error (cur_errno os e)))
     else let name = portNameFromSystemLocation (f_path d);
       w = (if startsWith ''ttyS'' 0 name \<and> family = AllwinnerH then 500
         else if startsWith ''ttyAMA'' 0 name \<and> family = BroadcomBcm2835 then 4000 else writelnDelay h)
     in Some (Inr (\<lparr>hs_port = d, writelnDelay = w\<rparr>, ios_begin os e)))"

definition HardwareSerial_begin_cstr :: "'e serial_os \<Rightarrow> soc_family \<Rightarrow> int \<Rightarrow> string \<Rightarrow> u8 \<Rightarrow> hardserial \<times> 'e \<Rightarrow> (hardserial \<times> 'e) res option" where
  "HardwareSerial_begin_cstr os family baud name config = (\<lambda>(h, e).
     let (d, e) = FileDevice_setPath (Serial_Private_close os) (portNameToSystemLocation name) (hs_port h, e)
     in HardwareSerial_begin os family baud config (h\<lparr>hs_port := d\<rparr>, e))"

text \<open>The overload for \<open>String\<close> calls the other one without its argument \<open>config\<close>, for which the default is taken.\<close>

definition HardwareSerial_begin_string :: "'e serial_os \<Rightarrow> soc_family \<Rightarrow> int \<Rightarrow> string \<Rightarrow> u8 \<Rightarrow> hardserial \<times> 'e \<Rightarrow> (hardserial \<times> 'e) res option" where
  "HardwareSerial_begin_string os family baud name config = (\<lambda>(h, e).
     let (d, e) = FileDevice_setPath (Serial_Private_close os) (portNameToSystemLocation name) (hs_port h, e)
     in HardwareSerial_begin_cstr os family baud name 0x06 (h\<lparr>hs_port := d\<rparr>, e))"

definition HardwareSerial_end :: "'e serial_os \<Rightarrow> hardserial \<times> 'e \<Rightarrow> hardserial \<times> 'e" where
  "HardwareSerial_end os = (\<lambda>(h, e). let (d, e) = FileDevice_close (Serial_Private_close os) (hs_port h, ios_end os e) in (h\<lparr>hs_port := d\<rparr>, e))"

definition HardwareSerial_writeln :: "'e serial_os \<Rightarrow> u8 list \<Rightarrow> hardserial \<times> 'e \<Rightarrow> int \<times> hardserial \<times> 'e" where
  "HardwareSerial_writeln os data = (\<lambda>(h, e). let (n, d, e) = SerialPort_write os data True (hs_port h, e) in (n, h\<lparr>hs_port := d\<rparr>, e))"

section \<open>Codes of the configuration\<close>

fun data_code :: "data_bits \<Rightarrow> u8" where
  "data_code Data5 = 0" | "data_code Data6 = 2" | "data_code Data7 = 4" | "data_code _ = 6"

fun stop_code :: "stop_bits \<Rightarrow> u8" where
  "stop_code TwoStop = 8" | "stop_code _ = 0"

fun parity_code :: "parity \<Rightarrow> u8" where
  "parity_code EvenParity = 0x20" | "parity_code OddParity = 0x30" | "parity_code _ = 0"

lemma serial_configs_8N1: "map_of SERIAL_configs 0x06 = None"
  by (simp add: SERIAL_configs_def)

text \<open>The rows of the table: a part of the configuration that is that of \<open>SERIAL_8N1\<close> is not set.\<close>

lemma serial_configs_row:
  assumes "b \<in> {Data5, Data6, Data7, Data8}" "st \<in> {OneStop, TwoStop}" "p \<in> {NoParity, EvenParity, OddParity}"
  shows "map_of SERIAL_configs (data_code b OR stop_code st OR parity_code p) =
    (if b = Data8 \<and> st = OneStop \<and> p = NoParity then None
     else Some (if b = Data8 then None else Some b, if st = OneStop then None else Some st, if p = NoParity then None else Some p))"
  using assms by (cases b; cases st; cases p; simp add: SERIAL_configs_def)


definition default_settings :: serial_settings where
  "default_settings = \<lparr>inputBaudRate = 9600, outputBaudRate = 9600, dataBits = Data8, parity = NoParity, stopBits = OneStop,
     flowControl = NoFlowControl, onebyteTime = 1041, rs485Delay = 1041\<rparr>"


section \<open>What the driver is told\<close>

text \<open>The line as the driver reads its flags.\<close>

definition line_data :: "termios \<Rightarrow> data_bits" where
  "line_data t = (if bit (c_cflag t) 5 then if bit (c_cflag t) 4 then Data8 else Data7 else if bit (c_cflag t) 4 then Data6 else Data5)"

definition line_parity :: "termios \<Rightarrow> parity" where
  "line_parity t = (if \<not> bit (c_cflag t) 8 then NoParity
     else if bit (c_cflag t) 30 then if bit (c_cflag t) 9 then MarkParity else SpaceParity
     else if bit (c_cflag t) 9 then OddParity else EvenParity)"

definition line_stop :: "termios \<Rightarrow> stop_bits" where
  "line_stop t = (if bit (c_cflag t) 6 then TwoStop else OneStop)"

definition line_flow :: "termios \<Rightarrow> flow_control" where
  "line_flow t = (if bit (c_cflag t) 31 then HardwareControl else if bit (c_iflag t) 10 then SoftwareControl else NoFlowControl)"

lemmas line_defs = line_data_def line_parity_def line_stop_def line_flow_def

lemmas tio_defs = setTioDatabits_def setTioParity_def setTioStopbits_def setTioFlowcontrol_def

text \<open>Every setter sets its part of the line and leaves the others alone, the parity as long as no sticky parity was set.\<close>

lemma setTioDatabits_line: "b \<noteq> UnknownDataBits \<Longrightarrow> line_data (setTioDatabits b t) = b" "line_parity (setTioDatabits b t) = line_parity t"
  "line_stop (setTioDatabits b t) = line_stop t" "line_flow (setTioDatabits b t) = line_flow t" "bit (c_cflag (setTioDatabits b t)) 30 = bit (c_cflag t) 30"
  by (simp_all add: tio_defs line_defs bit_simps split: data_bits.split)

lemma setTioStopbits_line: "b \<noteq> UnknownStopBits \<Longrightarrow> line_stop (setTioStopbits b t) = b" "line_parity (setTioStopbits b t) = line_parity t"
  "line_data (setTioStopbits b t) = line_data t" "line_flow (setTioStopbits b t) = line_flow t" "bit (c_cflag (setTioStopbits b t)) 30 = bit (c_cflag t) 30"
  by (simp_all add: tio_defs line_defs bit_simps split: stop_bits.split)

lemma setTioFlowcontrol_line: "f \<in> {NoFlowControl, HardwareControl, SoftwareControl} \<Longrightarrow> line_flow (setTioFlowcontrol f t) = f"
  "line_parity (setTioFlowcontrol f t) = line_parity t" "line_data (setTioFlowcontrol f t) = line_data t" "line_stop (setTioFlowcontrol f t) = line_stop t"
  "bit (c_cflag (setTioFlowcontrol f t)) 30 = bit (c_cflag t) 30"
  by (auto simp: tio_defs line_defs bit_simps split: flow_control.split)

lemma setTioParity_line: "p \<noteq> UnknownParity \<Longrightarrow> \<not> bit (c_cflag t) 30 \<Longrightarrow> line_parity (setTioParity p t) = p"
  "line_data (setTioParity p t) = line_data t" "line_stop (setTioParity p t) = line_stop t" "line_flow (setTioParity p t) = line_flow t"
  "bit (c_cflag (setTioParity p t)) 30 \<longleftrightarrow> bit (c_cflag t) 30 \<or> p = SpaceParity \<or> p = MarkParity"
  by (simp_all add: tio_defs line_defs bit_simps Let_def split: parity.split)

text \<open>The line and the settings that describe it.\<close>

definition line :: "termios \<Rightarrow> data_bits \<times> parity \<times> stop_bits \<times> flow_control" where
  "line t = (line_data t, line_parity t, line_stop t, line_flow t)"

definition line_settings :: "serial_settings \<Rightarrow> data_bits \<times> parity \<times> stop_bits \<times> flow_control" where
  "line_settings c = (dataBits c, parity c, stopBits c, flowControl c)"

definition known_settings :: "serial_settings \<Rightarrow> bool" where
  "known_settings c \<longleftrightarrow> dataBits c \<noteq> UnknownDataBits \<and> parity c \<noteq> UnknownParity \<and> stopBits c \<noteq> UnknownStopBits \<and>
     flowControl c \<in> {NoFlowControl, HardwareControl, SoftwareControl}"

text \<open>What the driver promises: the attributes of a terminal are those last set, and reading them or the lines of the modem
  leaves them alone.\<close>

locale tty =
  fixes os :: "'e serial_os" and tio_of :: "int \<Rightarrow> 'e \<Rightarrow> termios"
  assumes get: "tcgetattr os f e = (ret, t, errno, e') \<Longrightarrow> tio_of g e' = tio_of g e \<and> (0 \<le> ret \<longrightarrow> t = tio_of f e)"
    and set: "tcsetattr os t f e = (ret, u, errno, e') \<Longrightarrow> tio_of g e' = (if g = f \<and> 0 \<le> ret then t else tio_of g e)"
    and modem_get: "tiocmget os f e = (ret, v, errno, e') \<Longrightarrow> tio_of g e' = tio_of g e"
    and modem_set: "tiocmset os v f e = (ret, u, errno, e') \<Longrightarrow> tio_of g e' = tio_of g e"
begin

lemma change_sets:
  assumes "change_termios os f (d, e) = (True, d', e')"
  shows "d' = d \<and> tio_of (f_fd d) e' = f (tio_of (f_fd d) e)"
proof -
  obtain ret t errno e1 where g: "tcgetattr os (f_fd d) e = (ret, t, errno, e1)" by (metis prod_cases4)
  have r: "\<not> ret < 0" using assms g by (auto simp: change_termios_def getTermios_def Private_ioctl_def split: if_splits)
  obtain ret2 u errno2 e2 where st: "tcsetattr os (f t) (f_fd d) e1 = (ret2, u, errno2, e2)" by (metis prod_cases4)
  have r2: "\<not> ret2 < 0" "d' = d" "e' = e2"
    using assms g st r by (auto simp: change_termios_def getTermios_def setTermios_def Private_ioctl_def split: if_splits)
  show ?thesis using r r2 get [OF g, of "f_fd d"] set [OF st, of "f_fd d"] by simp
qed

lemma flow_sets:
  assumes "Serial_Private_setFlowControl os (d, e) = (True, d', e')"
  shows "settings d' = settings d \<and> f_fd d' = f_fd d \<and> openMode d' = openMode d \<and>
    tio_of (f_fd d) e' = setTioFlowcontrol (flowControl (settings d)) (tio_of (f_fd d) e)"
proof -
  obtain d1 e1 where c: "change_termios os (setTioFlowcontrol (flowControl (settings d))) (d, e) = (True, d1, e1)"
    using assms by (auto simp: Serial_Private_setFlowControl_def split: prod.splits if_splits)
  note s = change_sets [OF c]
  obtain ret v errno e2 where g: "tiocmget os (f_fd d) e1 = (ret, v, errno, e2)" by (metis prod_cases4)
  obtain ret2 u errno2 e3 where st: "tiocmset os (v OR TIOCM_DTR OR TIOCM_RTS) (f_fd d) e2 = (ret2, u, errno2, e3)" by (metis prod_cases4)
  have "ret = 0" "d' = d" "e' = e3"
    using assms c s g st by (auto simp: Serial_Private_setFlowControl_def Private_ioctl_def split: prod.splits if_splits)
  then show ?thesis using s modem_get [OF g, of "f_fd d"] modem_set [OF st, of "f_fd d"] by simp
qed

end

lemma with_settings_open:
  assumes "with_settings c f (d, e) = Some (ok, s)" "IoDevice_isOpen d"
  shows "\<exists>c'. c = Some c' \<and> f (d\<lparr>settings := c'\<rparr>, e) = (ok, s)"
  using assms by (auto simp: with_settings_def)

lemma updateOneByteTime_line:
  "updateOneByteTime c = Some c' \<Longrightarrow> line_settings c' = line_settings c \<and> inputBaudRate c' = inputBaudRate c \<and> outputBaudRate c' = outputBaudRate c"
  by (auto simp: updateOneByteTime_def line_settings_def Let_def split: if_splits)

text \<open>\<open>holds tio_of c d e\<close>: the port is open, remembers the line settings and the rates of \<open>c\<close>, and the driver has that
  line, with the flag of the sticky parities only if \<open>c\<close> has one of them.\<close>

definition holds :: "(int \<Rightarrow> 'e \<Rightarrow> termios) \<Rightarrow> serial_settings \<Rightarrow> serialport \<Rightarrow> 'e \<Rightarrow> bool" where
  "holds tio_of c d e \<longleftrightarrow> IoDevice_isOpen d \<and> line_settings (settings d) = line_settings c \<and>
     inputBaudRate (settings d) = inputBaudRate c \<and> outputBaudRate (settings d) = outputBaudRate c \<and>
     line (tio_of (f_fd d) e) = line_settings c \<and> (bit (c_cflag (tio_of (f_fd d) e)) 30 \<longrightarrow> parity c \<in> {SpaceParity, MarkParity})"

context tty
begin

lemma setter_sets:
  assumes "with_settings (updateOneByteTime c1) g (d, e) = Some (True, d', e')" "IoDevice_isOpen d"
    and g: "\<And>c' d1. updateOneByteTime c1 = Some c' \<Longrightarrow> settings d1 = c' \<Longrightarrow> g (d1, e) = change_termios os f (d1, e)"
  shows "IoDevice_isOpen d' \<and> f_fd d' = f_fd d \<and> line_settings (settings d') = line_settings c1 \<and> inputBaudRate (settings d') = inputBaudRate c1 \<and>
    outputBaudRate (settings d') = outputBaudRate c1 \<and> tio_of (f_fd d) e' = f (tio_of (f_fd d) e)"
proof -
  obtain c' where c: "updateOneByteTime c1 = Some c'" "g (d\<lparr>settings := c'\<rparr>, e) = (True, d', e')"
    using with_settings_open [OF assms(1,2)] by blast
  have "change_termios os f (d\<lparr>settings := c'\<rparr>, e) = (True, d', e')" using c g [OF c(1)] by simp
  from change_sets [OF this] updateOneByteTime_line [OF c(1)] assms(2) show ?thesis by auto
qed

lemma setDataBits_holds:
  assumes h: "holds tio_of c d e" and r: "SerialPort_setDataBits os b (d, e) = Some (True, d', e')" and b: "b \<noteq> UnknownDataBits"
  shows "holds tio_of (c\<lparr>dataBits := b\<rparr>) d' e' \<and> f_fd d' = f_fd d"
proof (cases "dataBits (settings d) = b")
  case True
  then show ?thesis using h r by (auto simp: SerialPort_setDataBits_def holds_def line_settings_def)
next
  case False
  have o: "IoDevice_isOpen d" using h by (simp add: holds_def)
  have w: "with_settings (updateOneByteTime ((settings d)\<lparr>dataBits := b\<rparr>)) (Serial_Private_setDataBits os) (d, e) = Some (True, d', e')"
    using r False by (simp add: SerialPort_setDataBits_def)
  have "IoDevice_isOpen d' \<and> f_fd d' = f_fd d \<and> line_settings (settings d') = line_settings ((settings d)\<lparr>dataBits := b\<rparr>) \<and>
    inputBaudRate (settings d') = inputBaudRate (settings d) \<and> outputBaudRate (settings d') = outputBaudRate (settings d) \<and>
    tio_of (f_fd d) e' = setTioDatabits b (tio_of (f_fd d) e)"
    using setter_sets [OF w o, of "setTioDatabits b"] updateOneByteTime_line by (auto simp: Serial_Private_setDataBits_def line_settings_def)
  then show ?thesis using h b setTioDatabits_line by (auto simp: holds_def line_def line_settings_def)
qed

lemma setStopBits_holds:
  assumes h: "holds tio_of c d e" and r: "SerialPort_setStopBits os b (d, e) = Some (True, d', e')" and b: "b \<noteq> UnknownStopBits"
  shows "holds tio_of (c\<lparr>stopBits := b\<rparr>) d' e' \<and> f_fd d' = f_fd d"
proof (cases "stopBits (settings d) = b")
  case True
  then show ?thesis using h r by (auto simp: SerialPort_setStopBits_def holds_def line_settings_def)
next
  case False
  have o: "IoDevice_isOpen d" using h by (simp add: holds_def)
  have w: "with_settings (updateOneByteTime ((settings d)\<lparr>stopBits := b\<rparr>)) (Serial_Private_setStopBits os) (d, e) = Some (True, d', e')"
    using r False by (simp add: SerialPort_setStopBits_def)
  have "IoDevice_isOpen d' \<and> f_fd d' = f_fd d \<and> line_settings (settings d') = line_settings ((settings d)\<lparr>stopBits := b\<rparr>) \<and>
    inputBaudRate (settings d') = inputBaudRate (settings d) \<and> outputBaudRate (settings d') = outputBaudRate (settings d) \<and>
    tio_of (f_fd d) e' = setTioStopbits b (tio_of (f_fd d) e)"
    using setter_sets [OF w o, of "setTioStopbits b"] updateOneByteTime_line by (auto simp: Serial_Private_setStopBits_def line_settings_def)
  then show ?thesis using h b setTioStopbits_line by (auto simp: holds_def line_def line_settings_def)
qed

lemma setParity_sets:
  assumes o: "IoDevice_isOpen d" and r: "SerialPort_setParity os p (d, e) = Some (True, d', e')" and n: "parity (settings d) \<noteq> p"
  shows "IoDevice_isOpen d' \<and> f_fd d' = f_fd d \<and> line_settings (settings d') = line_settings ((settings d)\<lparr>parity := p\<rparr>) \<and>
    inputBaudRate (settings d') = inputBaudRate (settings d) \<and> outputBaudRate (settings d') = outputBaudRate (settings d) \<and>
    tio_of (f_fd d) e' = setTioParity p (tio_of (f_fd d) e)"
proof -
  have w: "with_settings (updateOneByteTime ((settings d)\<lparr>parity := p\<rparr>)) (Serial_Private_setParity os) (d, e) = Some (True, d', e')"
    using r n by (simp add: SerialPort_setParity_def)
  show ?thesis
    using setter_sets [OF w o, of "setTioParity p"] updateOneByteTime_line by (auto simp: Serial_Private_setParity_def line_settings_def)
qed

lemma setParity_holds:
  assumes h: "holds tio_of c d e" and r: "SerialPort_setParity os p (d, e) = Some (True, d', e')" and p: "p \<noteq> UnknownParity"
    and "parity c \<in> {SpaceParity, MarkParity} \<Longrightarrow> p = parity c"
  shows "holds tio_of (c\<lparr>parity := p\<rparr>) d' e' \<and> f_fd d' = f_fd d"
proof (cases "parity (settings d) = p")
  case True
  then show ?thesis using h r by (auto simp: SerialPort_setParity_def holds_def line_settings_def)
next
  case False
  have o: "IoDevice_isOpen d" using h by (simp add: holds_def)
  have "\<not> bit (c_cflag (tio_of (f_fd d) e)) 30" using h assms(4) False by (auto simp: holds_def line_settings_def)
  then show ?thesis using h p setParity_sets [OF o r False] setTioParity_line by (auto simp: holds_def line_def line_settings_def)
qed

lemma setFlowControl_holds:
  assumes h: "holds tio_of c d e" and r: "SerialPort_setFlowControl os f (d, e) = Some (True, d', e')" and f: "f \<in> {NoFlowControl, HardwareControl, SoftwareControl}"
  shows "holds tio_of (c\<lparr>flowControl := f\<rparr>) d' e' \<and> f_fd d' = f_fd d"
proof (cases "flowControl (settings d) = f")
  case True
  then show ?thesis using h r by (auto simp: SerialPort_setFlowControl_def holds_def line_settings_def)
next
  case False
  have o: "IoDevice_isOpen d" using h by (simp add: holds_def)
  let ?d = "d\<lparr>settings := (settings d)\<lparr>flowControl := f\<rparr>\<rparr>"
  have "Serial_Private_setFlowControl os (?d, e) = (True, d', e')"
    using r False o by (auto simp: SerialPort_setFlowControl_def with_settings_def Let_def)
  from flow_sets [OF this] have "IoDevice_isOpen d' \<and> f_fd d' = f_fd d \<and> settings d' = (settings d)\<lparr>flowControl := f\<rparr> \<and>
      tio_of (f_fd d) e' = setTioFlowcontrol f (tio_of (f_fd d) e)" using o by simp
  then show ?thesis using h setTioFlowcontrol_line(1) [OF f] setTioFlowcontrol_line(2-5) by (auto simp: holds_def line_def line_settings_def)
qed

end

lemma and_then_True: "and_then r f = Some (True, s) \<longleftrightarrow> (\<exists>s1. r = Some (True, s1) \<and> f s1 = Some (True, s))"
  by (auto simp: and_then_def split: option.splits prod.splits if_splits)


text \<open>C28. The flag of the sticky parities is never cleared: an open port changed from space or mark parity to even or odd parity
  remembers the new parity and reports success, but the driver keeps sending a constant parity bit.\<close>

theorem serial_parity_stays_sticky:
  assumes k: "tty os tio_of" and h: "holds tio_of (settings d) d e" and old: "parity (settings d) \<in> {SpaceParity, MarkParity}"
    and new: "p \<in> {EvenParity, OddParity}" and r: "SerialPort_setParity os p (d, e) = Some (True, d', e')"
  shows "parity (settings d') = p \<and> line_parity (tio_of (f_fd d') e') = (if p = EvenParity then SpaceParity else MarkParity)"
proof -
  have "parity (settings d) \<noteq> p" using old new by auto
  moreover have "IoDevice_isOpen d" using h by (simp add: holds_def)
  moreover have "line_parity (tio_of (f_fd d) e) \<in> {SpaceParity, MarkParity}" using h old by (simp add: holds_def line_def line_settings_def)
  then have "bit (c_cflag (tio_of (f_fd d) e)) 30" by (auto simp: line_parity_def split: if_splits)
  ultimately show ?thesis using tty.setParity_sets [OF k _ r] new
    by (auto simp: line_settings_def line_parity_def setTioParity_def bit_simps)
qed

section \<open>Writing\<close>


text \<open>With an RS-485 control the driver of the bus is switched on before the text and off behind it, unless the stream
  fails: then it stays on.\<close>

lemma rs485_stays_on:
  assumes "openMode d AND WriteOnly \<noteq> 0" "flowControl (settings d) \<in> {Rs485AfterSendControl, Rs485OnSendControl}"
    "Serial_Private_setRequestToSend os (flowControl (settings d) = Rs485OnSendControl) (d, e) = (True, d, e1)"
    "ios_write os text (delayUs os (rs485Delay (settings d)) e1) = (False, e2)"
  shows "SerialPort_write os text endl (d, e) = (- 1, d, e2)"
  using assms by (auto simp: SerialPort_write_def FileStream_write_def Let_def)

section \<open>A simulated driver\<close>

record tty_sim =
  ts_tio :: "int \<Rightarrow> termios"
  ts_modem :: u32
  ts_out :: "u8 list"

definition tty_sim_os :: "tty_sim serial_os" where
  "tty_sim_os = \<lparr>f_open = (\<lambda>p fl e. (3, 0, e)), f_close = (\<lambda>f e. (0, 0, e)), f_read = (\<lambda>f n e. (0, [], 0, e)),
     f_write = (\<lambda>f bs e. (int (length bs), 0, e\<lparr>ts_out := ts_out e @ bs\<rparr>)), f_getfl = (\<lambda>f e. 2), f_strerror = (\<lambda>n. []),
     ios_attach = (\<lambda>f m e. e), ios_close = (\<lambda>e. e), ios_write = (\<lambda>bs e. (True, e\<lparr>ts_out := ts_out e @ bs\<rparr>)), ios_flush = (\<lambda>e. e),
     notifier_start = (\<lambda>e. (True, e)), notifier_terminate = (\<lambda>e. e),
     tcgetattr = (\<lambda>f e. (0, ts_tio e f, 0, e)), tcsetattr = (\<lambda>t f e. (0, (), 0, e\<lparr>ts_tio := (ts_tio e)(f := t)\<rparr>)),
     tcgets2 = (\<lambda>f e. (0, ts_tio e f, 0, e)), tcsets2 = (\<lambda>t f e. (0, (), 0, e\<lparr>ts_tio := (ts_tio e)(f := t)\<rparr>)),
     tiocgserial = (\<lambda>f e. (- 1, \<lparr>ser_flags = 0, custom_divisor = 0, baud_base = 0\<rparr>, 25, e)), tiocsserial = (\<lambda>s f e. (- 1, (), 25, e)),
     tiocmget = (\<lambda>f e. (0, ts_modem e, 0, e)), tiocmset = (\<lambda>v f e. (0, (), 0, e\<lparr>ts_modem := v\<rparr>)),
     tiocmbis = (\<lambda>v f e. (0, (), 0, e\<lparr>ts_modem := ts_modem e OR v\<rparr>)), tiocmbic = (\<lambda>v f e. (0, (), 0, e\<lparr>ts_modem := ts_modem e AND NOT v\<rparr>)),
     tiocexcl = (\<lambda>b f e. (0, (), 0, e)), tiocbrk = (\<lambda>b f e. (0, (), 0, e)), tcsendbreak = (\<lambda>n f e. (0, (), 0, e)),
     tcflush = (\<lambda>b f e. (0, (), 0, e)), flock = (\<lambda>b f e. (0, (), 0, e)), isatty = (\<lambda>f e. True),
     cfsetispeed = (\<lambda>c t. (0, t\<lparr>c_ispeed := c\<rparr>)), cfsetospeed = (\<lambda>c t. (0, t\<lparr>c_ospeed := c\<rparr>)), cur_errno = (\<lambda>e. 0),
     delayUs = (\<lambda>n e. e), ios_begin = (\<lambda>e. e), ios_end = (\<lambda>e. e)\<rparr>"

interpretation tsim: tty tty_sim_os "\<lambda>f e. ts_tio e f"
  by unfold_locales (auto simp: tty_sim_os_def)

definition demo_tio :: "u32 \<Rightarrow> termios" where
  "demo_tio cf = \<lparr>c_iflag = 0, c_oflag = 0, c_cflag = cf, c_lflag = 0, c_vtime = 0, c_vmin = 0, c_ispeed = 13, c_ospeed = 13\<rparr>"

definition demo_port :: "serial_settings \<Rightarrow> serialport" where
  "demo_port c = filedev.extend (FileDevice_new\<lparr>openMode := ReadWrite, f_fd := 3\<rparr>) (serialport.fields (demo_tio 0) True False c)"

lemma demo_port_fields: "openMode (demo_port c) = ReadWrite" "f_fd (demo_port c) = 3" "settings (demo_port c) = c"
  by (simp_all add: demo_port_def filedev.defs serialport.defs FileDevice_new_def iodevice.defs)

lemma demo_holds:
  assumes "line (demo_tio cf) = line_settings c" "bit cf 30 \<longrightarrow> parity c \<in> {SpaceParity, MarkParity}"
  shows "holds (\<lambda>f e. ts_tio e f) c (demo_port c) \<lparr>ts_tio = (\<lambda>f. demo_tio cf), ts_modem = 0, ts_out = []\<rparr>"
  using assms by (simp add: holds_def demo_port_fields demo_tio_def)


theorem serial_parity_stays_sticky_witness:
  "\<exists>d' e'. SerialPort_setParity tty_sim_os EvenParity (demo_port (default_settings\<lparr>parity := MarkParity\<rparr>),
      \<lparr>ts_tio = (\<lambda>f. demo_tio 0x40000330), ts_modem = 0, ts_out = []\<rparr>) = Some (True, d', e') \<and>
    parity (settings d') = EvenParity \<and> line_parity (ts_tio e' (f_fd d')) = SpaceParity"
proof -
  let ?c = "default_settings\<lparr>parity := MarkParity\<rparr>"
  let ?e = "\<lparr>ts_tio = (\<lambda>f. demo_tio 0x40000330), ts_modem = 0, ts_out = [] :: u8 list\<rparr>"
  have h: "holds (\<lambda>f e. ts_tio e f) (settings (demo_port ?c)) (demo_port ?c) ?e"
    unfolding demo_port_fields by (rule demo_holds) (simp_all add: demo_tio_def line_def line_defs line_settings_def default_settings_def)
  obtain ok d' e' where r: "SerialPort_setParity tty_sim_os EvenParity (demo_port ?c, ?e) = Some (ok, d', e')" and "ok"
    by (simp add: SerialPort_setParity_def with_settings_def demo_port_fields default_settings_def updateOneByteTime_def Serial_Private_setParity_def
      change_termios_def getTermios_def setTermios_def Private_ioctl_def tty_sim_os_def)
  then show ?thesis using serial_parity_stays_sticky [OF tsim.tty_axioms h _ _, of EvenParity d' e'] by (auto simp: demo_port_fields default_settings_def)
qed


end
