(* ===== verification/Spec2Isabelle.thy ===== *)
theory Spec2Isabelle
  imports RingBuffer Strl Max7311 Max1161x Bcm2835Gpio HxGpio Rp1Gpio GpioPin Streams GpioPwm Spi CommandLines Serial
begin

text \<open>
  \<^bold>\<open>A verification library for Piduino.\<close>

  Piduino is a C++ library that gives the single-board computers of the Raspberry Pi and Allwinner families the
  programming interface of an Arduino. Its parts, from the bottom up, are containers and helpers (a ring buffer, a byte
  FIFO, queues for threads, strings, the parser of command lines); the base of all devices; files, terminals and
  buses (I2C, SPI, serial) over kernel interfaces; drivers of chips on a bus (a port expander, DACs, an ADC), which are
  converters; GPIO drivers and PWM engines that work on memory-mapped registers; the pins of the board's
  connectors, which use a GPIO driver; and the Arduino classes over them.

  \<^bold>\<open>Theories.\<close> Each theory models the source files it names and follows their order.
  \<^item> \<open>Prelude\<close>: exceptions as values (\<open>exn\<close>, \<open>res\<close>), \<open>std::map::at\<close>, C division, \<open>memcpy\<close>, fields of machine words.
  \<^item> \<open>RingBuffer\<close>: \<open>include/piduino/ringbuffer.h\<close>. The record \<open>ring\<close> has the members of the container; a slot of the
    array is raw or holds a live object, so that the use of destroyed or unconstructed objects is \<open>None\<close>. The locale
    \<open>overwriting_queue\<close> is the contract of a queue that forgets its oldest items, interpreted on \<open>push_back\<close> and
    \<open>pop_front\<close>.
  \<^item> \<open>Fifo\<close>: \<open>include/piduino/fifo.h\<close>, with the locale \<open>byte_fifo\<close>.
  \<^item> \<open>Strl\<close>: \<open>src/arduino/compat/strlcat_strlcpy.c\<close>.
  \<^item> \<open>Strings\<close>: \<open>include/piduino/string.h\<close>, \<open>src/string.cpp\<close> and the number formatting of Arduino's \<open>Print\<close>.
  \<^item> \<open>ThreadBuffers\<close>: \<open>include/piduino/tsqueue.h\<close> and \<open>threadsafebuffer.h\<close>. Threads are steps on a state that holds the
    queue and the threads that wait or have been notified.
  \<^item> \<open>Options\<close>: the option parser \<open>include/piduino/popl.h\<close>; \<open>CommandLines\<close>: command lines written down as lists of
    items, and what the parser makes of them.
  \<^item> \<open>IoDevice\<close>: \<open>src/iodevice.cpp\<close>; \<open>I2cDev\<close>: \<open>src/i2c/i2cdev.cpp\<close>, whose record extends that of \<open>IoDevice\<close>. The kernel is a
    record of system calls, about which the theorems assume the documented law \<open>rdwr_law\<close>.
  \<^item> \<open>Files\<close>: \<open>src/filedevice.cpp\<close>, \<open>src/filestream.cpp\<close> and the opening of \<open>Terminal\<close>. The locale \<open>reopenable\<close> is what a
    program expects of a device that it opens again.
  \<^item> \<open>Streams\<close>: \<open>src/arduino/Stream.cpp\<close> and \<open>Terminal\<close> as a stream, by the locale \<open>byte_stream\<close>.
  \<^item> \<open>Spi\<close>: \<open>src/spi/spidev.cpp\<close> and the Arduino class \<open>SPIClass\<close>; \<open>Serial\<close>: \<open>src/serial/serialport.cpp\<close> and the Arduino
    class \<open>HardwareSerial\<close>. What the kernel promises of its settings is the locale \<open>spi_kernel\<close> or \<open>tty\<close>, each
    interpreted on a simulated kernel.
  \<^item> \<open>Converter\<close>: \<open>src/converter.cpp\<close>; the virtual methods of a driver are the record \<open>conv_vtable\<close>, their contract
    the locale \<open>converter\<close>, interpreted on the drivers \<open>Max7311\<close> (\<open>src/ext/max7311.cpp\<close>), \<open>Mcp4725\<close>
    (\<open>src/ext/mcp4725.cpp\<close>), \<open>Mcp4728\<close> (\<open>src/ext/mcp4728.cpp\<close>) and \<open>Max1161x\<close> (\<open>src/ext/max1161x.cpp\<close>). What these drivers
    share is in \<open>I2cDriver\<close>.
  \<^item> \<open>GpioDevice\<close>: \<open>src/gpio/gpiodevice.cpp\<close> and the registers of \<open>iomap.h\<close>. The virtual methods are the record
    \<open>gpio_vtable\<close>; the locales \<open>gpio_device\<close> and \<open>gpio_pull_device\<close> are what a pin relies on.
  \<^item> \<open>Bcm2835Gpio\<close>, \<open>HxGpio\<close>, \<open>Rp1Gpio\<close>: the drivers \<open>gpio_bcm2835.cpp\<close>, \<open>gpio_hx.cpp\<close> and \<open>gpio_rp1.cpp\<close> under
    \<open>src/arch/arm\<close>. A driver works on a block of registers; how the hardware reacts to a store is the parameter \<open>hw\<close>, and
    what the data sheets promise of it is the locale \<open>bcm_hw\<close>, \<open>hx_hw\<close> or \<open>rp1_hw\<close>, each interpreted on a
    simulation of the chip. Under it the driver implements the locales of \<open>GpioDevice\<close>.
  \<^item> \<open>Pwm\<close>: the engines \<open>pwm_bcm2835.cpp\<close>, \<open>pwm_rp1.cpp\<close> and \<open>pwm_hx.cpp\<close> under \<open>src/arch/arm\<close>, with the locales \<open>bcm_pwm\<close>,
    \<open>rp1_pwm\<close> and \<open>hx_pwm\<close> in the same way; \<open>GpioPwm\<close>: the software PWM \<open>src/gpio/gpiopwm.cpp\<close> and the turns of its thread.
  \<^item> \<open>GpioPin\<close>: \<open>src/gpio/gpiopin.cpp\<close>, \<open>gpiopin_p.cpp\<close> and \<open>gpiopin_p.h\<close>. An operation may be undefined (a null
    pointer), throw, or return, and leaves a state in the last two cases.
  \<^item> This theory: the properties of pins on the devices.

  Register offsets, flags and masks are abbreviations for their numbers. A method that is long in the source
  is sometimes split into several definitions, which follow one another and make up the method together.

  \<^bold>\<open>What the lemmas show.\<close> The containers refine lists, also when threads share them, and no thread sleeps while there is
  work. Strings and streams: searches equal their references, numbers that are printed are read back, reads return.
  The option parser is type sound and reads a command line without a double dash back as it was written. Bus
  transactions send exactly the messages asked for and return the bytes delivered, and the bus is ready again; settings of
  SPI and serial ports reach the kernel. The chip drivers change the pin or value they are told to and nothing else on
  the chip. The GPIO drivers report the modes, levels, pulls and drive strengths that were set, pin by pin, and
  raise the documented exceptions; a pin that is released is as it was before. The PWM engines have the
  frequency, range and value they report, channel by channel. Where the code does something else than it means to, the
  property states what it does.

  \<^bold>\<open>Bounds.\<close> There is no fuel: the loops are structural recursions, have a measure (the splitting of parameters, the walk
  over the ports of the Allwinner chips, the values of an option), or are \<open>partial_function\<close>s where they may run forever (the
  copy loop of the ring buffer, the waiting for the PWM clock, the reading of streams, \<open>String::replace\<close>), whose
  properties state when they return. Indices of the FIFO are 16-bit, open modes, registers and terminal flags are words of their width. Pin numbers are natural numbers: the database holds no
  negative ones.

  \<^bold>\<open>Not modelled.\<close> The SQL database of boards (\<open>src/database\<close>, the \<open>*-database.cpp\<close> files and the bundled
  \<open>cppdb\<close>), the discovery of devices by udev and sysfs, the threads that poll files, processes, clocks, logging and
  configuration files are input and output of the operating system or third-party code. The character device of the
  kernel (\<open>gpio_dev2.cpp\<close>) enters the model of a pin by its methods only. Delays have no effect on the registers and
  are left out where no property is about time, as are debug prints. The connectors and controllers of pins are tables
  built from the database. The wrappers of the Arduino core, the command-line tools and the examples only call what is
  modelled here. Of the ranges and values of converters and of \<open>Stream::parseFloat\<close> the floating-point part is left
  out.
\<close>

section \<open>Pins on their devices\<close>


definition demo_pin :: "nat \<Rightarrow> unit pin" where
  "demo_pin g = (pin_new \<lparr>desc_type = TypeGpio, desc_num = \<lparr>num_logical = 0, num_mcu = g, num_system = int g, num_row = 1,
     num_column = 1, num_chip = 0, num_offset = int g\<rparr>, desc_name = [(ModeInput, ''GPIO'')]\<rparr>)\<lparr>p_isopen := True\<rparr>"

lemma demo_pin_ready: "pin_on_device (demo_pin g) g" "holdMode (demo_pin g) = ModeUnknown" "holdPull (demo_pin g) = PullUnknown"
  by (simp_all add: demo_pin_def pin_new_def pin_on_device_def isGpio_def mcuNumber_def)




section \<open>Chips on the bus\<close>

text \<open>An address given in hexadecimal, the notation of the documented parameter strings, is lost: each of the three
  drivers with an address parameter is constructed for slave 0.\<close>

lemma hex_address_is_zero:
  assumes "map_of (paramsMap params) ''addr'' = Some (CHR ''0'' # CHR ''x'' # h)"
  shows "(Mcp4728_new_params os busPath stod dev params e = Inr (d28, e1) \<longrightarrow> m28_addr d28 = 0) \<and>
    (Mcp4725_new_params os busPath stod dev params e = Inr (d25, e2) \<longrightarrow> m25_addr d25 = 0) \<and>
    (Max7311_new_params os busPath dev params e = Inr (d73, e3) \<longrightarrow> m73_addr d73 = 0)"
proof -
  note a = addr_parameter_hex [OF assms]
  have m: "m25_addr (Mcp4725_mode_parameter str (mcp4725_new dev x)) = x" for str dev x
    by (simp add: Mcp4725_mode_parameter_def mcp4725_new_def iodevice.defs Let_def)
  have n: "m28_addr (mcp4728_new dev x) = x" "m25_addr (mcp4725_new dev x) = x" "m73_addr (max7311_new dev x) = x" for dev x
    by (simp_all add: mcp4728_new_def mcp4725_new_def max7311_new_def iodevice.defs)
  have "Mcp4728_new_params os busPath stod dev params e = Inr (d28, e1) \<Longrightarrow> m28_addr d28 = 0"
    unfolding Mcp4728_new_params_def Let_def by (clarsimp simp: rbind_Inr a n split_beta)
  moreover have "Mcp4725_new_params os busPath stod dev params e = Inr (d25, e2) \<Longrightarrow> m25_addr d25 = 0"
    unfolding Mcp4725_new_params_def Let_def by (clarsimp simp: rbind_Inr a split: prod.splits) (simp add: n m split: option.splits)
  moreover have "Max7311_new_params os busPath dev params e = Inr (d73, e3) \<Longrightarrow> m73_addr d73 = 0"
    unfolding Max7311_new_params_def Let_def by (clarsimp simp: rbind_Inr a n)
  ultimately show ?thesis by blast
qed

lemma hex_address_is_zero_witness:
  "\<exists>d. Max7311_new_params loop_os (\<lambda>i. []) demo_bus ''addr=0x20'' [] = Inr (d, []) \<and> m73_addr d = 0"
proof -
  have m: "paramsMap ''addr=0x20'' = [(''addr'', ''0x20'')]" by code_simp
  have "Max7311_new_params loop_os (\<lambda>i. []) demo_bus ''addr=0x20'' []
      = Inr ((max7311_new demo_bus 0)\<lparr>m73_busTimeout := True\<rparr>, [])"
    by (simp add: Max7311_new_params_def m bus_parameter_def int_parameter_def addr_parameter_def stoi_hex)
  then show ?thesis
    using hex_address_is_zero [of "''addr=0x20''" "''20''" loop_os "\<lambda>i. []" "\<lambda>s. Inr 0" demo_bus "[]"] m by auto
qed

end
